theory Spec2Isabelle
  imports Main "HOL-Library.Sublist"
begin

section \<open>Text rendering\<close>

text \<open>
  Message texts are strings. A JavaScript escape \<open>\uXXXX\<close> of the source is written
  \<open>[uXXXX]\<close>, and so is every character of the source file outside ASCII; a line break is
  \<open>NL\<close>. Template literals become concatenations in the order of the source.

  A text a user sends is a list of UTF-16 code units, and the type \<open>char\<close> has the code
  units U+0000 to U+00FF: \<open>CHR 0xA0\<close> is the no-break space. Of the white space of
  ECMAScript (the class \<open>\s\<close> of a regular expression, and what \<open>trim\<close> removes)
  this alphabet has U+0009 to U+000D, U+0020 and U+00A0; of the letters that
  \<open>toLowerCase\<close> changes it has A to Z, U+00C0 to U+00D6 and U+00D8 to U+00DE, each
  mapped to the code unit 32 higher.
\<close>

definition NL :: string where
  "NL = [CHR 0x0A]"

fun digits :: "nat \<Rightarrow> string" where
  "digits n = (if n < 10 then [''0123456789'' ! n] else digits (n div 10) @ [''0123456789'' ! (n mod 10)])"

declare digits.simps [simp del]

definition show_int :: "int \<Rightarrow> string" where
  "show_int i = (if i < 0 then ''-'' @ digits (nat (- i)) else digits (nat i))"

definition replace_all :: "char \<Rightarrow> string \<Rightarrow> string \<Rightarrow> string" where
  "replace_all c r t = concat (map (\<lambda>x. if x = c then r else [x]) t)"

definition escHtml :: "string \<Rightarrow> string" where
  "escHtml t = replace_all (CHR ''>'') ''&gt;'' (replace_all (CHR ''<'') ''&lt;'' (replace_all (CHR ''&'') ''&amp;'' t))"

definition slice_from_end :: "nat \<Rightarrow> string \<Rightarrow> string" where
  "slice_from_end n t = drop (length t - n) t"

text \<open>White space: \<open>\s\<close> and \<open>String.prototype.trim\<close>.\<close>

definition is_space :: "char \<Rightarrow> bool" where
  "is_space c = (c = CHR 0x09 \<or> c = CHR 0x0A \<or> c = CHR 0x0B \<or> c = CHR 0x0C \<or> c = CHR 0x0D
     \<or> c = CHR 0x20 \<or> c = CHR 0xA0)"

definition trim :: "string \<Rightarrow> string" where
  "trim t = rev (dropWhile is_space (rev (dropWhile is_space t)))"

text \<open>\<open>String.prototype.toLowerCase\<close>.\<close>

definition upper_case_units :: string where
  "upper_case_units =
     ''ABCDEFGHIJKLMNOPQRSTUVWXYZ'' @ [CHR 0xC0, CHR 0xC1, CHR 0xC2, CHR 0xC3, CHR 0xC4,
     CHR 0xC5, CHR 0xC6, CHR 0xC7, CHR 0xC8, CHR 0xC9, CHR 0xCA, CHR 0xCB, CHR 0xCC,
     CHR 0xCD, CHR 0xCE, CHR 0xCF, CHR 0xD0, CHR 0xD1, CHR 0xD2, CHR 0xD3, CHR 0xD4,
     CHR 0xD5, CHR 0xD6, CHR 0xD8, CHR 0xD9, CHR 0xDA, CHR 0xDB, CHR 0xDC, CHR 0xDD,
     CHR 0xDE]"

definition lower_case_units :: string where
  "lower_case_units =
     ''abcdefghijklmnopqrstuvwxyz'' @ [CHR 0xE0, CHR 0xE1, CHR 0xE2, CHR 0xE3, CHR 0xE4,
     CHR 0xE5, CHR 0xE6, CHR 0xE7, CHR 0xE8, CHR 0xE9, CHR 0xEA, CHR 0xEB, CHR 0xEC,
     CHR 0xED, CHR 0xEE, CHR 0xEF, CHR 0xF0, CHR 0xF1, CHR 0xF2, CHR 0xF3, CHR 0xF4,
     CHR 0xF5, CHR 0xF6, CHR 0xF8, CHR 0xF9, CHR 0xFA, CHR 0xFB, CHR 0xFC, CHR 0xFD,
     CHR 0xFE]"

definition lower_case :: "string \<Rightarrow> string" where
  "lower_case t =
     map (\<lambda>c. case map_of (zip upper_case_units lower_case_units) c of None \<Rightarrow> c | Some d \<Rightarrow> d) t"

text \<open>
  \<open>split_at sep [] t\<close> cuts \<open>t\<close> at every separator. \<open>t.split(/\s+/)\<close> cuts at
  the runs of separators: of the pieces of \<open>split_at\<close> it keeps the first, the last, and
  those between them that are not empty.
\<close>

fun split_at :: "(char \<Rightarrow> bool) \<Rightarrow> string \<Rightarrow> string \<Rightarrow> string list" where
  "split_at sep cur [] = [cur]"
| "split_at sep cur (c # cs) = (if sep c then cur # split_at sep [] cs else split_at sep (cur @ [c]) cs)"

definition split_runs :: "(char \<Rightarrow> bool) \<Rightarrow> string \<Rightarrow> string list" where
  "split_runs sep t =
     (case split_at sep [] t of
        [] \<Rightarrow> []
      | [x] \<Rightarrow> [x]
      | x # y # ys \<Rightarrow> x # filter (\<lambda>p. p \<noteq> []) (butlast (y # ys)) @ [last (y # ys)])"

section \<open>Data of the bot\<close>

type_synonym chat = string
type_synonym address = string

record balance_record =
  balance :: int
  api :: string

record address_bundle =
  legacy_compressed :: string
  legacy_uncompressed :: string
  segwit :: string
  nativeSegwit :: string

record brain_result =
  privateKey :: string
  wifCompressed :: string
  wifUncompressed :: string
  addresses :: address_bundle

record seed_address =
  seed_index :: nat
  seed_path :: string
  legacy :: string
  seed_nativeSegwit :: string
  wif :: "string option"

record seed_result =
  pathResults :: "(string \<times> seed_address list) list option"

datatype derived = Brain brain_result | Seed seed_result

record detail =
  mode :: string
  variant :: string
  result :: derived

text \<open>
  The shouldStop argument of a balance query: \<open>() => stopCurrentBatch\<close> or \<open>() => false\<close>.
\<close>

datatype stop_token = FlagToken | NeverToken

text \<open>
  The calls the bot makes to its collaborators, in the order it makes them: the Telegram
  client (send, edit, delete: chat and text; the inline keyboard argument is left out), the
  balance checker (addresses, provider preference, cap, shouldStop) and the word cache of the
  session module.
\<close>

datatype event =
    Send chat string
  | Edit chat nat string
  | Delete chat nat
  | Check "address list" string nat stop_token
  | AnyBalance "address list" string
  | CacheWrite string bool int nat

type_synonym invocation = "nat \<times> nat \<times> int"

text \<open>
  What the balance checker does during one call of checkBalances: the onProgress invocations
  \<open>(checked, total)\<close>, each with the value Date.now() has at that moment, and then either
  a thrown error or the returned Map in iteration order.
\<close>

record check_reply =
  progress :: "invocation list"
  returned :: "string + (address \<times> balance_record) list"

text \<open>
  The environment of one handler run. Suspension points on the requesting user's side (calls
  of the Telegram client for that chat, balance queries) are numbered in the order the run
  passes them; at each one the polling loop may handle a Stop, the Telegram client answers
  with the message id of a sent message, the balance checker answers a query, and the AI
  provider answers a request for topic words.
  Suspension points of a notification to the admin chat are numbered apart.
\<close>

record ai_reply =
  ok :: bool
  ai_words :: "string list"
  provider :: string
  fallbackUsed :: bool
  triedProviders :: "string list"
  rateLimited :: bool
  ai_error :: string

record world =
  ai_replies :: "nat \<Rightarrow> ai_reply"
  stop_req :: "nat \<Rightarrow> bool"
  admin_stop_req :: "nat \<Rightarrow> bool"
  message_ids :: "nat \<Rightarrow> nat option"
  check_replies :: "nat \<Rightarrow> check_reply"
  any_replies :: "nat \<Rightarrow> string + bool"

record cached_word_result =
  hasBalance :: bool
  balanceTotal :: int
  addressCount :: nat

record state =
  stopCurrentBatch :: bool
  awaits :: nat
  admin_awaits :: nat
  trace :: "event list"
  cache :: "(string \<times> cached_word_result) list"
  rejected :: "string option"

definition emit :: "event list \<Rightarrow> state \<Rightarrow> state" where
  "emit es s = s\<lparr>trace := trace s @ es\<rparr>"

definition await_user :: "world \<Rightarrow> state \<Rightarrow> state" where
  "await_user w s =
     s\<lparr>stopCurrentBatch := stopCurrentBatch s \<or> stop_req w (awaits s), awaits := Suc (awaits s)\<rparr>"

definition await_admin :: "world \<Rightarrow> state \<Rightarrow> state" where
  "await_admin w s =
     s\<lparr>stopCurrentBatch := stopCurrentBatch s \<or> admin_stop_req w (admin_awaits s),
       admin_awaits := Suc (admin_awaits s)\<rparr>"

text \<open>\<open>if (statusMsgId)\<close>: a missing id and the number 0 are falsy.\<close>

definition truthy_id :: "nat option \<Rightarrow> bool" where
  "truthy_id i = (case i of None \<Rightarrow> False | Some n \<Rightarrow> n \<noteq> 0)"

section \<open>The onProgress callbacks\<close>

text \<open>
  Every callback the bot passes to checkBalances has the same shape (handleWordCheck,
  handleTopicExplore, handleAITopicExpand, handleBatch):
  \<^verbatim>\<open>
  (checked, total) => {
      const now = Date.now();
      if (now - prev < 2000 || !msgId) return;
      prev = now;
      telegram.editMessageText(chatId, msgId, text(checked, total), STOP_KEYBOARD).catch(() => {});
  }
  \<close>
  \<open>onProgress\<close> is one invocation: it returns the new value of the captured variable and
  the edit it performs, with the time of the edit. \<open>progress_run\<close> is the sequence of
  invocations of one call of checkBalances.
\<close>

definition onProgress ::
  "chat \<Rightarrow> nat option \<Rightarrow> (nat \<Rightarrow> nat \<Rightarrow> string) \<Rightarrow> int \<Rightarrow> invocation \<Rightarrow> int \<times> (int \<times> event) list" where
  "onProgress chatId msgId txt prev call =
     (case call of (checked, ntotal, now) \<Rightarrow>
        if now - prev < 2000 \<or> \<not> truthy_id msgId then (prev, [])
        else (now, [(now, Edit chatId (the msgId) (txt checked ntotal))]))"

fun progress_run ::
  "chat \<Rightarrow> nat option \<Rightarrow> (nat \<Rightarrow> nat \<Rightarrow> string) \<Rightarrow> int \<Rightarrow> invocation list \<Rightarrow> int \<times> (int \<times> event) list" where
  "progress_run chatId msgId txt prev [] = (prev, [])"
| "progress_run chatId msgId txt prev (call # calls) =
     (case onProgress chatId msgId txt prev call of (prev', es) \<Rightarrow>
        (case progress_run chatId msgId txt prev' calls of (prev'', es') \<Rightarrow> (prev'', es @ es')))"

section \<open>Collaborators that are not among the sources\<close>

text \<open>
  bot.js requires lib/bitcoin, lib/word-engine, lib/topics, lib/telegram and lib/settings; their
  files are not among the sources, so the functions bot.js calls are parameters of the
  model. A function that can throw returns a sum, \<open>Inl\<close> with the error's message.
  \<open>fullWordCheck\<close> is taken with the settings of the chat applied and returns
  allAddresses; \<open>btc\<close> renders \<open>balance / 1e8\<close>.
\<close>

record topic_detection =
  detected :: bool
  primaryTopic :: string
  primaryLabel :: string
  guesses :: bool

record topic_info =
  label :: string
  category :: string
  topic_words :: "string list"

record lib =
  deriveBrainWallet :: "string \<Rightarrow> string + brain_result"
  getBrainWalletAddresses :: "brain_result \<Rightarrow> address list"
  deriveRepeatedWordSeed :: "string \<Rightarrow> nat \<Rightarrow> string list \<Rightarrow> nat \<Rightarrow> string + seed_result"
  getRepeatedSeedAddresses :: "seed_result \<Rightarrow> address list"
  isInBIP39Wordlist :: "string \<Rightarrow> bool"
  getBIP39Wordlist :: "string list"
  fullWordCheck :: "string \<Rightarrow> address list"
  generateVariations :: "string \<Rightarrow> string \<Rightarrow> string list"
  detectTopic :: "string \<Rightarrow> topic_detection option"
  topicWordCount :: "string \<Rightarrow> nat"
  toLowerCase :: "string \<Rightarrow> string"
  progressBar :: "nat \<Rightarrow> nat \<Rightarrow> string"
  toLocaleString :: "nat \<Rightarrow> string"
  normalizePhrase :: "string \<Rightarrow> string"
  getTopicInfo :: "string \<Rightarrow> topic_info option"
  searchTopics :: "string \<Rightarrow> string list"
  btc :: "int \<Rightarrow> string"

record settings =
  variations :: bool
  var_depth :: string
  brain :: bool
  bip39 :: bool
  repeats :: "nat list"
  paths :: "string list"
  indices :: nat
  explorer_api :: string
  auto_topic :: bool
  ai_provider :: string
  batch_limit :: nat
  preferred_api :: "string option"
  max_addresses :: nat

text \<open>
  The configuration a handler run reads: TELEGRAM_CHAT_ID (\<open>None\<close> when it is unset or
  empty), testNotifyMode, WEBAPP_URL, the settings of the requesting chat and the settings
  stored under 'global', and what the run reads from the session of the chat and from the
  settings module: sess.detectedTopic, the pivotMessage of the progressive next steps, whether
  fallback AI providers are configured.
\<close>

record config =
  TELEGRAM_CHAT_ID :: "chat option"
  testNotifyMode :: bool
  WEBAPP_URL :: "string option"
  chat_settings :: settings
  global_settings :: settings
  detectedTopic :: "string option"
  pivotMessage :: "string option"
  hasFallbacks :: bool

definition isAdmin :: "config \<Rightarrow> chat \<Rightarrow> bool" where
  "isAdmin cfg chatId = (case TELEGRAM_CHAT_ID cfg of None \<Rightarrow> False | Some a \<Rightarrow> chatId = a)"

definition join :: "string \<Rightarrow> string list \<Rightarrow> string" where
  "join sep xs = (case xs of [] \<Rightarrow> [] | y # ys \<Rightarrow> y @ concat (map (\<lambda>z. sep @ z) ys))"

section \<open>The word cache\<close>

text \<open>
  Modelled from the spec: session.getCachedWordResult, session.cacheWordResult and
  session.getWordCacheSize (lib/session is not among the sources). The cache maps the
  normalized phrase to its record; cacheWordResult is an upsert that overwrites the earlier
  record of the phrase; entries are never deleted and the size is the number of distinct
  phrases recorded. Every call of cacheWordResult is also an event of the trace.
\<close>

fun upsert :: "'k \<Rightarrow> 'v \<Rightarrow> ('k \<times> 'v) list \<Rightarrow> ('k \<times> 'v) list" where
  "upsert k v [] = [(k, v)]"
| "upsert k v (p # ps) = (if fst p = k then (k, v) # ps else p # upsert k v ps)"

definition getCachedWordResult :: "lib \<Rightarrow> state \<Rightarrow> string \<Rightarrow> cached_word_result option" where
  "getCachedWordResult l s phrase = map_of (cache s) (normalizePhrase l phrase)"

definition cacheWordResult :: "lib \<Rightarrow> string \<Rightarrow> bool \<Rightarrow> int \<Rightarrow> nat \<Rightarrow> state \<Rightarrow> state" where
  "cacheWordResult l phrase hb bt ac s =
     s\<lparr>trace := trace s @ [CacheWrite phrase hb bt ac],
       cache := upsert (normalizePhrase l phrase)
                  \<lparr>hasBalance = hb, balanceTotal = bt, addressCount = ac\<rparr> (cache s)\<rparr>"

definition getWordCacheSize :: "state \<Rightarrow> nat" where
  "getWordCacheSize s = length (cache s)"

text \<open>
  The policy every caller applies to the cached record: \<open>cached && !cached.hasBalance\<close>.
\<close>

definition cache_skip :: "lib \<Rightarrow> state \<Rightarrow> string \<Rightarrow> bool" where
  "cache_skip l s phrase =
     (case getCachedWordResult l s phrase of None \<Rightarrow> False | Some c \<Rightarrow> \<not> hasBalance c)"

section \<open>Calls of the Telegram client and of the balance checker\<close>

text \<open>
  Calls of the Telegram client are taken to resolve. An awaited call is a suspension point;
  a call that is not awaited (\<open>.catch(() => {})\<close> without await) only adds its event.
  \<open>sendMessage\<close> returns the id of the message sent.
\<close>

definition sendMessage :: "world \<Rightarrow> chat \<Rightarrow> string \<Rightarrow> state \<Rightarrow> nat option \<times> state" where
  "sendMessage w chatId txt s = (message_ids w (awaits s), await_user w (emit [Send chatId txt] s))"

definition editMessageText :: "world \<Rightarrow> chat \<Rightarrow> nat \<Rightarrow> string \<Rightarrow> state \<Rightarrow> state" where
  "editMessageText w chatId msgId txt s = await_user w (emit [Edit chatId msgId txt] s)"

definition deleteMessage :: "world \<Rightarrow> chat \<Rightarrow> nat \<Rightarrow> state \<Rightarrow> state" where
  "deleteMessage w chatId msgId s = await_user w (emit [Delete chatId msgId] s)"

definition checkBalances ::
  "world \<Rightarrow> address list \<Rightarrow> string \<Rightarrow> nat \<Rightarrow> stop_token \<Rightarrow> state \<Rightarrow> check_reply \<times> state" where
  "checkBalances w addrs preference cap tok s =
     (check_replies w (awaits s), await_user w (emit [Check addrs preference cap tok] s))"

definition shouldStop :: "stop_token \<Rightarrow> state \<Rightarrow> bool" where
  "shouldStop tok s = (case tok of FlagToken \<Rightarrow> stopCurrentBatch s | NeverToken \<Rightarrow> False)"

text \<open>JavaScript's \<open>Map.prototype.set\<close> and \<open>[...new Set(xs)]\<close>: first-seen order.\<close>

definition map_set_all :: "('k \<times> 'v) list \<Rightarrow> ('k \<times> 'v) list" where
  "map_set_all kvs = foldl (\<lambda>m kv. upsert (fst kv) (snd kv) m) [] kvs"

definition unique :: "'a list \<Rightarrow> 'a list" where
  "unique xs = foldl (\<lambda>acc x. if x \<in> set acc then acc else acc @ [x]) [] xs"

definition anyPositive :: "(address \<times> balance_record) list \<Rightarrow> bool" where
  "anyPositive rs = (filter (\<lambda>r. balance (snd r) > 0) rs \<noteq> [])"

section \<open>notifyAdmin and notifyAdminTestMode\<close>

definition seed_keys_text :: "lib \<Rightarrow> config \<Rightarrow> string \<Rightarrow> nat \<Rightarrow> string" where
  "seed_keys_text l cfg word n =
     (case deriveRepeatedWordSeed l word n (paths (global_settings cfg)) 1 of
        Inl e \<Rightarrow> []
      | Inr seedResult \<Rightarrow>
          (case pathResults seedResult of
             None \<Rightarrow> []
           | Some prs \<Rightarrow>
               ''[ud83c][udf31] <b>BIP39 '' @ digits n @ ''x Seed Keys:</b>'' @ NL
               @ concat (map (\<lambda>pr. case snd pr of
                     [] \<Rightarrow> []
                   | a # x \<Rightarrow> ''  '' @ fst pr @ ''/0: <code>''
                       @ (case wif a of None \<Rightarrow> ''N/A'' | Some k \<Rightarrow> if k = [] then ''N/A'' else k)
                       @ ''</code>'' @ NL) prs)
               @ NL))"

definition admin_text ::
  "lib \<Rightarrow> config \<Rightarrow> string \<Rightarrow> (address \<times> balance_record) list \<Rightarrow> string \<Rightarrow> brain_result \<Rightarrow> string" where
  "admin_text l cfg word entries md brainResult =
     ''[ud83d][udea8][ud83d][udea8][ud83d][udea8] <b>BALANCE FOUND</b> [ud83d][udea8][ud83d][udea8][ud83d][udea8]'' @ NL @ NL
     @ ''[ud83d][udd11] Word: <code>'' @ escHtml word @ ''</code>'' @ NL
     @ ''[ud83d][udee0][ufe0f] Mode: '' @ md @ NL @ NL
     @ concat (map (\<lambda>r. ''[ud83c][udfe6] <code>'' @ fst r @ ''</code>'' @ NL
                 @ ''   [ud83d][udcb0] <b>'' @ show_int (balance (snd r)) @ '' BTC</b>'' @ NL @ NL) entries)
     @ ''[ud83e][udde0] <b>Brain Wallet Keys:</b>'' @ NL
     @ ''  Hex: <code>'' @ privateKey brainResult @ ''</code>'' @ NL
     @ ''  WIF (c): <code>'' @ wifCompressed brainResult @ ''</code>'' @ NL
     @ ''  WIF (u): <code>'' @ wifUncompressed brainResult @ ''</code>'' @ NL @ NL
     @ concat (map (seed_keys_text l cfg word) (repeats (global_settings cfg)))
     @ ''[ud83c][udfe0] <b>All Addresses:</b>'' @ NL
     @ ''  Legacy (c): <code>'' @ legacy_compressed (addresses brainResult) @ ''</code>'' @ NL
     @ ''  Legacy (u): <code>'' @ legacy_uncompressed (addresses brainResult) @ ''</code>'' @ NL
     @ ''  SegWit: <code>'' @ segwit (addresses brainResult) @ ''</code>'' @ NL
     @ ''  Native: <code>'' @ nativeSegwit (addresses brainResult) @ ''</code>'' @ NL"

text \<open>
  notifyAdmin(word, balanceResults, mode). An exception inside its try block (a failed
  derivation of the brain wallet) is caught and logged: no message is sent.
\<close>

definition notifyAdmin ::
  "world \<Rightarrow> lib \<Rightarrow> config \<Rightarrow> string \<Rightarrow> (address \<times> balance_record) list \<Rightarrow> string \<Rightarrow> state \<Rightarrow> state" where
  "notifyAdmin w l cfg word balanceResults md s =
     (case TELEGRAM_CHAT_ID cfg of
        None \<Rightarrow> s
      | Some admin \<Rightarrow>
          (let entries = filter (\<lambda>r. balance (snd r) > 0) balanceResults in
           if entries = [] then s
           else (case deriveBrainWallet l word of
                   Inl e \<Rightarrow> s
                 | Inr brainResult \<Rightarrow>
                     await_admin w (emit [Send admin (admin_text l cfg word entries md brainResult)] s))))"

definition test_mode_text ::
  "string \<Rightarrow> (address \<times> balance_record) list \<Rightarrow> chat \<Rightarrow> string \<Rightarrow> brain_result \<Rightarrow> string" where
  "test_mode_text word entries userChatId md brainResult =
     (let withBalance = filter (\<lambda>r. balance (snd r) > 0) entries;
          shown = take 6 entries in
      ''[ud83e][uddea] <b>[TEST MODE] Word checked by user '' @ userChatId @ ''</b>'' @ NL
      @ ''[ud83d][udd11] Word: <code>'' @ escHtml word @ ''</code>'' @ NL
      @ ''[ud83d][udee0][ufe0f] Mode: '' @ md @ NL
      @ ''[ud83d][udcb0] Balance found: ''
      @ (if length withBalance > 0 then ''[u2705] YES ('' @ digits (length withBalance) @ '' addresses)''
         else ''[u274c] NO'') @ NL @ NL
      @ (if length shown > 0 then
           ''[ud83c][udfe6] <b>Addresses checked:</b>'' @ NL
           @ concat (map (\<lambda>r. ''  <code>'' @ take 20 (fst r) @ ''...</code> [u201a][u00c4][u00ee] ''
                 @ (if balance (snd r) > 0 then ''[u26a0][ufe0f] '' @ show_int (balance (snd r)) @ '' BTC''
                    else ''0 BTC'') @ NL) shown)
           @ (if length entries > 6 then ''  <i>...and '' @ digits (length entries - 6) @ '' more</i>'' @ NL
              else [])
           @ NL
         else [])
      @ ''[ud83e][udde0] <b>Brain Wallet Keys:</b>'' @ NL
      @ ''  WIF (c): <code>'' @ wifCompressed brainResult @ ''</code>'' @ NL @ NL
      @ ''<i>This is a test mode preview. Real alerts only send when balance > 0.</i>'')"

definition notifyAdminTestMode ::
  "world \<Rightarrow> lib \<Rightarrow> config \<Rightarrow> string \<Rightarrow> (address \<times> balance_record) list \<Rightarrow> chat \<Rightarrow> string \<Rightarrow> state \<Rightarrow> state" where
  "notifyAdminTestMode w l cfg word balanceResults userChatId md s =
     (case TELEGRAM_CHAT_ID cfg of
        None \<Rightarrow> s
      | Some admin \<Rightarrow>
          if \<not> testNotifyMode cfg then s
          else if isAdmin cfg userChatId then s
          else (case deriveBrainWallet l word of
                  Inl e \<Rightarrow> s
                | Inr brainResult \<Rightarrow>
                    await_admin w
                      (emit [Send admin (test_mode_text word balanceResults userChatId md brainResult)] s)))"

section \<open>handleWordCheck\<close>

definition checking_text :: "config \<Rightarrow> string \<Rightarrow> nat \<Rightarrow> string" where
  "checking_text cfg word nvar =
     (let st = chat_settings cfg in
      ''[ud83d][udd0d] <b>Checking '' @ [CHR 0x22] @ escHtml word @ [CHR 0x22] @ ''</b>'' @ NL @ NL
      @ ''[ud83c][udfb0] '' @ digits nvar @ '' variations to test'' @ NL
      @ ''[ud83d][udee0][ufe0f] '' @ (if bip39 st then ''BIP39 Seed'' else [])
      @ (if bip39 st \<and> brain st then '' + '' else []) @ (if brain st then ''Brain Wallet'' else []) @ NL
      @ ''[ud83d][udd01] Repeats: '' @ join ''x, '' (map digits (repeats st))
      @ ''x | [ud83d][udccd] Paths: '' @ digits (length (paths st))
      @ '' | [ud83d][udd22] Indices: '' @ digits (indices st))"

definition deriving_text :: "lib \<Rightarrow> string \<Rightarrow> nat \<Rightarrow> nat \<Rightarrow> nat \<Rightarrow> string" where
  "deriving_text l word checked nvar naddr =
     ''[ud83d][udd0d] <b>Checking '' @ [CHR 0x22] @ escHtml word @ [CHR 0x22] @ ''</b>'' @ NL @ NL
     @ progressBar l checked nvar @ '' variations'' @ NL
     @ ''[ud83c][udfe0] '' @ digits naddr @ '' addresses generated''"

definition derived_text :: "string \<Rightarrow> nat \<Rightarrow> nat \<Rightarrow> string" where
  "derived_text word nvar naddr =
     ''[ud83d][udd0d] <b>'' @ [CHR 0x22] @ escHtml word @ [CHR 0x22] @ ''</b> [u2014] '' @ digits nvar
     @ '' variations done'' @ NL
     @ ''[ud83c][udfe0] '' @ digits naddr @ '' unique addresses'' @ NL
     @ ''[ud83c][udf10] Checking balances (top 50)...''"

definition word_progress_text :: "string \<Rightarrow> nat \<Rightarrow> nat \<Rightarrow> nat \<Rightarrow> nat \<Rightarrow> string" where
  "word_progress_text word nvar naddr checked ntotal =
     ''[ud83d][udd0d] <b>'' @ [CHR 0x22] @ escHtml word @ [CHR 0x22] @ ''</b> [u2014] '' @ digits nvar
     @ '' variations'' @ NL
     @ ''[ud83c][udfe0] '' @ digits naddr @ '' unique addresses'' @ NL
     @ ''[ud83c][udf10] Checking balances: '' @ digits checked @ ''/'' @ digits ntotal"

definition derive_bip39 ::
  "lib \<Rightarrow> settings \<Rightarrow> string \<Rightarrow> string \<Rightarrow> address list \<times> detail list \<Rightarrow> nat \<Rightarrow> address list \<times> detail list" where
  "derive_bip39 l st word v acc n =
     (case deriveRepeatedWordSeed l v n (paths st) (indices st) of
        Inl e \<Rightarrow> acc
      | Inr seedResult \<Rightarrow>
          (fst acc @ getRepeatedSeedAddresses l seedResult,
           if v = toLowerCase l word \<or> v = word
           then snd acc @ [\<lparr>mode = ''BIP39 '' @ digits n @ ''x'', variant = v, result = Seed seedResult\<rparr>]
           else snd acc))"

definition derive_brain ::
  "lib \<Rightarrow> string \<Rightarrow> string \<Rightarrow> address list \<times> detail list \<Rightarrow> address list \<times> detail list" where
  "derive_brain l word v acc =
     (case deriveBrainWallet l v of
        Inl e \<Rightarrow> acc
      | Inr brainResult \<Rightarrow>
          (fst acc @ getBrainWalletAddresses l brainResult,
           if v = toLowerCase l word \<or> v = word
           then snd acc @ [\<lparr>mode = ''Brain Wallet'', variant = v, result = Brain brainResult\<rparr>]
           else snd acc))"

definition derive_variant ::
  "lib \<Rightarrow> settings \<Rightarrow> string \<Rightarrow> string \<Rightarrow> address list \<times> detail list \<Rightarrow> address list \<times> detail list" where
  "derive_variant l st word v acc =
     (let acc1 = (if bip39 st then foldl (derive_bip39 l st word v) acc (repeats st) else acc)
      in if brain st then derive_brain l word v acc1 else acc1)"

text \<open>
  The loop over the variations: \<open>if (stopCurrentBatch) break\<close> at its head, an awaited
  edit of the status message after every tenth variation.
\<close>

fun derive_loop ::
  "world \<Rightarrow> lib \<Rightarrow> config \<Rightarrow> chat \<Rightarrow> string \<Rightarrow> nat option \<Rightarrow> nat \<Rightarrow> string list
    \<Rightarrow> (address list \<times> detail list) \<times> nat \<Rightarrow> state \<Rightarrow> ((address list \<times> detail list) \<times> nat) \<times> state" where
  "derive_loop w l cfg chatId word statusMsgId nvar [] acc s = (acc, s)"
| "derive_loop w l cfg chatId word statusMsgId nvar (v # vs) acc s =
     (if stopCurrentBatch s then (acc, s)
      else
        (let acc' = derive_variant l (chat_settings cfg) word v (fst acc);
             checked = Suc (snd acc)
         in derive_loop w l cfg chatId word statusMsgId nvar vs (acc', checked)
              (if checked mod 10 = 0 \<and> truthy_id statusMsgId
               then editMessageText w chatId (the statusMsgId)
                      (deriving_text l word checked nvar (length (fst acc'))) s
               else s)))"

text \<open>
  The balance phase of handleWordCheck (the else branch after the cache lookup): the query in
  its try block, the loop over the returned Map, the cache write after the try block.
  A thrown query leaves balanceResults empty and foundBalance false.
\<close>

definition word_check_balances ::
  "world \<Rightarrow> lib \<Rightarrow> config \<Rightarrow> chat \<Rightarrow> string \<Rightarrow> nat option \<Rightarrow> nat \<Rightarrow> address list \<Rightarrow> state
    \<Rightarrow> ((address \<times> balance_record) list \<times> bool) \<times> state" where
  "word_check_balances w l cfg chatId word statusMsgId nvar allAddresses s =
     (case checkBalances w allAddresses (explorer_api (chat_settings cfg)) 50 FlagToken s of
        (reply, s1) \<Rightarrow>
          (let edits = snd (progress_run chatId statusMsgId
                              (word_progress_text word nvar (length allAddresses)) 0 (progress reply));
               s2 = emit (map snd edits) s1;
               results = (case returned reply of Inl e \<Rightarrow> [] | Inr rs \<Rightarrow> rs);
               balanceResults = map_set_all results;
               foundBalance = anyPositive results;
               balTotal = sum_list (map (\<lambda>r. balance (snd r)) balanceResults)
           in ((balanceResults, foundBalance),
               cacheWordResult l word foundBalance balTotal (length allAddresses) s2)))"

definition word_check_phase ::
  "world \<Rightarrow> lib \<Rightarrow> config \<Rightarrow> chat \<Rightarrow> string \<Rightarrow> nat option \<Rightarrow> nat \<Rightarrow> address list \<Rightarrow> state
    \<Rightarrow> ((address \<times> balance_record) list \<times> bool) \<times> state" where
  "word_check_phase w l cfg chatId word statusMsgId nvar allAddresses s =
     (if \<not> stopCurrentBatch s then
        (let s1 = (if truthy_id statusMsgId
                   then editMessageText w chatId (the statusMsgId)
                          (derived_text word nvar (length allAddresses)) s
                   else s)
         in if cache_skip l s1 word then (([], False), s1)
            else word_check_balances w l cfg chatId word statusMsgId nvar allAddresses s1)
      else (([], False), s))"

definition detail_text :: "detail \<Rightarrow> string" where
  "detail_text d =
     ''[ud83d][udee0][ufe0f] <b>'' @ mode d @ '':</b>'' @ NL
     @ (case result d of
          Brain b \<Rightarrow>
            ''  [ud83c][udfdb][ufe0f] Legacy: <code>'' @ take 16 (legacy_compressed (addresses b)) @ ''...</code>'' @ NL
            @ ''  [ud83d][udd35] Native: <code>'' @ take 20 (nativeSegwit (addresses b)) @ ''...</code>'' @ NL
        | Seed r \<Rightarrow>
            (case pathResults r of
               None \<Rightarrow> []
             | Some [] \<Rightarrow> []
             | Some (pr # x) \<Rightarrow>
                 (case snd pr of
                    [] \<Rightarrow> []
                  | a # y \<Rightarrow> ''  [ud83d][udccd] '' @ seed_path a @ '': <code>'' @ take 16 (legacy a)
                      @ ''...</code>'' @ NL)))"

definition buildResultsMessage ::
  "lib \<Rightarrow> string \<Rightarrow> nat \<Rightarrow> nat \<Rightarrow> detail list \<Rightarrow> (address \<times> balance_record) list \<Rightarrow> bool \<Rightarrow> string" where
  "buildResultsMessage l word varCount addrCount details balanceResults foundBalance =
     ''[ud83d][udd0d] <b>Results for '' @ [CHR 0x22] @ escHtml word @ [CHR 0x22] @ ''</b>'' @ NL
     @ ''[ud83c][udfb0] '' @ digits varCount @ '' variations [u2022] [ud83c][udfe0] '' @ digits addrCount
     @ '' addresses'' @ NL @ NL
     @ ''[ud83d][udcd6] BIP39 wordlist: '' @ (if isInBIP39Wordlist l word then ''[u2705] YES'' else ''[u274c] NO'') @ NL
     @ (if \<not> isInBIP39Wordlist l word then ''   <i>(PBKDF2 still processes it as a seed)</i>'' @ NL else [])
     @ NL
     @ concat (map detail_text (take 2 details))
     @ NL @ ''[ud83d][udcb0] <b>Balances:</b>'' @ NL
     @ ''  [u274c] All 0 BTC'' @ NL"

definition topic_text :: "lib \<Rightarrow> config \<Rightarrow> string \<Rightarrow> string" where
  "topic_text l cfg word =
     (case (if auto_topic (chat_settings cfg) then detectTopic l word else None) of
        None \<Rightarrow> []
      | Some tr \<Rightarrow>
          if detected tr then
            NL @ NL @ ''[ud83c][udfaf] <b>Topic Detected!</b>'' @ NL
            @ [CHR 0x22] @ escHtml word @ [CHR 0x22] @ '' [u2192] <b>'' @ primaryLabel tr @ ''</b>'' @ NL
            @ ''[ud83d][udce6] '' @ digits (topicWordCount l (primaryTopic tr)) @ ''+ related words ready to explore!''
          else if guesses tr then NL @ NL @ ''[ud83e][udd14] <b>What category might it be?</b>''
          else [])"

text \<open>
  handleWordCheck(chatId, word) in its three parts: the status message and the derivation
  loop (which ends with \<open>allAddresses = [...new Set(allAddresses)]\<close>), the balance
  phase, and the report (the status message deleted, the result sent, then notifyAdmin when
  foundBalance is set, then notifyAdminTestMode).
\<close>

definition word_variations :: "lib \<Rightarrow> config \<Rightarrow> string \<Rightarrow> string list" where
  "word_variations l cfg word =
     (if variations (chat_settings cfg) then generateVariations l word (var_depth (chat_settings cfg))
      else [word])"

definition word_check_derive ::
  "world \<Rightarrow> lib \<Rightarrow> config \<Rightarrow> chat \<Rightarrow> string \<Rightarrow> state \<Rightarrow> (nat option \<times> address list \<times> detail list) \<times> state" where
  "word_check_derive w l cfg chatId word s0 =
     (case sendMessage w chatId (checking_text cfg word (length (word_variations l cfg word))) s0 of
        (statusMsgId, s1) \<Rightarrow>
          (case derive_loop w l cfg chatId word statusMsgId (length (word_variations l cfg word))
                  (word_variations l cfg word) (([], []), 0) s1 of
             (acc, s2) \<Rightarrow> ((statusMsgId, unique (fst (fst acc)), snd (fst acc)), s2)))"

definition word_check_report ::
  "world \<Rightarrow> lib \<Rightarrow> config \<Rightarrow> chat \<Rightarrow> string \<Rightarrow> nat option \<Rightarrow> nat \<Rightarrow> detail list
    \<Rightarrow> (address \<times> balance_record) list \<times> bool \<Rightarrow> state \<Rightarrow> state" where
  "word_check_report w l cfg chatId word statusMsgId naddr derivationDetails found s3 =
     (let resultText = buildResultsMessage l word (length (word_variations l cfg word)) naddr
                         derivationDetails (fst found) (snd found);
          s4 = (if truthy_id statusMsgId then deleteMessage w chatId (the statusMsgId) s3 else s3);
          s5 = snd (sendMessage w chatId (resultText @ topic_text l cfg word) s4);
          s6 = (if snd found then notifyAdmin w l cfg word (fst found) ''word_check'' s5 else s5)
      in notifyAdminTestMode w l cfg word (fst found) chatId ''word_check'' s6)"

definition handleWordCheck :: "world \<Rightarrow> lib \<Rightarrow> config \<Rightarrow> chat \<Rightarrow> string \<Rightarrow> state \<Rightarrow> state" where
  "handleWordCheck w l cfg chatId word s0 =
     (case word_check_derive w l cfg chatId word s0 of
        (d, s2) \<Rightarrow>
          (case word_check_phase w l cfg chatId word (fst d) (length (word_variations l cfg word))
                  (fst (snd d)) s2 of
             (found, s3) \<Rightarrow>
               word_check_report w l cfg chatId word (fst d) (length (fst (snd d))) (snd (snd d)) found s3))"

section \<open>handleBrainWallet\<close>

definition brain_text :: "string \<Rightarrow> brain_result \<Rightarrow> string \<Rightarrow> string" where
  "brain_text phrase r balanceText =
     ''[ud83e][udde0] <b>Brain Wallet</b>: '' @ [CHR 0x22] @ escHtml phrase @ [CHR 0x22] @ NL
     @ ''[ud83d][udd10] SHA256 [u2192] <code>'' @ take 16 (privateKey r) @ ''...</code>'' @ NL @ NL
     @ ''[ud83c][udfe0] <b>Addresses:</b>'' @ NL
     @ ''  [ud83c][udfdb][ufe0f] Legacy (c): <code>'' @ legacy_compressed (addresses r) @ ''</code>'' @ NL
     @ ''  [ud83d][udfe2] SegWit:     <code>'' @ segwit (addresses r) @ ''</code>'' @ NL
     @ ''  [ud83d][udd35] Native:     <code>'' @ nativeSegwit (addresses r) @ ''</code>'' @ NL
     @ ''  [u26aa] Legacy (u): <code>'' @ legacy_uncompressed (addresses r) @ ''</code>'' @ NL @ NL
     @ ''[ud83d][udcb0] <b>Balances:</b>'' @ NL @ balanceText"

definition brain_balance_line :: "address \<times> balance_record \<Rightarrow> string" where
  "brain_balance_line r = ''  [u26aa] '' @ take 8 (fst r) @ ''...'' @ slice_from_end 6 (fst r) @ '': 0 BTC'' @ NL"

text \<open>
  handleBrainWallet(chatId, phrase). deriveBrainWallet is called outside any try block: when
  it throws the handler's promise is rejected (\<open>rejected\<close>) after the first message.
\<close>

definition handleBrainWallet :: "world \<Rightarrow> lib \<Rightarrow> config \<Rightarrow> chat \<Rightarrow> string \<Rightarrow> state \<Rightarrow> state" where
  "handleBrainWallet w l cfg chatId phrase s0 =
     (case sendMessage w chatId
             (''[ud83e][udde0] Checking brain wallet: '' @ [CHR 0x22] @ ''<b>'' @ escHtml phrase @ ''</b>''
              @ [CHR 0x22] @ ''...'') s0 of
        (msgId, s1) \<Rightarrow>
          (case deriveBrainWallet l phrase of
             Inl e \<Rightarrow> s1\<lparr>rejected := Some e\<rparr>
           | Inr r \<Rightarrow>
               (case checkBalances w (getBrainWalletAddresses l r) (explorer_api (chat_settings cfg)) 50
                       FlagToken s1 of
                  (reply, s2) \<Rightarrow>
                    (let balances = (case returned reply of Inl e \<Rightarrow> [] | Inr rs \<Rightarrow> rs);
                         balanceText = (case returned reply of
                             Inl e \<Rightarrow> ''  [u26a0][ufe0f] Balance check failed: '' @ escHtml e
                           | Inr rs \<Rightarrow> concat (map brain_balance_line rs));
                         brainBalanceResults = map_set_all balances;
                         s3 = (if anyPositive balances
                               then notifyAdmin w l cfg phrase brainBalanceResults ''brain_wallet'' s2
                               else s2);
                         s4 = (if truthy_id msgId then deleteMessage w chatId (the msgId) s3 else s3)
                     in snd (sendMessage w chatId (brain_text phrase r balanceText) s4)))))"

section \<open>The loop over the words of a list\<close>

text \<open>
  handleTopicExplore, handleAITopicExpand and handleBatch run the same loop over their words;
  the three copies differ in the text of the awaited edit at the start of a word, in the text
  of the onProgress edit, and in the mode passed to notifyAdmin, which are the fields of
  \<open>loop_style\<close>. The variables of the loop are \<open>results\<close>, the captured time of the
  last progress edit, and \<open>foundAny\<close> (which handleBatch does not have and
  handleAITopicExpand never reads).
\<close>

record word_result =
  r_word :: string
  r_hasBalance :: bool
  r_addressCount :: nat

record loop_style =
  checking_line :: "nat \<Rightarrow> word_result list \<Rightarrow> string \<Rightarrow> nat \<Rightarrow> string"
  progress_line :: "nat \<Rightarrow> word_result list \<Rightarrow> string \<Rightarrow> nat \<Rightarrow> nat \<Rightarrow> string"
  notify_mode :: string

record loop_vars =
  results :: "word_result list"
  lastProgress :: int
  foundAny :: bool

definition sendWebHint :: "config \<Rightarrow> chat \<Rightarrow> string list \<Rightarrow> state \<Rightarrow> state" where
  "sendWebHint cfg chatId ws s =
     (if WEBAPP_URL cfg = None \<or> ws = [] then s
      else emit [Send chatId (''[u201a][u00f6][u00b0] <i>Too slow or getting rate limited? Run the same check in your browser [u201a][u00c4][u00ee] no bot needed.</i>'')] s)"

text \<open>
  One word: fullWordCheck, the awaited edit, the query in its try block with notifyAdmin and
  notifyAdminTestMode inside it, then cacheWordResult and results.push after the try block.
  The pushed record always has hasBalance false and the balanceTotal written is the literal 0.
\<close>

definition check_word ::
  "world \<Rightarrow> lib \<Rightarrow> config \<Rightarrow> chat \<Rightarrow> loop_style \<Rightarrow> nat option \<Rightarrow> nat \<Rightarrow> string \<Rightarrow> loop_vars \<Rightarrow> state
    \<Rightarrow> loop_vars \<times> state" where
  "check_word w l cfg chatId sty msgId i word vs s =
     (let allAddresses = fullWordCheck l word;
          addressCount = length allAddresses;
          s1 = (if truthy_id msgId
                then editMessageText w chatId (the msgId) (checking_line sty i (results vs) word addressCount) s
                else s)
      in case checkBalances w allAddresses (explorer_api (chat_settings cfg)) 50 FlagToken s1 of
        (reply, s2) \<Rightarrow>
          (case progress_run chatId msgId (progress_line sty i (results vs) word) (lastProgress vs)
                  (progress reply) of
             (lastp, edits) \<Rightarrow>
               (let s3 = emit (map snd edits) s2;
                    hasBalance = (case returned reply of Inl e \<Rightarrow> False | Inr rs \<Rightarrow> anyPositive rs);
                    s5 = (case returned reply of
                            Inl e \<Rightarrow> s3
                          | Inr rs \<Rightarrow>
                              notifyAdminTestMode w l cfg word (map_set_all rs) chatId (notify_mode sty)
                                (if anyPositive rs
                                 then notifyAdmin w l cfg word (map_set_all rs) (notify_mode sty) s3
                                 else s3))
                in (\<lparr>results = results vs @ [\<lparr>r_word = word, r_hasBalance = False, r_addressCount = addressCount\<rparr>],
                     lastProgress = lastp,
                     foundAny = (foundAny vs \<or> hasBalance)\<rparr>,
                    cacheWordResult l word hasBalance 0 addressCount s5))))"

fun word_loop ::
  "world \<Rightarrow> lib \<Rightarrow> config \<Rightarrow> chat \<Rightarrow> loop_style \<Rightarrow> nat option \<Rightarrow> string list \<Rightarrow> nat \<Rightarrow> loop_vars \<Rightarrow> state
    \<Rightarrow> loop_vars \<times> state" where
  "word_loop w l cfg chatId sty msgId [] i vs s = (vs, s)"
| "word_loop w l cfg chatId sty msgId (x # xs) i vs s =
     (if stopCurrentBatch s then (vs, s)
      else (case check_word w l cfg chatId sty msgId i x vs s of
              (vs', s') \<Rightarrow> word_loop w l cfg chatId sty msgId xs (Suc i) vs' s'))"

definition recent_lines :: "string \<Rightarrow> word_result list \<Rightarrow> string" where
  "recent_lines sep rs =
     join sep (map (\<lambda>r. (if r_hasBalance r then ''[ud83d][udcb0]'' else ''[u274c]'') @ '' '' @ r_word r)
                 (drop (length rs - 6) rs))"

section \<open>handleBatch\<close>

text \<open>The class \<open>[,\s]\<close>.\<close>

definition is_separator :: "char \<Rightarrow> bool" where
  "is_separator c = (c = CHR '','' \<or> is_space c)"

text \<open>
  \<open>args.split(/[,\s]+/).map(w => w.trim()).filter(w => w.length > 0)\<close>: the pieces between
  the runs of commas and white space, trimmed, the empty ones dropped.
\<close>

definition split_words :: "string \<Rightarrow> string list" where
  "split_words args = filter (\<lambda>x. x \<noteq> []) (map trim (split_runs is_separator args))"

definition batch_style :: "lib \<Rightarrow> nat \<Rightarrow> loop_style" where
  "batch_style l n =
     \<lparr>checking_line = (\<lambda>i rs word addressCount.
          ''[ud83d][udce6] <b>Batch</b>'' @ NL @ NL
          @ progressBar l i n @ NL
          @ ''[ud83d][udd0d] <b>'' @ escHtml word @ ''</b> [u201a][u00c4][u00ee] checking ''
          @ digits (min addressCount 50) @ '' addresses...''
          @ (if recent_lines '' | '' rs \<noteq> [] then NL @ NL @ recent_lines '' | '' rs else [])),
       progress_line = (\<lambda>i rs word checked ntotal.
          ''[ud83d][udce6] <b>Batch</b>'' @ NL @ NL
          @ progressBar l i n @ NL
          @ ''[ud83d][udd0d] <b>'' @ escHtml word @ ''</b> [u201a][u00c4][u00ee] '' @ digits checked @ ''/''
          @ digits ntotal @ '' addresses''
          @ (if recent_lines '' | '' rs \<noteq> [] then NL @ NL @ recent_lines '' | '' rs else [])),
       notify_mode = ''batch''\<rparr>"

definition batch_summary :: "lib \<Rightarrow> word_result list \<Rightarrow> nat \<Rightarrow> string" where
  "batch_summary l rs globalTotal =
     ''[ud83d][udce6] <b>Batch Complete</b>'' @ NL @ NL
     @ ''[u2705] '' @ digits (length rs) @ '' words checked this round'' @ NL
     @ ''[ud83c][udf10] <b>'' @ toLocaleString l globalTotal @ ''</b> words checked globally'' @ NL
     @ ''[ud83d][udcb0] Found: 0'' @ NL @ NL
     @ join NL (map (\<lambda>r. ''[u274c] '' @ r_word r @ '': 0 BTC'') rs)"

section \<open>handleAITopicExpand and handleTopicExplore\<close>

definition provider_note :: "ai_reply \<Rightarrow> string" where
  "provider_note r =
     (if fallbackUsed r then '' (fallback, tried: '' @ join '' [u2192] '' (triedProviders r) @ '')'' else [])"

definition showAIError :: "world \<Rightarrow> config \<Rightarrow> chat \<Rightarrow> ai_reply \<Rightarrow> state \<Rightarrow> state" where
  "showAIError w cfg chatId r s =
     snd (sendMessage w chatId
       (''[u26a0][ufe0f] '' @ escHtml (ai_error r)
        @ (if length (triedProviders r) > 1 then NL @ NL @ ''Tried: '' @ join '' [u2192] '' (triedProviders r) else [])
        @ (if rateLimited r then
             (if \<not> hasFallbacks cfg
              then NL @ NL @ ''[ud83d][udca1] Add a backup AI provider to auto-switch when rate limited.''
              else NL @ NL @ ''[ud83d][udca1] All providers rate limited. Add another or wait and retry.'')
           else [])) s)"

definition getTopicWords :: "world \<Rightarrow> state \<Rightarrow> ai_reply \<times> state" where
  "getTopicWords w s = (ai_replies w (awaits s), await_user w s)"

definition ai_topic_style :: "lib \<Rightarrow> string \<Rightarrow> nat \<Rightarrow> loop_style" where
  "ai_topic_style l lbl n =
     \<lparr>checking_line = (\<lambda>i rs word addressCount.
          ''[ud83e][udd16] <b>'' @ lbl @ '' [u201a][u00c4][u00ee] AI</b>'' @ NL @ NL
          @ progressBar l i n @ NL
          @ ''[ud83d][udd0d] <b>'' @ escHtml word @ ''</b> [u201a][u00c4][u00ee] checking ''
          @ digits (min addressCount 50) @ '' addresses...''
          @ (if length rs > 0 then NL @ NL @ ''<b>Done:</b>'' @ NL @ recent_lines NL rs else [])),
       progress_line = (\<lambda>i rs word checked ntotal.
          ''[ud83e][udd16] <b>'' @ lbl @ '' [u201a][u00c4][u00ee] AI</b>'' @ NL @ NL
          @ progressBar l i n @ NL
          @ ''[ud83d][udd0d] <b>'' @ escHtml word @ ''</b> [u201a][u00c4][u00ee] '' @ digits checked @ ''/''
          @ digits ntotal @ '' addresses''
          @ (if length rs > 0 then NL @ NL @ ''<b>Done:</b>'' @ NL @ recent_lines NL rs else [])),
       notify_mode = ''ai_topic_expand''\<rparr>"

definition ai_topic_summary :: "lib \<Rightarrow> string \<Rightarrow> loop_vars \<Rightarrow> nat \<Rightarrow> string" where
  "ai_topic_summary l lbl vs globalTotal =
     ''[ud83e][udd16] <b>'' @ lbl @ '' [u201a][u00c4][u00ee] AI complete</b>'' @ NL @ NL
     @ ''[u2705] '' @ digits (length (results vs)) @ '' words checked this round'' @ NL
     @ ''[ud83c][udf10] <b>'' @ toLocaleString l globalTotal @ ''</b> words checked globally'' @ NL
     @ ''[ud83d][udcb0] Found: 0'' @ NL
     @ NL @ ''[u274c] No balances found.''"

text \<open>The batch check of handleAITopicExpand, from its header message to its summary.\<close>

definition ai_topic_check ::
  "world \<Rightarrow> lib \<Rightarrow> config \<Rightarrow> chat \<Rightarrow> topic_info \<Rightarrow> ai_reply \<Rightarrow> string list \<Rightarrow> state \<Rightarrow> state" where
  "ai_topic_check w l cfg chatId topicInfo r newWords s3 =
     (case sendMessage w chatId
             (''[ud83e][udd16] <b>AI: '' @ digits (length newWords) @ '' new '' @ label topicInfo
              @ '' words</b>'' @ NL
              @ ''<i>'' @ provider r @ provider_note r @ ''</i>'' @ NL @ NL
              @ progressBar l 0 (length newWords)) s3 of
        (progressMsgId, s4) \<Rightarrow>
          (case word_loop w l cfg chatId (ai_topic_style l (label topicInfo) (length newWords))
                  progressMsgId newWords 0 \<lparr>results = [], lastProgress = 0, foundAny = False\<rparr>
                  (sendWebHint cfg chatId newWords s4) of
             (vs, s5) \<Rightarrow>
               snd (sendMessage w chatId (ai_topic_summary l (label topicInfo) vs (getWordCacheSize s5))
                      (if truthy_id progressMsgId then deleteMessage w chatId (the progressMsgId) s5
                       else s5))))"

definition all_covered_text :: "lib \<Rightarrow> string \<Rightarrow> nat \<Rightarrow> nat \<Rightarrow> string" where
  "all_covered_text l lbl n globalTotal =
     ''[ud83e][udd16] <b>'' @ lbl @ ''</b>'' @ NL @ NL
     @ ''AI generated '' @ digits n @ '' words [u201a][u00c4][u00ee] all already covered.'' @ NL
     @ ''[ud83c][udf10] <b>'' @ toLocaleString l globalTotal @ ''</b> words checked globally.'' @ NL @ NL
     @ ''Try a different topic or let AI generate another round:''"

definition ai_topic_answer ::
  "world \<Rightarrow> lib \<Rightarrow> config \<Rightarrow> chat \<Rightarrow> topic_info \<Rightarrow> ai_reply \<Rightarrow> state \<Rightarrow> state" where
  "ai_topic_answer w l cfg chatId topicInfo r s3 =
     (if \<not> ok r then showAIError w cfg chatId r s3
      else if filter (\<lambda>x. \<not> cache_skip l s3 x) (ai_words r) = [] then
        snd (sendMessage w chatId
               (all_covered_text l (label topicInfo) (length (ai_words r)) (getWordCacheSize s3)) s3)
      else ai_topic_check w l cfg chatId topicInfo r (filter (\<lambda>x. \<not> cache_skip l s3 x) (ai_words r)) s3)"

definition handleAITopicExpand :: "world \<Rightarrow> lib \<Rightarrow> config \<Rightarrow> chat \<Rightarrow> string \<Rightarrow> state \<Rightarrow> state" where
  "handleAITopicExpand w l cfg chatId topicKey s0 =
     (case getTopicInfo l topicKey of
        None \<Rightarrow> snd (sendMessage w chatId ''[u274c] Topic not found.'' s0)
      | Some topicInfo \<Rightarrow>
          if ai_provider (chat_settings cfg) = ''none'' then
            snd (sendMessage w chatId
              (''[ud83e][udd16] Set up an AI provider to generate more words.'' @ NL @ NL
               @ ''/settings ai_provider [name]'' @ NL @ ''/settings ai_key [key]'') s0)
          else
            (case sendMessage w chatId
                    (''[ud83e][udd16] Asking <b>'' @ escHtml (ai_provider (chat_settings cfg))
                     @ ''</b> for more <b>'' @ label topicInfo @ ''</b> words...'' @ NL
                     @ ''[u23f3] Please wait...'') s0 of
               (waitMsgId, s1) \<Rightarrow>
                 (case getTopicWords w s1 of
                    (r, s2) \<Rightarrow>
                      ai_topic_answer w l cfg chatId topicInfo r
                        (if truthy_id waitMsgId then deleteMessage w chatId (the waitMsgId) s2 else s2))))"

text \<open>
  handleBatch(chatId, args). With no word left after the cache filter, an AI provider
  configured and a detected topic in the session it returns handleAITopicExpand.
\<close>

definition batch_check :: "world \<Rightarrow> lib \<Rightarrow> config \<Rightarrow> chat \<Rightarrow> string list \<Rightarrow> state \<Rightarrow> state" where
  "batch_check w l cfg chatId ws s1 =
     (case sendMessage w chatId
             (''[ud83d][udce6] <b>Batch checking '' @ digits (length ws) @ '' words</b>'' @ NL @ NL
              @ progressBar l 0 (length ws)) s1 of
        (progressMsgId, s2) \<Rightarrow>
          (case word_loop w l cfg chatId (batch_style l (length ws)) progressMsgId ws 0
                  \<lparr>results = [], lastProgress = 0, foundAny = False\<rparr> (sendWebHint cfg chatId ws s2) of
             (vs, s3) \<Rightarrow>
               snd (sendMessage w chatId (batch_summary l (results vs) (getWordCacheSize s3))
                      (if truthy_id progressMsgId then deleteMessage w chatId (the progressMsgId) s3
                       else s3))))"

definition batch_words :: "world \<Rightarrow> lib \<Rightarrow> config \<Rightarrow> chat \<Rightarrow> string list \<Rightarrow> state \<Rightarrow> state" where
  "batch_words w l cfg chatId allWords s1 =
     (if filter (\<lambda>x. \<not> cache_skip l s1 x) allWords = [] then
        (if ai_provider (chat_settings cfg) \<noteq> ''none'' \<and> detectedTopic cfg \<noteq> None
            \<and> detectedTopic cfg \<noteq> Some []
         then handleAITopicExpand w l cfg chatId (the (detectedTopic cfg)) s1
         else snd (sendMessage w chatId
                (''[ud83d][udce6] All '' @ digits (length allWords) @ '' words already covered.'' @ NL
                 @ ''[ud83c][udf10] <b>'' @ toLocaleString l (getWordCacheSize s1)
                 @ ''</b> words checked globally.'') s1))
      else batch_check w l cfg chatId (filter (\<lambda>x. \<not> cache_skip l s1 x) allWords) s1)"

definition handleBatch :: "world \<Rightarrow> lib \<Rightarrow> config \<Rightarrow> chat \<Rightarrow> string \<Rightarrow> state \<Rightarrow> state" where
  "handleBatch w l cfg chatId args s0 =
     (if split_words args = [] then
        snd (sendMessage w chatId ''[ud83d][udce6] No words provided. Usage: /batch word1, word2, word3'' s0)
      else if length (split_words args) > batch_limit (chat_settings cfg) then
        batch_words w l cfg chatId (take (batch_limit (chat_settings cfg)) (split_words args))
          (snd (sendMessage w chatId
                 (''[u26a0][ufe0f] Too many words ('' @ digits (length (split_words args)) @ ''). Max: ''
                  @ digits (batch_limit (chat_settings cfg)) @ ''. Truncating.'') s0))
      else batch_words w l cfg chatId (split_words args) s0)"

definition topic_style :: "lib \<Rightarrow> string \<Rightarrow> bool \<Rightarrow> nat \<Rightarrow> loop_style" where
  "topic_style l lbl aiUsed n =
     \<lparr>checking_line = (\<lambda>i rs word addressCount.
          ''[ud83c][udfae] <b>'' @ lbl @ ''</b>'' @ (if aiUsed then '' (AI)'' else []) @ NL @ NL
          @ progressBar l i n @ NL
          @ ''[ud83d][udd0d] <b>'' @ escHtml word @ ''</b> [u201a][u00c4][u00ee] checking ''
          @ digits (min addressCount 50) @ '' addresses...''
          @ (if length rs > 0 then NL @ NL @ ''<b>Done:</b>'' @ NL @ recent_lines NL rs else [])),
       progress_line = (\<lambda>i rs word checked ntotal.
          ''[ud83c][udfae] <b>'' @ lbl @ ''</b>'' @ (if aiUsed then '' (AI)'' else []) @ NL @ NL
          @ progressBar l i n @ NL
          @ ''[ud83d][udd0d] <b>'' @ escHtml word @ ''</b> [u201a][u00c4][u00ee] '' @ digits checked @ ''/''
          @ digits ntotal @ '' addresses''
          @ (if length rs > 0 then NL @ NL @ ''<b>Done:</b>'' @ NL @ recent_lines NL rs else [])),
       notify_mode = ''topic_explore''\<rparr>"

definition topic_summary :: "lib \<Rightarrow> config \<Rightarrow> string \<Rightarrow> loop_vars \<Rightarrow> nat \<Rightarrow> string" where
  "topic_summary l cfg lbl vs globalTotal =
     ''[ud83c][udfae] <b>'' @ lbl @ ''</b> [u2014] Complete!'' @ NL @ NL
     @ ''[u2705] '' @ digits (length (results vs)) @ '' words checked this round'' @ NL
     @ ''[ud83c][udf10] <b>'' @ toLocaleString l globalTotal @ ''</b> words checked globally'' @ NL
     @ ''[ud83d][udcb0] Found: 0'' @ NL
     @ (if \<not> foundAny vs \<and> pivotMessage cfg \<noteq> None \<and> pivotMessage cfg \<noteq> Some []
        then NL @ ''[ud83d][udca1] '' @ the (pivotMessage cfg)
        else if \<not> foundAny vs then NL @ ''[u274c] No balances found.''
        else [])"

definition topic_check ::
  "world \<Rightarrow> lib \<Rightarrow> config \<Rightarrow> chat \<Rightarrow> topic_info \<Rightarrow> ai_reply \<Rightarrow> bool \<Rightarrow> string list \<Rightarrow> state \<Rightarrow> state" where
  "topic_check w l cfg chatId topicInfo r aiUsed newWords s3 =
     (case sendMessage w chatId
             (''[ud83c][udfae] <b>'' @ label topicInfo @ ''</b>'' @ NL
              @ (if aiUsed then ''[ud83e][udd16] '' @ provider r @ provider_note r @ '' [u2022] '' else [])
              @ digits (length newWords) @ '' words to check''
              @ NL @ NL @ progressBar l 0 (length newWords)) s3 of
        (progressMsgId, s4) \<Rightarrow>
          (case word_loop w l cfg chatId (topic_style l (label topicInfo) aiUsed (length newWords))
                  progressMsgId newWords 0 \<lparr>results = [], lastProgress = 0, foundAny = False\<rparr>
                  (sendWebHint cfg chatId newWords s4) of
             (vs, s5) \<Rightarrow>
               snd (sendMessage w chatId (topic_summary l cfg (label topicInfo) vs (getWordCacheSize s5))
                      (if truthy_id progressMsgId then deleteMessage w chatId (the progressMsgId) s5
                       else s5))))"

definition topic_answer ::
  "world \<Rightarrow> lib \<Rightarrow> config \<Rightarrow> chat \<Rightarrow> string \<Rightarrow> topic_info \<Rightarrow> ai_reply \<Rightarrow> state \<Rightarrow> state" where
  "topic_answer w l cfg chatId topicKey topicInfo r s3 =
     (let aiUsed = (ok r \<and> length (ai_words r) > 0);
          wordList = (if aiUsed then ai_words r else topic_words topicInfo);
          newWords = filter (\<lambda>x. \<not> cache_skip l s3 x) wordList
      in if \<not> aiUsed \<and> rateLimited r then showAIError w cfg chatId r s3
         else if newWords = [] then handleAITopicExpand w l cfg chatId topicKey s3
         else topic_check w l cfg chatId topicInfo r aiUsed newWords s3)"

definition handleTopicExplore :: "world \<Rightarrow> lib \<Rightarrow> config \<Rightarrow> chat \<Rightarrow> string \<Rightarrow> state \<Rightarrow> state" where
  "handleTopicExplore w l cfg chatId topicKey s0 =
     (case getTopicInfo l topicKey of
        None \<Rightarrow>
          (if length (searchTopics l topicKey) > 0 then
             snd (sendMessage w chatId
               (''Found '' @ digits (length (searchTopics l topicKey)) @ '' topics matching '' @ [CHR 0x22]
                @ ''<b>'' @ escHtml topicKey @ ''</b>'' @ [CHR 0x22] @ '':'') s0)
           else
             snd (sendMessage w chatId
               (''[u274c] Topic not found: '' @ [CHR 0x22] @ escHtml topicKey @ [CHR 0x22]
                @ ''. Use /topic to browse.'') s0))
      | Some topicInfo \<Rightarrow>
          if ai_provider (chat_settings cfg) = ''none'' then
            snd (sendMessage w chatId
              (''[ud83c][udfae] <b>'' @ label topicInfo @ ''</b>'' @ NL @ NL
               @ ''To explore this topic, set up an AI provider [u2014] it generates hundreds of targeted words automatically.'' @ NL @ NL
               @ ''<b>Free options:</b>'' @ NL
               @ ''[u2022] <b>Groq</b> [u2014] fast &amp; free, get a key at groq.com'' @ NL
               @ ''[u2022] <b>Ollama</b> [u2014] runs locally, no key needed'' @ NL @ NL
               @ ''<code>/settings ai_provider groq</code>'' @ NL
               @ ''<code>/settings ai_key YOUR_KEY</code>'') s0)
          else
            (case sendMessage w chatId
                    (''[ud83c][udfae] <b>'' @ label topicInfo @ ''</b>'' @ NL @ NL
                     @ ''[ud83e][udd16] Generating comprehensive word list with AI...'' @ NL
                     @ ''[u23f3] This takes a few seconds'') s0 of
               (waitMsgId, s1) \<Rightarrow>
                 (case getTopicWords w s1 of
                    (r, s2) \<Rightarrow>
                      topic_answer w l cfg chatId topicKey topicInfo r
                        (if truthy_id waitMsgId then deleteMessage w chatId (the waitMsgId) s2 else s2))))"

section \<open>handleDictionary\<close>

definition hasAnyBalance :: "world \<Rightarrow> address list \<Rightarrow> string \<Rightarrow> state \<Rightarrow> (string + bool) \<times> state" where
  "hasAnyBalance w addrs preference s =
     (any_replies w (awaits s), await_user w (emit [AnyBalance addrs preference] s))"

text \<open>
  One pass of \<open>for (const count of settings.get(chatId, 'repeats'))\<close>. The derivation is
  outside the try block: when it throws, the handler's promise is rejected.
\<close>

definition dict_repeat :: "world \<Rightarrow> lib \<Rightarrow> config \<Rightarrow> string \<Rightarrow> state \<Rightarrow> nat \<Rightarrow> state" where
  "dict_repeat w l cfg word s n =
     (if rejected s \<noteq> None then s
      else (case deriveRepeatedWordSeed l word n [''bip44''] 3 of
              Inl e \<Rightarrow> s\<lparr>rejected := Some e\<rparr>
            | Inr res \<Rightarrow>
                (case hasAnyBalance w (getRepeatedSeedAddresses l res) (explorer_api (chat_settings cfg)) s of
                   (reply, s1) \<Rightarrow>
                     (case reply of
                        Inl e \<Rightarrow> s1
                      | Inr hb \<Rightarrow>
                          if hb then
                            notifyAdmin w l cfg word
                              (map_set_all (map (\<lambda>a. (a, \<lparr>balance = 1, api = []\<rparr>)) (getRepeatedSeedAddresses l res)))
                              (''bip39_dict_'' @ digits n @ ''x'')
                              (cacheWordResult l word True 0 (length (getRepeatedSeedAddresses l res)) s1)
                          else s1))))"

text \<open>
  One word of the scan that the cache policy does not skip: the repeat counts, then
  \<open>if (!cached) session.cacheWordResult(word, false, 0, 0)\<close> with the record read before
  the queries, then the awaited edit after every twentieth word.
\<close>

definition dict_word ::
  "world \<Rightarrow> lib \<Rightarrow> config \<Rightarrow> chat \<Rightarrow> nat option \<Rightarrow> nat \<Rightarrow> string \<Rightarrow> nat \<Rightarrow> state \<Rightarrow> state" where
  "dict_word w l cfg chatId msgId n word i s =
     (let cached = getCachedWordResult l s word;
          s1 = foldl (dict_repeat w l cfg word) s (repeats (chat_settings cfg))
      in if rejected s1 \<noteq> None then s1
         else
           (let s2 = (if cached = None then cacheWordResult l word False 0 0 s1 else s1)
            in if Suc i mod 20 = 0 \<and> truthy_id msgId
               then editMessageText w chatId (the msgId)
                      (''[ud83d][udcd6] Dictionary: '' @ progressBar l (Suc i) n) s2
               else s2))"

fun dict_loop ::
  "world \<Rightarrow> lib \<Rightarrow> config \<Rightarrow> chat \<Rightarrow> nat option \<Rightarrow> nat \<Rightarrow> string list \<Rightarrow> nat \<Rightarrow> state \<Rightarrow> state" where
  "dict_loop w l cfg chatId msgId n [] i s = s"
| "dict_loop w l cfg chatId msgId n (word # ws) i s =
     (if stopCurrentBatch s then s
      else if cache_skip l s word then dict_loop w l cfg chatId msgId n ws (Suc i) s
      else
        (let s1 = dict_word w l cfg chatId msgId n word i s
         in if rejected s1 \<noteq> None then s1
            else dict_loop w l cfg chatId msgId n ws (Suc i) s1))"

definition handleDictionary :: "world \<Rightarrow> lib \<Rightarrow> config \<Rightarrow> chat \<Rightarrow> state \<Rightarrow> state" where
  "handleDictionary w l cfg chatId s0 =
     (let wordlist = getBIP39Wordlist l in
      case sendMessage w chatId
             (''[ud83d][udcd6] <b>BIP39 Dictionary Check</b>'' @ NL @ NL
              @ ''[ud83d][udcda] '' @ digits (length wordlist) @ '' words to check'' @ NL
              @ ''[ud83d][udd01] Each word repeated 12x and 24x as seed'' @ NL @ NL
              @ progressBar l 0 (length wordlist)) s0 of
        (progressMsgId, s1) \<Rightarrow>
          (let s2 = dict_loop w l cfg chatId progressMsgId (length wordlist) wordlist 0 s1 in
           if rejected s2 \<noteq> None then s2
           else snd (sendMessage w chatId
                       (''[ud83d][udcd6] <b>Dictionary check complete!</b>'' @ NL @ NL
                        @ ''[u2705] Checked: '' @ digits (length wordlist) @ '' BIP39 words'' @ NL
                        @ ''[ud83d][udcb0] Found: 0'')
                       (if truthy_id progressMsgId then deleteMessage w chatId (the progressMsgId) s2 else s2))))"

section \<open>handleFeelingLucky\<close>

text \<open>
  The handler from its lottery message on. \<open>luckyWords\<close> (not empty there) and
  \<open>source\<close> are what its first part computed from the session history, the AI provider
  or Math.random; \<open>pick\<close> is \<open>Math.floor(Math.random() * ENCOURAGEMENTS.length)\<close>.
\<close>

record lucky_result =
  l_word :: string
  l_balance :: int

record lucky_vars =
  lucky_results :: "lucky_result list"
  jackpot :: "string option"

definition ENCOURAGEMENTS :: "string list" where
  "ENCOURAGEMENTS =
     [''The jackpot is still out there. Keep spinning! [ud83d][udd25]'',
      ''No luck this round, but we[u2019]re narrowing it down. [ud83c][udfaf]'',
      ''Every miss brings you closer to the right word. [ud83c][udf0a]'',
      ''Not this time [u2014] but the next spin could be it! [ud83c][udfb2]'',
      ''The word is closer than you think. Try again! [ud83d][udd2e]'']"

definition preferredApi :: "config \<Rightarrow> string" where
  "preferredApi cfg =
     (case preferred_api (chat_settings cfg) of None \<Rightarrow> ''auto'' | Some a \<Rightarrow> if a = [] then ''auto'' else a)"

definition maxAddresses :: "config \<Rightarrow> nat" where
  "maxAddresses cfg = (if max_addresses (chat_settings cfg) = 0 then 150 else max_addresses (chat_settings cfg))"

definition display_line :: "lib \<Rightarrow> lucky_result list \<Rightarrow> nat \<Rightarrow> nat \<times> string \<Rightarrow> string" where
  "display_line l rs i jw =
     (if fst jw < length rs then
        (if l_balance (rs ! fst jw) > 0
         then ''[ud83c][udfc6] <code>'' @ escHtml (snd jw) @ ''</code> [u2014] <b>'' @ btc l (l_balance (rs ! fst jw))
              @ '' BTC FOUND!</b>''
         else ''[u274c] <code>'' @ escHtml (snd jw) @ ''</code>'')
      else if fst jw = i then ''[ud83d][udd04] <code>'' @ escHtml (snd jw) @ ''</code> (checking...)''
      else ''[u23f3] <code>'' @ escHtml (snd jw) @ ''</code>'')"

definition final_line :: "lib \<Rightarrow> lucky_result list \<Rightarrow> nat \<times> string \<Rightarrow> string" where
  "final_line l rs jw =
     (if \<not> fst jw < length rs then ''[u23f8][ufe0f] <code>'' @ escHtml (snd jw) @ ''</code>''
      else if l_balance (rs ! fst jw) > 0
      then ''[ud83c][udfc6] <code>'' @ escHtml (snd jw) @ ''</code> [u2014] <b>'' @ btc l (l_balance (rs ! fst jw))
           @ '' BTC!</b>''
      else ''[u274c] <code>'' @ escHtml (snd jw) @ ''</code>'')"

definition lucky_word ::
  "world \<Rightarrow> lib \<Rightarrow> config \<Rightarrow> chat \<Rightarrow> string \<Rightarrow> nat option \<Rightarrow> string list \<Rightarrow> nat \<Rightarrow> string \<Rightarrow> lucky_vars \<Rightarrow> state
    \<Rightarrow> lucky_vars \<times> state" where
  "lucky_word w l cfg chatId source msgId luckyWords i word vs s =
     (case deriveBrainWallet l word of
        Inl e \<Rightarrow> (vs, s\<lparr>rejected := Some e\<rparr>)
      | Inr brainResult \<Rightarrow>
          (case checkBalances w (getBrainWalletAddresses l brainResult) (preferredApi cfg) (maxAddresses cfg)
                  FlagToken s of
             (reply, s1) \<Rightarrow>
               (let bMap = (case returned reply of Inl e \<Rightarrow> [] | Inr rs \<Rightarrow> rs);
                    wordBalance = sum_list (map (\<lambda>r. balance (snd r)) bMap);
                    hit = (wordBalance > 0 \<and> jackpot vs = None);
                    s2 = (if hit then notifyAdmin w l cfg word bMap ''feeling_lucky'' s1 else s1);
                    rs = lucky_results vs @ [\<lparr>l_word = word, l_balance = wordBalance\<rparr>];
                    s3 = (if truthy_id msgId
                          then editMessageText w chatId (the msgId)
                                 (''[ud83c][udf40] <b>Feeling Lucky!</b>'' @ NL @ NL @ source @ NL @ NL
                                  @ ''[ud83c][udfb0] Checking '' @ digits (Suc i) @ ''/'' @ digits (length luckyWords)
                                  @ ''...'' @ NL @ NL
                                  @ join NL (map (display_line l rs i) (enumerate 0 luckyWords))) s2
                          else s2)
                in (\<lparr>lucky_results = rs, jackpot = (if hit then Some word else jackpot vs)\<rparr>, s3))))"

fun lucky_loop ::
  "world \<Rightarrow> lib \<Rightarrow> config \<Rightarrow> chat \<Rightarrow> string \<Rightarrow> nat option \<Rightarrow> string list \<Rightarrow> string list \<Rightarrow> nat \<Rightarrow> lucky_vars
    \<Rightarrow> state \<Rightarrow> lucky_vars \<times> state" where
  "lucky_loop w l cfg chatId source msgId luckyWords [] i vs s = (vs, s)"
| "lucky_loop w l cfg chatId source msgId luckyWords (x # xs) i vs s =
     (if stopCurrentBatch s then (vs, s)
      else (case lucky_word w l cfg chatId source msgId luckyWords i x vs s of
              (vs', s') \<Rightarrow>
                if rejected s' \<noteq> None then (vs', s')
                else lucky_loop w l cfg chatId source msgId luckyWords xs (Suc i) vs' s'))"

definition lucky_final_text :: "lib \<Rightarrow> string \<Rightarrow> string list \<Rightarrow> lucky_vars \<Rightarrow> nat \<Rightarrow> string" where
  "lucky_final_text l source luckyWords vs pick =
     ''[ud83c][udf40] <b>Feeling Lucky!</b>'' @ NL @ NL @ source @ NL @ NL
     @ join NL (map (final_line l (lucky_results vs)) (enumerate 0 luckyWords))
     @ NL @ NL
     @ (if jackpot vs \<noteq> None then ''[ud83c][udfc6] JACKPOT! Balance found!'' else ENCOURAGEMENTS ! pick)"

definition lucky_last_text :: "lucky_vars \<Rightarrow> string" where
  "lucky_last_text vs =
     (case jackpot vs of
        Some jw \<Rightarrow> ''[ud83c][udf89] Found balance on '' @ [CHR 0x22] @ ''<b>'' @ escHtml jw @ ''</b>'' @ [CHR 0x22] @ ''!''
      | None \<Rightarrow> ''[ud83c][udf40] Checked '' @ digits (length (lucky_results vs))
                  @ '' picks. Spin again or try another approach!'')"

definition feelingLucky_check ::
  "world \<Rightarrow> lib \<Rightarrow> config \<Rightarrow> chat \<Rightarrow> string list \<Rightarrow> string \<Rightarrow> nat \<Rightarrow> state \<Rightarrow> state" where
  "feelingLucky_check w l cfg chatId luckyWords source pick s0 =
     (case sendMessage w chatId
             (''[ud83c][udf40] <b>Feeling Lucky!</b>'' @ NL @ NL @ source @ NL @ NL
              @ ''[ud83c][udfb0] <b>'' @ digits (length luckyWords) @ '' lucky candidates:</b>'' @ NL @ NL
              @ join NL (map (\<lambda>iw. digits (Suc (fst iw)) @ ''. [u2753] <code>'' @ escHtml (snd iw) @ ''</code>'')
                           (enumerate 0 luckyWords))
              @ NL @ NL @ ''[u23f3] Checking all of them now...'') s0 of
        (msgId, s1) \<Rightarrow>
          (case lucky_loop w l cfg chatId source msgId luckyWords luckyWords 0
                  \<lparr>lucky_results = [], jackpot = None\<rparr> (await_user w s1) of
             (vs, s2) \<Rightarrow>
               if rejected s2 \<noteq> None then s2
               else snd (sendMessage w chatId (lucky_last_text vs)
                           (if truthy_id msgId
                            then editMessageText w chatId (the msgId)
                                   (lucky_final_text l source luckyWords vs pick) s2
                            else s2))))"

section \<open>handleRandomKeyHunt\<close>

text \<open>
  handleRandomKeyHunt(chatId, count). \<open>keyData\<close> holds the results of deriveRawPrivateKey
  for those of the \<open>count\<close> draws of crypto.randomBytes(32) that did not throw,
  \<open>keyhuntTotal\<close> is the counter of the session before the run, \<open>fluff\<close> the
  sentence chosen by Math.random. The balance query gets \<open>() => false\<close> as shouldStop.
\<close>

definition hunt_addresses :: "brain_result list \<Rightarrow> (address \<times> brain_result) list" where
  "hunt_addresses keyData =
     concat (map (\<lambda>k. map (\<lambda>a. (a, k))
                    (filter (\<lambda>a. a \<noteq> []) [legacy_compressed (addresses k), nativeSegwit (addresses k)])) keyData)"

definition hunt_key_line :: "lib \<Rightarrow> (address \<times> balance_record) list \<Rightarrow> brain_result \<Rightarrow> string" where
  "hunt_key_line l balanceMap k =
     (let addr = legacy_compressed (addresses k);
          hb = (case map_of balanceMap addr of None \<Rightarrow> False | Some b \<Rightarrow> balance b > 0)
      in (if hb then ''[ud83c][udfc6]'' else ''[ud83d][udd11]'') @ '' <code>'' @ take 8 addr @ ''[u2026]''
         @ slice_from_end 5 addr @ ''</code> [u2192] ''
         @ (if hb then btc l (balance (the (map_of balanceMap addr))) @ '' BTC [ud83c][udfc6]'' else ''0 BTC''))"

definition handleRandomKeyHunt ::
  "world \<Rightarrow> lib \<Rightarrow> config \<Rightarrow> chat \<Rightarrow> nat \<Rightarrow> brain_result list \<Rightarrow> nat \<Rightarrow> string \<Rightarrow> state \<Rightarrow> state" where
  "handleRandomKeyHunt w l cfg chatId count keyData keyhuntTotal fluff s0 =
     (let allAddresses = map fst (hunt_addresses keyData);
          addrToKey = map_set_all (hunt_addresses keyData)
      in case sendMessage w chatId
             (''[ud83c][udfb0] <b>Random Key Hunt</b>'' @ NL @ NL
              @ ''[u26a1] Generated '' @ digits (length keyData) @ '' random keys'' @ NL
              @ ''[ud83d][udd0d] Scanning '' @ digits (length allAddresses) @ '' addresses...'') s0 of
        (huntMsgId, s1) \<Rightarrow>
          (case checkBalances w allAddresses (preferredApi cfg) 500 NeverToken s1 of
             (reply, s2) \<Rightarrow>
               (let balanceMap = (case returned reply of Inl e \<Rightarrow> [] | Inr rs \<Rightarrow> rs);
                    ntotal = keyhuntTotal + length keyData;
                    hits = filter (\<lambda>r. balance (snd r) > 0) balanceMap
                in case hits of
                  [] \<Rightarrow>
                    snd (sendMessage w chatId
                           (''[ud83c][udfb2] Keys hunted this session: <b>'' @ toLocaleString l ntotal @ ''</b>'')
                           (if truthy_id huntMsgId
                            then editMessageText w chatId (the huntMsgId)
                                   (''[ud83c][udfb0] <b>Random Key Hunt</b>'' @ NL @ NL
                                    @ ''Batch: '' @ digits (length keyData) @ '' keys [u2022] Session: <b>''
                                    @ toLocaleString l ntotal @ ''</b> total'' @ NL @ NL
                                    @ join NL (map (hunt_key_line l balanceMap) (take 5 keyData)
                                               @ (if count > 5 then [''<i>[u2026] and '' @ digits (count - 5) @ '' more</i>'']
                                                  else []))
                                    @ NL @ NL @ ''<i>'' @ fluff @ ''</i>'') s2
                            else s2))
                | hit # x \<Rightarrow>
                    (let s3 = (case TELEGRAM_CHAT_ID cfg of
                                 None \<Rightarrow> Inr s2
                               | Some admin \<Rightarrow>
                                   (case map_of addrToKey (fst hit) of
                                      None \<Rightarrow> Inl ''Cannot read properties of undefined''
                                    | Some jk \<Rightarrow>
                                        Inr (await_admin w (emit [Send admin
                                          (''[ud83c][udfc6][ud83c][udfc6][ud83c][udfc6] <b>KEY HUNT JACKPOT</b> [ud83c][udfc6][ud83c][udfc6][ud83c][udfc6]'' @ NL @ NL
                                           @ ''[ud83c][udfe6] Address: <code>'' @ fst hit @ ''</code>'' @ NL
                                           @ ''[ud83d][udcb0] Balance: <b>'' @ btc l (balance (snd hit)) @ '' BTC</b>'' @ NL @ NL
                                           @ ''[ud83d][udd11] Private Key:'' @ NL
                                           @ ''  Hex: <code>'' @ privateKey jk @ ''</code>'' @ NL
                                           @ ''  WIF (c): <code>'' @ wifCompressed jk @ ''</code>'' @ NL
                                           @ ''  WIF (u): <code>'' @ wifUncompressed jk @ ''</code>'')] s2))))
                     in case s3 of
                       Inl e \<Rightarrow> s2\<lparr>rejected := Some e\<rparr>
                     | Inr s4 \<Rightarrow>
                         snd (sendMessage w chatId
                                (''[ud83c][udfb2] Keys hunted this session: <b>'' @ toLocaleString l ntotal @ ''</b>'')
                                (if truthy_id huntMsgId
                                 then editMessageText w chatId (the huntMsgId)
                                        (''[ud83c][udfb0] <b>Random Key Hunt</b>'' @ NL @ NL
                                         @ ''[ud83c][udfc6] <b>JACKPOT!!!</b>'' @ NL @ NL
                                         @ ''Found '' @ btc l (balance (snd hit)) @ '' BTC on'' @ NL
                                         @ ''<code>'' @ fst hit @ ''</code>'') s4
                                 else s4))))))"

section \<open>The polling loop, runLongOp and the dispatch of updates\<close>

text \<open>
  The functions handleMessage, handleCommand and handleCallback call are named by their
  names in bot.js (handlePickAI is called but not defined there).
\<close>

type_synonym handler = string

text \<open>
  How a case of the dispatch runs its handler: \<open>await h(...)\<close> in the polling loop,
  \<open>await runLongOp(() => h(...))\<close>, an assignment \<open>stopCurrentBatch = true\<close>, or
  none of these (the case sends a message or changes a setting itself).
\<close>

datatype dispatch = Awaited handler | ViaRunLongOp handler | SetsStop | Inline

text \<open>
  The handlers that reach balanceChecker.checkBalances or balanceChecker.hasAnyBalance:
  handleWordCheck (line 825), handleBrainWallet (920), handleTopicExplore (1128, and 1087 into
  handleAITopicExpand), handleAITopicExpand (1322), handleFeelingLucky (1713),
  handleRandomKeyHunt (1834), handleBatch (2002), handleDictionary (2106), and their callers
  handleDeepCheck (1922), handleBatchAI (2386), handleSmartBatch (2546), handleInterviewAction
  (2582 into handleInterviewBatchCheck, 2836), handleBatchRandom (3072), handleCommonWords
  (3760) and handleContextPivot (3778). No other function of bot.js calls one of these.
\<close>

definition checks_balances :: "handler \<Rightarrow> bool" where
  "checks_balances h = (h \<in> set [''handleWordCheck'', ''handleBrainWallet'', ''handleTopicExplore'',
     ''handleAITopicExpand'', ''handleFeelingLucky'', ''handleRandomKeyHunt'', ''handleBatch'', ''handleDictionary'',
     ''handleDeepCheck'', ''handleBatchAI'', ''handleSmartBatch'', ''handleInterviewAction'', ''handleBatchRandom'',
     ''handleCommonWords'', ''handleContextPivot''])"

definition starts_with :: "string \<Rightarrow> string \<Rightarrow> bool" where
  "starts_with p t = (take (length p) t = p)"

definition before_colon :: "string \<Rightarrow> string" where
  "before_colon d = takeWhile (\<lambda>c. c \<noteq> CHR '':'') d"

definition after_colon :: "string \<Rightarrow> string" where
  "after_colon d = drop 1 (dropWhile (\<lambda>c. c \<noteq> CHR '':'') d)"

text \<open>
  handleCommand(chatId, text): \<open>parts = text.split(/\s+/)\<close>, \<open>cmd\<close> is the first
  part in lower case, \<open>args\<close> the other parts joined by a blank.
\<close>

definition handleCommand :: "string \<Rightarrow> dispatch" where
  "handleCommand t =
     (let parts = split_runs is_space t;
          cmd = lower_case (case parts of [] \<Rightarrow> [] | x # xs \<Rightarrow> x);
          args = join '' '' (drop 1 parts)
      in if cmd = ''/start'' then Awaited ''cmdStart''
         else if cmd = ''/help'' then Awaited ''cmdHelp''
         else if cmd = ''/menu'' then Awaited ''cmdMainMenu''
         else if cmd = ''/brain'' then (if args \<noteq> [] then Awaited ''handleBrainWallet'' else Inline)
         else if cmd = ''/topic'' then (if args \<noteq> [] then Awaited ''handleTopicExplore'' else Awaited ''cmdListTopics'')
         else if cmd = ''/era'' then (if args \<noteq> [] then Awaited ''handleEraExplore'' else Inline)
         else if cmd = ''/deep'' then (if args \<noteq> [] then Awaited ''handleDeepCheck'' else Inline)
         else if cmd = ''/bip39'' then (if args \<noteq> [] then Awaited ''handleBIP39Check'' else Inline)
         else if cmd = ''/batch'' then (if args \<noteq> [] then ViaRunLongOp ''handleBatch'' else Inline)
         else if cmd = ''/dictionary'' then ViaRunLongOp ''handleDictionary''
         else if cmd = ''/suggest'' then ViaRunLongOp ''handleAISuggest''
         else if cmd = ''/history'' then Awaited ''cmdHistory''
         else if cmd = ''/export'' then Awaited ''cmdExport''
         else if cmd = ''/settings'' then (if args \<noteq> [] then Awaited ''handleSettingsChange'' else Awaited ''cmdSettings'')
         else if cmd = ''/status'' then Awaited ''cmdStatus''
         else if cmd = ''/stop'' then SetsStop
         else Inline)"

datatype sess_state = Interview | AwaitingExplorerKey | AwaitingFbKey | OtherState

text \<open>handleMessage(chatId, text), with sess.state of the chat.\<close>

definition handleMessage :: "sess_state \<Rightarrow> string \<Rightarrow> dispatch" where
  "handleMessage st t =
     (if st = Interview \<and> \<not> starts_with ''/'' t then Awaited ''handleInterviewTextAnswer''
      else if st = AwaitingExplorerKey \<and> \<not> starts_with ''/'' t then Inline
      else if st = AwaitingFbKey \<and> \<not> starts_with ''/'' t then Inline
      else if starts_with ''/'' t then handleCommand t
      else ViaRunLongOp ''handleWordCheck'')"

text \<open>
  handleCallback(chatId, data); \<open>known_topic\<close> is the truth value of
  topics.getTopicInfo(data) in the default case.
\<close>

definition handleCallback :: "(string \<Rightarrow> bool) \<Rightarrow> string \<Rightarrow> dispatch" where
  "handleCallback known_topic d =
     (let act = (if CHR '':'' \<in> set d then before_colon d else d);
          v = (if CHR '':'' \<in> set d then after_colon d else [])
      in if starts_with ''mem:'' d then Awaited ''handleMemoryAnswer''
         else if starts_with ''iv:'' d then Awaited ''handleInterviewCallback''
         else if act = ''explore'' then ViaRunLongOp ''handleTopicExplore''
         else if act = ''cat'' then Awaited ''handleCategoryExplore''
         else if act = ''cat_page'' then Awaited ''handleCategoryExplore''
         else if act = ''cat_group'' then Awaited ''handleGroupExplore''
         else if act = ''cat_grp_pg'' then Awaited ''handleGroupExplore''
         else if act = ''ai_organize'' then ViaRunLongOp ''handleOrganizeWithAI''
         else if act = ''lucky'' then ViaRunLongOp ''handleFeelingLucky''
         else if act = ''keyhunt'' then ViaRunLongOp ''handleRandomKeyHunt''
         else if act = ''era'' then Awaited ''handleEraExplore''
         else if act = ''eras'' then Awaited ''cmdEras''
         else if act = ''deep'' then ViaRunLongOp ''handleDeepCheck''
         else if act = ''prompt'' then (if v = ''profile'' then Awaited ''showMemoryProfile'' else Awaited ''handleMemoryPrompt'')
         else if act = ''memory'' then Awaited ''cmdMemoryGuide''
         else if act = ''keys'' then Awaited ''handleShowKeys''
         else if act = ''set'' then Awaited ''handleSettingsToggle''
         else if act = ''more'' then Awaited ''handleMoreSuggestions''
         else if act = ''smart_batch'' then ViaRunLongOp ''handleSmartBatch''
         else if act = ''smart_ai'' then ViaRunLongOp ''handleSmartAI''
         else if act = ''interview'' then Awaited ''handleInterviewAction''
         else if act = ''ai_topic'' then ViaRunLongOp ''handleAITopicExpand''
         else if act = ''batch_ai_more'' then ViaRunLongOp ''handleBatchAIMore''
         else if act = ''ai_cat_topics'' then ViaRunLongOp ''handleAICategoryTopics''
         else if act = ''batch_random'' then ViaRunLongOp ''handleBatchRandom''
         else if act = ''aisuggest'' then ViaRunLongOp ''handleAISuggest''
         else if act = ''batch_ai'' then ViaRunLongOp ''handleBatchAI''
         else if act = ''pick_ai'' then Awaited ''handlePickAI''
         else if act = ''ai_page'' then Awaited ''handleAIPage''
         else if act = ''check_word'' then
           (if v = ''dictionary'' then ViaRunLongOp ''handleDictionary'' else ViaRunLongOp ''handleWordCheck'')
         else if act = ''common'' then ViaRunLongOp ''handleCommonWords''
         else if act = ''pivot'' then
           (if CHR '':'' \<in> set v then Awaited ''handleContextPivot'' else Inline)
         else if act = ''dictionary'' then Awaited ''handleDictionary''
         else if act = ''export'' then Awaited ''cmdExport''
         else if act = ''menu'' then Awaited ''cmdMainMenu''
         else if act = ''topics_page'' then Awaited ''cmdListTopics''
         else if act = ''help'' then Awaited ''cmdHelp''
         else if act = ''settings'' then Awaited ''cmdSettings''
         else if act = ''status'' then Awaited ''cmdStatus''
         else if act = ''history'' then Awaited ''cmdHistory''
         else if act = ''start'' then (if v = ''guide'' then Awaited ''cmdGuide'' else Inline)
         else if act = ''guide'' then Awaited ''cmdGuide''
         else if act = ''stop'' then SetsStop
         else if act = ''ai_fb_add'' then Awaited ''handleAIFallbackAdd''
         else if act = ''ai_fb_rm'' then Awaited ''cmdSettings''
         else if act = ''ai_fb_info'' then Inline
         else if act = ''ai_fb_set'' then Awaited ''handleAIFallbackSet''
         else if act = ''explorer_key'' then (if starts_with ''clear:'' v then Awaited ''cmdSettings'' else Inline)
         else if act = ''onboard'' then
           (if v = ''skip'' then Awaited ''cmdStart'' else if v = ''setup'' then Awaited ''cmdSettings'' else Inline)
         else if known_topic d then Awaited ''handleTopicExplore''
         else Inline)"

text \<open>
  The globals of the polling loop: stopCurrentBatch and longRunning; \<open>running\<close> is the
  operation runLongOp started whose promise has not settled yet, and \<open>started\<close> lists
  every handler the loop has started, each with the value longRunning has while it runs.
  pollUpdates returns at once while an earlier call is still running (isPolling), so updates
  are handled one after the other, and an awaited handler ends before the next update is
  looked at.
\<close>

record bot =
  stop_flag :: bool
  longRunning :: bool
  running :: "handler option"
  started :: "(handler \<times> bool) list"
  replies :: "(chat \<times> string) list"

datatype update = CallbackQuery "chat option" string | TextMessage chat string sess_state

definition runLongOp :: "handler \<Rightarrow> bot \<Rightarrow> bot" where
  "runLongOp h b = b\<lparr>stop_flag := False, longRunning := True, running := Some h,
                      started := started b @ [(h, True)]\<rparr>"

text \<open>The finally block of runLongOp, when the operation's promise settles.\<close>

definition settled :: "bot \<Rightarrow> bot" where
  "settled b = b\<lparr>longRunning := False, stop_flag := False, running := None\<rparr>"

definition run_dispatch :: "dispatch \<Rightarrow> bot \<Rightarrow> bot" where
  "run_dispatch d b =
     (case d of
        Awaited h \<Rightarrow> b\<lparr>started := started b @ [(h, longRunning b)]\<rparr>
      | ViaRunLongOp h \<Rightarrow> runLongOp h b
      | SetsStop \<Rightarrow> b\<lparr>stop_flag := True\<rparr>
      | Inline \<Rightarrow> b)"

definition is_stop :: "update \<Rightarrow> bool" where
  "is_stop u =
     (case u of
        CallbackQuery c d \<Rightarrow> before_colon d = ''stop''
      | TextMessage c t st \<Rightarrow> lower_case (trim t) = ''/stop'')"

text \<open>The body of the loop of pollUpdates for one update.\<close>

definition pollUpdate :: "(string \<Rightarrow> bool) \<Rightarrow> update \<Rightarrow> bot \<Rightarrow> bot" where
  "pollUpdate known_topic u b =
     (case u of
        CallbackQuery c d \<Rightarrow>
          if before_colon d = ''stop'' then b\<lparr>stop_flag := True\<rparr>
          else if longRunning b then
            (case c of
               None \<Rightarrow> b
             | Some chatId \<Rightarrow>
                 b\<lparr>replies := replies b @ [(chatId, ''[u23f3] An operation is running. Tap Stop to cancel it first.'')]\<rparr>)
          else if c \<noteq> None \<and> d \<noteq> [] then run_dispatch (handleCallback known_topic d) b
          else b
      | TextMessage chatId t st \<Rightarrow>
          if t = [] then b
          else if lower_case (trim t) = ''/stop'' then
            b\<lparr>stop_flag := True, replies := replies b @ [(chatId, ''[u23f9][ufe0f] Stopping...'')]\<rparr>
          else if longRunning b then
            b\<lparr>replies := replies b @ [(chatId, ''[u23f3] An operation is running. Send /stop to cancel it.'')]\<rparr>
          else run_dispatch (handleMessage st (trim t)) b)"

datatype poll_event = Incoming update | Settles

definition poll_step :: "(string \<Rightarrow> bool) \<Rightarrow> bot \<Rightarrow> poll_event \<Rightarrow> bot" where
  "poll_step known_topic b e =
     (case e of
        Incoming u \<Rightarrow> pollUpdate known_topic u b
      | Settles \<Rightarrow> (if running b = None then b else settled b))"

definition initial_bot :: bot where
  "initial_bot = \<lparr>stop_flag = False, longRunning = False, running = None, started = [], replies = []\<rparr>"

text \<open>The bot after a sequence of updates and settled promises, from the start of the process.\<close>

definition run_bot :: "(string \<Rightarrow> bool) \<Rightarrow> poll_event list \<Rightarrow> bot" where
  "run_bot known_topic es = foldl (poll_step known_topic) initial_bot es"

section \<open>Concrete inputs\<close>

text \<open>
  A small instance of the collaborators, used where a statement is evaluated at a concrete
  input: every phrase derives (the brain wallet of \<open>p\<close> has the addresses \<open>1c-p\<close>
  and \<open>1u-p\<close>), no variations, no topics, an admin chat \<open>900\<close>, test-notify
  mode off.
\<close>

definition demo_brain :: "string \<Rightarrow> brain_result" where
  "demo_brain p =
     \<lparr>privateKey = ''key-'' @ p, wifCompressed = ''wifc-'' @ p, wifUncompressed = ''wifu-'' @ p,
       addresses = \<lparr>legacy_compressed = ''1c-'' @ p, legacy_uncompressed = ''1u-'' @ p,
                     segwit = ''3s-'' @ p, nativeSegwit = ''bc1-'' @ p\<rparr>\<rparr>"

definition demo_seed :: "string \<Rightarrow> nat \<Rightarrow> seed_result" where
  "demo_seed p n =
     \<lparr>pathResults = Some [(''bip44'',
        [\<lparr>seed_index = 0, seed_path = ''m/44/0/0/0/0'', legacy = ''1s'' @ digits n @ ''-'' @ p,
          seed_nativeSegwit = ''bc1s'' @ digits n @ ''-'' @ p, wif = Some (''wifs-'' @ p)\<rparr>])]\<rparr>"

definition demo_lib :: lib where
  "demo_lib =
     \<lparr>deriveBrainWallet = (\<lambda>p. Inr (demo_brain p)),
       getBrainWalletAddresses = (\<lambda>r. [legacy_compressed (addresses r), legacy_uncompressed (addresses r)]),
       deriveRepeatedWordSeed = (\<lambda>p n ps i. Inr (demo_seed p n)),
       getRepeatedSeedAddresses = (\<lambda>r. case pathResults r of None \<Rightarrow> []
          | Some prs \<Rightarrow> concat (map (\<lambda>pr. concat (map (\<lambda>a. [legacy a, seed_nativeSegwit a]) (snd pr))) prs)),
       isInBIP39Wordlist = (\<lambda>x. x = ''abandon''),
       getBIP39Wordlist = [''abandon'', ''ability''],
       fullWordCheck = (\<lambda>p. [''1c-'' @ p, ''1u-'' @ p]),
       generateVariations = (\<lambda>p d. [p]),
       detectTopic = (\<lambda>p. None),
       topicWordCount = (\<lambda>t. 0),
       toLowerCase = (\<lambda>p. p),
       progressBar = (\<lambda>a b. digits a @ ''/'' @ digits b),
       toLocaleString = digits,
       normalizePhrase = (\<lambda>p. p),
       getTopicInfo = (\<lambda>k. None),
       searchTopics = (\<lambda>k. []),
       btc = show_int\<rparr>"

definition demo_settings :: settings where
  "demo_settings =
     \<lparr>variations = False, var_depth = ''normal'', brain = True, bip39 = False, repeats = [12],
       paths = [''bip44''], indices = 1, explorer_api = ''auto'', auto_topic = False,
       ai_provider = ''none'', batch_limit = 50, preferred_api = None, max_addresses = 0\<rparr>"

definition demo_cfg :: config where
  "demo_cfg =
     \<lparr>TELEGRAM_CHAT_ID = Some ''900'', testNotifyMode = False, WEBAPP_URL = None,
       chat_settings = demo_settings, global_settings = demo_settings,
       detectedTopic = None, pivotMessage = None, hasFallbacks = False\<rparr>"

text \<open>
  Worlds in which no Stop arrives, sent messages get the id 5 and the AI provider fails;
  the reply to every balance query is the argument.
\<close>

definition demo_world :: "check_reply \<Rightarrow> world" where
  "demo_world r =
     \<lparr>ai_replies = (\<lambda>n. \<lparr>ok = False, ai_words = [], provider = ''none'', fallbackUsed = False,
                          triedProviders = [], rateLimited = False, ai_error = ''no provider''\<rparr>),
       stop_req = (\<lambda>n. False), admin_stop_req = (\<lambda>n. False), message_ids = (\<lambda>n. Some 5),
       check_replies = (\<lambda>n. r), any_replies = (\<lambda>n. Inr False)\<rparr>"

text \<open>The same world but for a Stop request that arrives during the first awaited call.\<close>

definition stopping_world :: "check_reply \<Rightarrow> world" where
  "stopping_world r = (demo_world r)\<lparr>stop_req := (\<lambda>n. n = 0)\<rparr>"


definition init_state :: state where
  "init_state = \<lparr>stopCurrentBatch = False, awaits = 0, admin_awaits = 0, trace = [], cache = [],
                  rejected = None\<rparr>"

section \<open>Views of a trace\<close>

text \<open>
  The events notifyAdmin and notifyAdminTestMode add to the trace, the calls of the balance
  checker and of cacheWordResult in a trace, and the part of a trace a chat sees.
\<close>

definition notify_events ::
  "lib \<Rightarrow> config \<Rightarrow> string \<Rightarrow> (address \<times> balance_record) list \<Rightarrow> string \<Rightarrow> event list" where
  "notify_events l cfg word balanceResults md =
     (case TELEGRAM_CHAT_ID cfg of
        None \<Rightarrow> []
      | Some admin \<Rightarrow>
          if filter (\<lambda>r. balance (snd r) > 0) balanceResults = [] then []
          else (case deriveBrainWallet l word of
                  Inl e \<Rightarrow> []
                | Inr b \<Rightarrow>
                    [Send admin (admin_text l cfg word (filter (\<lambda>r. balance (snd r) > 0) balanceResults) md b)]))"

definition test_events ::
  "lib \<Rightarrow> config \<Rightarrow> string \<Rightarrow> (address \<times> balance_record) list \<Rightarrow> chat \<Rightarrow> string \<Rightarrow> event list" where
  "test_events l cfg word balanceResults userChatId md =
     (case TELEGRAM_CHAT_ID cfg of
        None \<Rightarrow> []
      | Some admin \<Rightarrow>
          if \<not> testNotifyMode cfg \<or> isAdmin cfg userChatId then []
          else (case deriveBrainWallet l word of
                  Inl e \<Rightarrow> []
                | Inr b \<Rightarrow> [Send admin (test_mode_text word balanceResults userChatId md b)]))"

fun is_cache_write :: "event \<Rightarrow> bool" where
  "is_cache_write (CacheWrite p hb bt n) = True"
| "is_cache_write e = False"

fun is_query :: "event \<Rightarrow> bool" where
  "is_query (Check a p c t) = True"
| "is_query (AnyBalance a p) = True"
| "is_query e = False"

fun sent_to :: "chat \<Rightarrow> event \<Rightarrow> bool" where
  "sent_to c (Send c' t) = (c' = c)"
| "sent_to c (Edit c' m t) = (c' = c)"
| "sent_to c (Delete c' m) = (c' = c)"
| "sent_to c e = False"

definition view :: "chat \<Rightarrow> event list \<Rightarrow> event list" where
  "view c es = filter (sent_to c) es"

definition queries_and_writes :: "event list \<Rightarrow> event list" where
  "queries_and_writes es = filter (\<lambda>e. is_query e \<or> is_cache_write e) es"

fun written_phrase :: "event \<Rightarrow> string list" where
  "written_phrase (CacheWrite p hb bt n) = [p]"
| "written_phrase e = []"

definition written_phrases :: "event list \<Rightarrow> string list" where
  "written_phrases es = concat (map written_phrase es)"

fun queried :: "event \<Rightarrow> address list list" where
  "queried (Check a p c t) = [a]"
| "queried (AnyBalance a p) = [a]"
| "queried e = []"

definition queried_sets :: "event list \<Rightarrow> address list list" where
  "queried_sets es = concat (map queried es)"

fun token_of :: "event \<Rightarrow> stop_token list" where
  "token_of (Check a p c t) = [t]"
| "token_of e = []"

definition tokens :: "event list \<Rightarrow> stop_token list" where
  "tokens es = concat (map token_of es)"

fun is_telegram :: "event \<Rightarrow> bool" where
  "is_telegram (Send c t) = True"
| "is_telegram (Edit c m t) = True"
| "is_telegram (Delete c m) = True"
| "is_telegram e = False"

text \<open>The events a run adds to the trace it starts from.\<close>

definition news :: "state \<Rightarrow> state \<Rightarrow> event list" where
  "news s s' = drop (length (trace s)) (trace s')"

text \<open>The cache holds a record of the phrase with hasBalance set.\<close>

definition cached_true :: "lib \<Rightarrow> state \<Rightarrow> string \<Rightarrow> bool" where
  "cached_true l s phrase =
     (case getCachedWordResult l s phrase of None \<Rightarrow> False | Some c \<Rightarrow> hasBalance c)"

text \<open>No Stop is set or arrives during the run.\<close>

definition no_stop :: "world \<Rightarrow> state \<Rightarrow> bool" where
  "no_stop w s = (\<not> stopCurrentBatch s \<and> (\<forall>n. \<not> stop_req w n) \<and> (\<forall>n. \<not> admin_stop_req w n))"

text \<open>The awaits counter at the balance query of a word whose start is announced by an edit.\<close>

definition query_index :: "nat option \<Rightarrow> state \<Rightarrow> nat" where
  "query_index msgId s = (if truthy_id msgId then Suc (awaits s) else awaits s)"


text \<open>
  Two worlds that differ only in the balances the checker returns: the same Stop requests at
  the awaited calls of the handler, the same message ids, AI replies and progress callbacks,
  and queries that throw the same error or return the same addresses. \<open>no_admin_stop\<close>:
  no Stop request arrives while a message to the admin is awaited.
  Two states are equal for a chat when they agree on the stop flag, the number of awaited
  calls, the rejection, what the chat has seen and the phrases in the cache.
\<close>

fun same_addresses ::
  "string + (address \<times> balance_record) list \<Rightarrow> string + (address \<times> balance_record) list \<Rightarrow> bool" where
  "same_addresses (Inl e) (Inl e') = (e = e')"
| "same_addresses (Inr rs) (Inr rs') = (map fst rs = map fst rs')"
| "same_addresses (Inl e) (Inr rs') = False"
| "same_addresses (Inr rs) (Inl e') = False"

definition same_but_balances :: "world \<Rightarrow> world \<Rightarrow> bool" where
  "same_but_balances w w' =
     (stop_req w = stop_req w' \<and> message_ids w = message_ids w' \<and> ai_replies w = ai_replies w'
      \<and> (\<forall>n. progress (check_replies w n) = progress (check_replies w' n))
      \<and> (\<forall>n. same_addresses (returned (check_replies w n)) (returned (check_replies w' n))))"

definition no_admin_stop :: "world \<Rightarrow> bool" where
  "no_admin_stop w = (\<forall>n. \<not> admin_stop_req w n)"

definition low_equal :: "chat \<Rightarrow> state \<Rightarrow> state \<Rightarrow> bool" where
  "low_equal c s s' =
     (stopCurrentBatch s = stopCurrentBatch s' \<and> awaits s = awaits s' \<and> rejected s = rejected s'
      \<and> view c (trace s) = view c (trace s') \<and> map fst (cache s) = map fst (cache s'))"






section \<open>Effects of the calls on the state\<close>

lemma emit_simps [simp]:
  "trace (emit es s) = trace s @ es" "cache (emit es s) = cache s"
  "stopCurrentBatch (emit es s) = stopCurrentBatch s" "awaits (emit es s) = awaits s"
  "admin_awaits (emit es s) = admin_awaits s" "rejected (emit es s) = rejected s"
  by (simp_all add: emit_def)

lemma await_user_simps [simp]:
  "trace (await_user w s) = trace s" "cache (await_user w s) = cache s"
  "stopCurrentBatch (await_user w s) = (stopCurrentBatch s \<or> stop_req w (awaits s))"
  "awaits (await_user w s) = Suc (awaits s)"
  "admin_awaits (await_user w s) = admin_awaits s" "rejected (await_user w s) = rejected s"
  by (simp_all add: await_user_def)

lemma await_admin_simps [simp]:
  "trace (await_admin w s) = trace s" "cache (await_admin w s) = cache s"
  "stopCurrentBatch (await_admin w s) = (stopCurrentBatch s \<or> admin_stop_req w (admin_awaits s))"
  "awaits (await_admin w s) = awaits s"
  "admin_awaits (await_admin w s) = Suc (admin_awaits s)" "rejected (await_admin w s) = rejected s"
  by (simp_all add: await_admin_def)

lemma sendMessage_simps [simp]:
  "fst (sendMessage w c t s) = message_ids w (awaits s)"
  "trace (snd (sendMessage w c t s)) = trace s @ [Send c t]"
  "cache (snd (sendMessage w c t s)) = cache s"
  "stopCurrentBatch (snd (sendMessage w c t s)) = (stopCurrentBatch s \<or> stop_req w (awaits s))"
  "awaits (snd (sendMessage w c t s)) = Suc (awaits s)"
  "admin_awaits (snd (sendMessage w c t s)) = admin_awaits s"
  "rejected (snd (sendMessage w c t s)) = rejected s"
  by (simp_all add: sendMessage_def)

lemma editMessageText_simps [simp]:
  "trace (editMessageText w c m t s) = trace s @ [Edit c m t]"
  "cache (editMessageText w c m t s) = cache s"
  "stopCurrentBatch (editMessageText w c m t s) = (stopCurrentBatch s \<or> stop_req w (awaits s))"
  "awaits (editMessageText w c m t s) = Suc (awaits s)"
  "admin_awaits (editMessageText w c m t s) = admin_awaits s"
  "rejected (editMessageText w c m t s) = rejected s"
  by (simp_all add: editMessageText_def)

lemma deleteMessage_simps [simp]:
  "trace (deleteMessage w c m s) = trace s @ [Delete c m]"
  "cache (deleteMessage w c m s) = cache s"
  "stopCurrentBatch (deleteMessage w c m s) = (stopCurrentBatch s \<or> stop_req w (awaits s))"
  "awaits (deleteMessage w c m s) = Suc (awaits s)"
  "admin_awaits (deleteMessage w c m s) = admin_awaits s"
  "rejected (deleteMessage w c m s) = rejected s"
  by (simp_all add: deleteMessage_def)

lemma checkBalances_simps [simp]:
  "fst (checkBalances w a p c t s) = check_replies w (awaits s)"
  "trace (snd (checkBalances w a p c t s)) = trace s @ [Check a p c t]"
  "cache (snd (checkBalances w a p c t s)) = cache s"
  "stopCurrentBatch (snd (checkBalances w a p c t s)) = (stopCurrentBatch s \<or> stop_req w (awaits s))"
  "awaits (snd (checkBalances w a p c t s)) = Suc (awaits s)"
  "admin_awaits (snd (checkBalances w a p c t s)) = admin_awaits s"
  "rejected (snd (checkBalances w a p c t s)) = rejected s"
  by (simp_all add: checkBalances_def)

lemma cacheWordResult_simps [simp]:
  "trace (cacheWordResult l p hb bt ac s) = trace s @ [CacheWrite p hb bt ac]"
  "cache (cacheWordResult l p hb bt ac s)
     = upsert (normalizePhrase l p) \<lparr>hasBalance = hb, balanceTotal = bt, addressCount = ac\<rparr> (cache s)"
  "stopCurrentBatch (cacheWordResult l p hb bt ac s) = stopCurrentBatch s"
  "awaits (cacheWordResult l p hb bt ac s) = awaits s"
  "admin_awaits (cacheWordResult l p hb bt ac s) = admin_awaits s"
  "rejected (cacheWordResult l p hb bt ac s) = rejected s"
  by (simp_all add: cacheWordResult_def)

lemma map_of_upsert: "map_of (upsert k v al) = (map_of al)(k \<mapsto> v)"
  by (induction al) auto

lemma notifyAdmin_frame [simp]:
  "cache (notifyAdmin w l cfg word br md s) = cache s"
  "awaits (notifyAdmin w l cfg word br md s) = awaits s"
  "rejected (notifyAdmin w l cfg word br md s) = rejected s"
  by (simp_all add: notifyAdmin_def Let_def split: option.splits sum.splits)

lemma notifyAdminTestMode_frame [simp]:
  "cache (notifyAdminTestMode w l cfg word br c md s) = cache s"
  "awaits (notifyAdminTestMode w l cfg word br c md s) = awaits s"
  "rejected (notifyAdminTestMode w l cfg word br c md s) = rejected s"
  by (simp_all add: notifyAdminTestMode_def Let_def split: option.splits sum.splits)


lemma map_set_all_distinct_aux:
  "distinct (map fst (m @ kvs)) \<Longrightarrow> foldl (\<lambda>m kv. upsert (fst kv) (snd kv) m) m kvs = m @ kvs"
proof (induction kvs arbitrary: m)
  case Nil
  then show ?case by simp
next
  case (Cons kv kvs)
  have u: "upsert (fst kv) (snd kv) m = m @ [kv]" if "fst kv \<notin> fst ` set m" for m :: "('a \<times> 'b) list"
    using that by (induction m) auto
  from Cons.prems have "fst kv \<notin> fst ` set m" by auto
  with u have "upsert (fst kv) (snd kv) m = m @ [kv]" by blast
  with Cons show ?case by simp
qed

lemma map_set_all_distinct: "distinct (map fst kvs) \<Longrightarrow> map_set_all kvs = kvs"
  using map_set_all_distinct_aux [of "[]" kvs] by (simp add: map_set_all_def)

lemma word_check_balances_throw:
  assumes "returned (check_replies w (awaits s)) = Inl e"
  shows "fst (word_check_balances w l cfg chatId word msgId nvar addrs s) = ([], False)"
    and "cache (snd (word_check_balances w l cfg chatId word msgId nvar addrs s))
         = upsert (normalizePhrase l word) \<lparr>hasBalance = False, balanceTotal = 0, addressCount = length addrs\<rparr> (cache s)"
    and "trace (snd (word_check_balances w l cfg chatId word msgId nvar addrs s))
         = trace s @ Check addrs (explorer_api (chat_settings cfg)) 50 FlagToken
             # map snd (snd (progress_run chatId msgId (word_progress_text word nvar (length addrs)) 0
                               (progress (check_replies w (awaits s)))))
             @ [CacheWrite word False 0 (length addrs)]"
  using assms
  by (auto simp: word_check_balances_def checkBalances_def Let_def map_set_all_def anyPositive_def)

lemma word_check_balances_return:
  assumes "returned (check_replies w (awaits s)) = Inr rs" "distinct (map fst rs)"
  shows "fst (word_check_balances w l cfg chatId word msgId nvar addrs s) = (rs, anyPositive rs)"
    and "cache (snd (word_check_balances w l cfg chatId word msgId nvar addrs s))
         = upsert (normalizePhrase l word)
             \<lparr>hasBalance = anyPositive rs, balanceTotal = sum_list (map (\<lambda>r. balance (snd r)) rs),
               addressCount = length addrs\<rparr> (cache s)"
    and "trace (snd (word_check_balances w l cfg chatId word msgId nvar addrs s))
         = trace s @ Check addrs (explorer_api (chat_settings cfg)) 50 FlagToken
             # map snd (snd (progress_run chatId msgId (word_progress_text word nvar (length addrs)) 0
                               (progress (check_replies w (awaits s)))))
             @ [CacheWrite word (anyPositive rs) (sum_list (map (\<lambda>r. balance (snd r)) rs)) (length addrs)]"
  using assms
  by (auto simp: word_check_balances_def checkBalances_def Let_def map_set_all_distinct)


lemma notifyAdmin_trace [simp]:
  "trace (notifyAdmin w l cfg word br md s) = trace s @ notify_events l cfg word br md"
  by (simp add: notifyAdmin_def notify_events_def Let_def split: option.splits sum.splits)

lemma notifyAdminTestMode_trace [simp]:
  "trace (notifyAdminTestMode w l cfg word br c md s) = trace s @ test_events l cfg word br c md"
  by (simp add: notifyAdminTestMode_def test_events_def Let_def split: option.splits sum.splits)

lemma check_word_trace:
  "trace (snd (check_word w l cfg chatId sty msgId i word vs s)) =
     trace s
     @ (if truthy_id msgId
        then [Edit chatId (the msgId) (checking_line sty i (results vs) word (length (fullWordCheck l word)))]
        else [])
     @ [Check (fullWordCheck l word) (explorer_api (chat_settings cfg)) 50 FlagToken]
     @ map snd (snd (progress_run chatId msgId (progress_line sty i (results vs) word) (lastProgress vs)
                       (progress (check_replies w (query_index msgId s)))))
     @ (case returned (check_replies w (query_index msgId s)) of
          Inl e \<Rightarrow> []
        | Inr rs \<Rightarrow>
            (if anyPositive rs then notify_events l cfg word (map_set_all rs) (notify_mode sty) else [])
            @ test_events l cfg word (map_set_all rs) chatId (notify_mode sty))
     @ [CacheWrite word
          (case returned (check_replies w (query_index msgId s)) of Inl e \<Rightarrow> False | Inr rs \<Rightarrow> anyPositive rs)
          0 (length (fullWordCheck l word))]"
  by (simp add: check_word_def checkBalances_def query_index_def Let_def split: prod.splits sum.splits)

lemma check_word_cache:
  "cache (snd (check_word w l cfg chatId sty msgId i word vs s)) =
     upsert (normalizePhrase l word)
       \<lparr>hasBalance = (case returned (check_replies w (query_index msgId s)) of
                         Inl e \<Rightarrow> False | Inr rs \<Rightarrow> anyPositive rs),
         balanceTotal = 0, addressCount = length (fullWordCheck l word)\<rparr> (cache s)"
  by (simp add: check_word_def checkBalances_def query_index_def Let_def split: prod.splits sum.splits)

lemma check_word_vars:
  "fst (check_word w l cfg chatId sty msgId i word vs s) =
     \<lparr>results = results vs @ [\<lparr>r_word = word, r_hasBalance = False,
                                  r_addressCount = length (fullWordCheck l word)\<rparr>],
       lastProgress = fst (progress_run chatId msgId (progress_line sty i (results vs) word) (lastProgress vs)
                             (progress (check_replies w (query_index msgId s)))),
       foundAny = (foundAny vs \<or> (case returned (check_replies w (query_index msgId s)) of
                                      Inl e \<Rightarrow> False | Inr rs \<Rightarrow> anyPositive rs))\<rparr>"
  by (simp add: check_word_def checkBalances_def query_index_def Let_def split: prod.splits sum.splits)

lemma tokens_simps [simp]:
  "tokens [] = []" "tokens (e # es) = token_of e @ tokens es" "tokens (xs @ ys) = tokens xs @ tokens ys"
  by (simp_all add: tokens_def)

lemma written_phrases_simps [simp]:
  "written_phrases [] = []" "written_phrases (e # es) = written_phrase e @ written_phrases es"
  "written_phrases (xs @ ys) = written_phrases xs @ written_phrases ys"
  by (simp_all add: written_phrases_def)

lemma queried_sets_simps [simp]:
  "queried_sets [] = []" "queried_sets (e # es) = queried e @ queried_sets es"
  "queried_sets (xs @ ys) = queried_sets xs @ queried_sets ys"
  by (simp_all add: queried_sets_def)

lemma view_simps [simp]:
  "view c [] = []" "view c (e # es) = (if sent_to c e then e # view c es else view c es)"
  "view c (xs @ ys) = view c xs @ view c ys"
  by (simp_all add: view_def)

lemma queries_and_writes_simps [simp]:
  "queries_and_writes [] = []"
  "queries_and_writes (e # es) = (if is_query e \<or> is_cache_write e then e # queries_and_writes es else queries_and_writes es)"
  "queries_and_writes (xs @ ys) = queries_and_writes xs @ queries_and_writes ys"
  by (simp_all add: queries_and_writes_def)

lemma telegram_only:
  assumes "list_all is_telegram es"
  shows "tokens es = []" "written_phrases es = []" "queried_sets es = []" "queries_and_writes es = []"
    "filter is_cache_write es = []" "filter is_query es = []"
  using assms
proof (induction es)
  case Nil
  { case 1 show ?case by simp }
  { case 2 show ?case by simp }
  { case 3 show ?case by simp }
  { case 4 show ?case by simp }
  { case 5 show ?case by simp }
  { case 6 show ?case by simp }
next
  case (Cons e es)
  { case 1 with Cons show ?case by (cases e) auto }
  { case 2 with Cons show ?case by (cases e) auto }
  { case 3 with Cons show ?case by (cases e) auto }
  { case 4 with Cons show ?case by (cases e) auto }
  { case 5 with Cons show ?case by (cases e) auto }
  { case 6 with Cons show ?case by (cases e) auto }
qed

lemma notify_events_telegram [simp]: "list_all is_telegram (notify_events l cfg word br md)"
  by (simp add: notify_events_def split: option.splits sum.splits)

lemma test_events_telegram [simp]: "list_all is_telegram (test_events l cfg word br c md)"
  by (simp add: test_events_def split: option.splits sum.splits)

lemma progress_run_Cons:
  "snd (progress_run c m t p (x # xs))
     = snd (onProgress c m t p x) @ snd (progress_run c m t (fst (onProgress c m t p x)) xs)"
  "fst (progress_run c m t p (x # xs)) = fst (progress_run c m t (fst (onProgress c m t p x)) xs)"
  by (simp_all add: split_beta)

lemma progress_run_telegram [simp]: "list_all is_telegram (map snd (snd (progress_run c m t p calls)))"
proof (induction calls arbitrary: p)
  case Nil
  then show ?case by simp
next
  case (Cons x xs)
  have "list_all is_telegram (map snd (snd (onProgress c m t p x)))"
    by (simp add: onProgress_def split_beta)
  with Cons show ?case
    unfolding progress_run_Cons by simp
qed

lemma progress_run_view:
  "view c' (map snd (snd (progress_run c m t p calls)))
     = (if c' = c then map snd (snd (progress_run c m t p calls)) else [])"
proof (induction calls arbitrary: p)
  case Nil
  then show ?case by simp
next
  case (Cons x xs)
  have "view c' (map snd (snd (onProgress c m t p x)))
          = (if c' = c then map snd (snd (onProgress c m t p x)) else [])"
    by (simp add: onProgress_def split_beta)
  with Cons show ?case
    unfolding progress_run_Cons by simp
qed

lemma news_refl [simp]: "news s s = []"
  by (simp add: news_def)

lemma news_append: "trace s' = trace s @ es \<Longrightarrow> news s s' = es"
  by (simp add: news_def)

lemma derive_loop_frame:
  "cache (snd (derive_loop w l cfg chatId word m nvar vs acc s)) = cache s
   \<and> rejected (snd (derive_loop w l cfg chatId word m nvar vs acc s)) = rejected s
   \<and> admin_awaits (snd (derive_loop w l cfg chatId word m nvar vs acc s)) = admin_awaits s
   \<and> (\<exists>es. trace (snd (derive_loop w l cfg chatId word m nvar vs acc s)) = trace s @ es
         \<and> list_all is_telegram es \<and> view c es = (if c = chatId then es else []))"
proof (induction vs arbitrary: acc s)
  case Nil
  then show ?case by simp
next
  case (Cons v vs)
  show ?case
  proof (cases "stopCurrentBatch s")
    case True
    then show ?thesis by simp
  next
    case False
    let ?acc = "(derive_variant l (chat_settings cfg) word v (fst acc), Suc (snd acc))"
    let ?s = "(if Suc (snd acc) mod 10 = 0 \<and> truthy_id m
               then editMessageText w chatId (the m)
                      (deriving_text l word (Suc (snd acc)) nvar (length (fst (fst ?acc)))) s
               else s)"
    have step: "derive_loop w l cfg chatId word m nvar (v # vs) acc s
                = derive_loop w l cfg chatId word m nvar vs ?acc ?s"
      using False by (simp add: Let_def)
    from Cons.IH [of ?acc ?s] obtain es where
      es: "trace (snd (derive_loop w l cfg chatId word m nvar vs ?acc ?s)) = trace ?s @ es"
          "list_all is_telegram es" "view c es = (if c = chatId then es else [])"
      and fr: "cache (snd (derive_loop w l cfg chatId word m nvar vs ?acc ?s)) = cache ?s"
          "rejected (snd (derive_loop w l cfg chatId word m nvar vs ?acc ?s)) = rejected ?s"
          "admin_awaits (snd (derive_loop w l cfg chatId word m nvar vs ?acc ?s)) = admin_awaits ?s"
      by blast
    obtain e0 where e0: "trace ?s = trace s @ e0" "list_all is_telegram e0"
        "view c e0 = (if c = chatId then e0 else [])" "cache ?s = cache s" "rejected ?s = rejected s"
        "admin_awaits ?s = admin_awaits s"
      by (cases "Suc (snd acc) mod 10 = 0 \<and> truthy_id m") auto
    have "trace (snd (derive_loop w l cfg chatId word m nvar vs ?acc ?s)) = trace s @ (e0 @ es)"
      using es e0 by simp
    moreover have "list_all is_telegram (e0 @ es)" using es e0 by simp
    moreover have "view c (e0 @ es) = (if c = chatId then e0 @ es else [])" using es e0 by simp
    ultimately show ?thesis
      unfolding step using fr e0 by metis
  qed
qed



lemma word_check_derive_frame:
  "cache (snd (word_check_derive w l cfg chatId word s)) = cache s
   \<and> rejected (snd (word_check_derive w l cfg chatId word s)) = rejected s
   \<and> (\<exists>es. trace (snd (word_check_derive w l cfg chatId word s)) = trace s @ es
         \<and> list_all is_telegram es \<and> view c es = (if c = chatId then es else []))"
proof -
  let ?n = "length (word_variations l cfg word)"
  let ?s1 = "snd (sendMessage w chatId (checking_text cfg word ?n) s)"
  let ?m = "message_ids w (awaits s)"
  have eq: "snd (word_check_derive w l cfg chatId word s)
              = snd (derive_loop w l cfg chatId word ?m ?n (word_variations l cfg word) (([], []), 0) ?s1)"
    by (simp add: word_check_derive_def sendMessage_def split_beta)
  from derive_loop_frame [of w l cfg chatId word ?m ?n "word_variations l cfg word" "(([], []), 0)" ?s1 c]
  obtain es where es:
      "trace (snd (derive_loop w l cfg chatId word ?m ?n (word_variations l cfg word) (([], []), 0) ?s1))
         = trace ?s1 @ es" "list_all is_telegram es" "view c es = (if c = chatId then es else [])"
    and fr: "cache (snd (derive_loop w l cfg chatId word ?m ?n (word_variations l cfg word) (([], []), 0) ?s1))
               = cache ?s1"
            "rejected (snd (derive_loop w l cfg chatId word ?m ?n (word_variations l cfg word) (([], []), 0) ?s1))
               = rejected ?s1"
    by blast
  have "trace (snd (word_check_derive w l cfg chatId word s))
          = trace s @ (Send chatId (checking_text cfg word ?n) # es)"
    using es eq by simp
  moreover have "list_all is_telegram (Send chatId (checking_text cfg word ?n) # es)"
    using es by simp
  moreover have "view c (Send chatId (checking_text cfg word ?n) # es)
                   = (if c = chatId then Send chatId (checking_text cfg word ?n) # es else [])"
    using es(3) by (cases "c = chatId") simp_all
  ultimately show ?thesis
    using fr eq by (metis sendMessage_simps(3,7))
qed


lemma word_check_phase_skip:
  assumes "cache_skip l s word"
  shows "fst (word_check_phase w l cfg chatId word m nvar addrs s) = ([], False)"
    and "cache (snd (word_check_phase w l cfg chatId word m nvar addrs s)) = cache s"
    and "queries_and_writes (trace (snd (word_check_phase w l cfg chatId word m nvar addrs s)))
           = queries_and_writes (trace s)"
  using assms
  by (auto simp: word_check_phase_def Let_def cache_skip_def getCachedWordResult_def)

lemma word_check_phase_stopped:
  assumes "stopCurrentBatch s"
  shows "word_check_phase w l cfg chatId word m nvar addrs s = (([], False), s)"
  using assms by (simp add: word_check_phase_def)

lemma word_check_phase_checked:
  assumes "\<not> stopCurrentBatch s" "\<not> cache_skip l s word"
  shows "queries_and_writes (trace (snd (word_check_phase w l cfg chatId word m nvar addrs s)))
           = queries_and_writes (trace s)
             @ [Check addrs (explorer_api (chat_settings cfg)) 50 FlagToken,
                CacheWrite word
                  (case returned (check_replies w (query_index m s)) of Inl e \<Rightarrow> False | Inr rs \<Rightarrow> anyPositive rs)
                  (case returned (check_replies w (query_index m s)) of
                     Inl e \<Rightarrow> 0 | Inr rs \<Rightarrow> sum_list (map (\<lambda>r. balance (snd r)) (map_set_all rs)))
                  (length addrs)]"
  using assms
  by (auto simp: word_check_phase_def word_check_balances_def checkBalances_def Let_def cache_skip_def
      getCachedWordResult_def query_index_def telegram_only map_set_all_def anyPositive_def
      split: sum.splits)

lemma notifyAdmin_stop:
  "\<forall>n. \<not> admin_stop_req w n \<Longrightarrow>
     stopCurrentBatch (notifyAdmin w l cfg word br md s) = stopCurrentBatch s"
  by (simp add: notifyAdmin_def Let_def split: option.splits sum.splits)

lemma notifyAdminTestMode_stop:
  "\<forall>n. \<not> admin_stop_req w n \<Longrightarrow>
     stopCurrentBatch (notifyAdminTestMode w l cfg word br c md s) = stopCurrentBatch s"
  by (simp add: notifyAdminTestMode_def Let_def split: option.splits sum.splits)

lemma check_word_frame:
  "rejected (snd (check_word w l cfg chatId sty m i word vs s)) = rejected s"
  "awaits (snd (check_word w l cfg chatId sty m i word vs s)) = Suc (query_index m s)"
  by (simp_all add: check_word_def checkBalances_def query_index_def Let_def split_beta split: sum.splits)

lemma check_word_no_stop:
  "no_stop w s \<Longrightarrow> no_stop w (snd (check_word w l cfg chatId sty m i word vs s))"
  by (simp add: no_stop_def check_word_def checkBalances_def Let_def split_beta notifyAdmin_stop
      notifyAdminTestMode_stop split: sum.splits)

lemma check_word_news:
  "\<exists>es. trace (snd (check_word w l cfg chatId sty m i word vs s)) = trace s @ es
     \<and> written_phrases es = [word] \<and> queried_sets es = [fullWordCheck l word]
     \<and> tokens es = [FlagToken]"
  unfolding check_word_trace
  by (rule exI, rule conjI, rule refl) (simp add: telegram_only split: sum.splits)

lemma word_loop_events:
  "\<exists>es k. trace (snd (word_loop w l cfg chatId sty m ws i vs s)) = trace s @ es
     \<and> k \<le> length ws
     \<and> written_phrases es = take k ws
     \<and> queried_sets es = map (fullWordCheck l) (take k ws)
     \<and> tokens es = replicate k FlagToken
     \<and> map r_word (results (fst (word_loop w l cfg chatId sty m ws i vs s))) = map r_word (results vs) @ take k ws
     \<and> (no_stop w s \<longrightarrow> k = length ws)"
proof (induction ws arbitrary: i vs s)
  case Nil
  then show ?case by simp
next
  case (Cons x xs)
  show ?case
  proof (cases "stopCurrentBatch s")
    case True
    have "trace (snd (word_loop w l cfg chatId sty m (x # xs) i vs s)) = trace s @ []
      \<and> (0::nat) \<le> length (x # xs)
      \<and> written_phrases [] = take 0 (x # xs)
      \<and> queried_sets [] = map (fullWordCheck l) (take 0 (x # xs))
      \<and> tokens [] = replicate 0 FlagToken
      \<and> map r_word (results (fst (word_loop w l cfg chatId sty m (x # xs) i vs s)))
          = map r_word (results vs) @ take 0 (x # xs)
      \<and> (no_stop w s \<longrightarrow> 0 = length (x # xs))"
      using True by (simp add: no_stop_def)
    then show ?thesis by blast
  next
    case False
    let ?vs = "fst (check_word w l cfg chatId sty m i x vs s)"
    let ?s = "snd (check_word w l cfg chatId sty m i x vs s)"
    have step: "word_loop w l cfg chatId sty m (x # xs) i vs s
                  = word_loop w l cfg chatId sty m xs (Suc i) ?vs ?s"
      using False by (simp add: split_beta)
    from check_word_news [of w l cfg chatId sty m i x vs s] obtain e1 where
      e1: "trace ?s = trace s @ e1" "written_phrases e1 = [x]" "queried_sets e1 = [fullWordCheck l x]"
          "tokens e1 = [FlagToken]"
      by blast
    from Cons.IH [of "Suc i" ?vs ?s] obtain es k where
      es: "trace (snd (word_loop w l cfg chatId sty m xs (Suc i) ?vs ?s)) = trace ?s @ es"
          "k \<le> length xs" "written_phrases es = take k xs"
          "queried_sets es = map (fullWordCheck l) (take k xs)"
          "tokens es = replicate k FlagToken"
          "map r_word (results (fst (word_loop w l cfg chatId sty m xs (Suc i) ?vs ?s)))
             = map r_word (results ?vs) @ take k xs"
          "no_stop w ?s \<longrightarrow> k = length xs"
      by blast
    have r: "map r_word (results ?vs) = map r_word (results vs) @ [x]"
      by (simp add: check_word_vars)
    have "trace (snd (word_loop w l cfg chatId sty m (x # xs) i vs s)) = trace s @ (e1 @ es)
      \<and> Suc k \<le> length (x # xs)
      \<and> written_phrases (e1 @ es) = take (Suc k) (x # xs)
      \<and> queried_sets (e1 @ es) = map (fullWordCheck l) (take (Suc k) (x # xs))
      \<and> tokens (e1 @ es) = replicate (Suc k) FlagToken
      \<and> map r_word (results (fst (word_loop w l cfg chatId sty m (x # xs) i vs s)))
          = map r_word (results vs) @ take (Suc k) (x # xs)
      \<and> (no_stop w s \<longrightarrow> Suc k = length (x # xs))"
      unfolding step using e1 es r check_word_no_stop [of w s l cfg chatId sty m i x vs] by simp
    then show ?thesis by blast
  qed
qed

lemma word_check_report_trace:
  "trace (word_check_report w l cfg chatId word m naddr details found s)
     = trace s
       @ (if truthy_id m then [Delete chatId (the m)] else [])
       @ [Send chatId (buildResultsMessage l word (length (word_variations l cfg word)) naddr details
                         (fst found) (snd found) @ topic_text l cfg word)]
       @ (if snd found then notify_events l cfg word (fst found) ''word_check'' else [])
       @ test_events l cfg word (fst found) chatId ''word_check''"
  by (simp add: word_check_report_def Let_def)

lemma word_check_report_frame:
  "cache (word_check_report w l cfg chatId word m naddr details found s) = cache s"
  "rejected (word_check_report w l cfg chatId word m naddr details found s) = rejected s"
  by (simp_all add: word_check_report_def Let_def)

lemma handleWordCheck_unfold:
  "handleWordCheck w l cfg chatId word s0 =
     word_check_report w l cfg chatId word (fst (fst (word_check_derive w l cfg chatId word s0)))
       (length (fst (snd (fst (word_check_derive w l cfg chatId word s0)))))
       (snd (snd (fst (word_check_derive w l cfg chatId word s0))))
       (fst (word_check_phase w l cfg chatId word (fst (fst (word_check_derive w l cfg chatId word s0)))
               (length (word_variations l cfg word))
               (fst (snd (fst (word_check_derive w l cfg chatId word s0))))
               (snd (word_check_derive w l cfg chatId word s0))))
       (snd (word_check_phase w l cfg chatId word (fst (fst (word_check_derive w l cfg chatId word s0)))
               (length (word_variations l cfg word))
               (fst (snd (fst (word_check_derive w l cfg chatId word s0))))
               (snd (word_check_derive w l cfg chatId word s0))))"
  by (simp add: handleWordCheck_def split_beta)


lemma news_trans:
  "prefix (trace a) (trace b) \<Longrightarrow> prefix (trace b) (trace c) \<Longrightarrow> news a c = news a b @ news b c"
  by (auto simp: news_def prefix_def)


lemma word_check_derive_prefix:
  "prefix (trace s) (trace (snd (word_check_derive w l cfg chatId word s)))"
  using word_check_derive_frame [of w l cfg chatId word s chatId] by (auto simp: prefix_def)

lemma word_check_derive_news:
  "list_all is_telegram (news s (snd (word_check_derive w l cfg chatId word s)))"
  "view c (news s (snd (word_check_derive w l cfg chatId word s)))
     = (if c = chatId then news s (snd (word_check_derive w l cfg chatId word s)) else [])"
  using word_check_derive_frame [of w l cfg chatId word s c] by (auto simp: news_def)

lemma word_check_phase_trace:
  "trace (snd (word_check_phase w l cfg chatId word m nvar addrs s)) =
     trace s @
     (if stopCurrentBatch s then []
      else (if truthy_id m then [Edit chatId (the m) (derived_text word nvar (length addrs))] else [])
           @ (if cache_skip l s word then []
              else Check addrs (explorer_api (chat_settings cfg)) 50 FlagToken
                   # map snd (snd (progress_run chatId m (word_progress_text word nvar (length addrs)) 0
                                     (progress (check_replies w (query_index m s)))))
                   @ [CacheWrite word
                        (case returned (check_replies w (query_index m s)) of
                           Inl e \<Rightarrow> False | Inr rs \<Rightarrow> anyPositive rs)
                        (case returned (check_replies w (query_index m s)) of
                           Inl e \<Rightarrow> 0 | Inr rs \<Rightarrow> sum_list (map (\<lambda>r. balance (snd r)) (map_set_all rs)))
                        (length addrs)]))"
  by (auto simp: word_check_phase_def word_check_balances_def checkBalances_def Let_def cache_skip_def
      getCachedWordResult_def query_index_def map_set_all_def anyPositive_def split: sum.splits)

lemma word_check_phase_prefix:
  "prefix (trace s) (trace (snd (word_check_phase w l cfg chatId word m nvar addrs s)))"
  unfolding word_check_phase_trace by simp

lemma word_check_report_prefix:
  "prefix (trace s) (trace (word_check_report w l cfg chatId word m naddr details found s))"
  unfolding word_check_report_trace by simp

lemma handleWordCheck_news:
  "news s0 (handleWordCheck w l cfg chatId word s0) =
     news s0 (snd (word_check_derive w l cfg chatId word s0))
     @ news (snd (word_check_derive w l cfg chatId word s0))
         (snd (word_check_phase w l cfg chatId word (fst (fst (word_check_derive w l cfg chatId word s0)))
                 (length (word_variations l cfg word))
                 (fst (snd (fst (word_check_derive w l cfg chatId word s0))))
                 (snd (word_check_derive w l cfg chatId word s0))))
     @ news (snd (word_check_phase w l cfg chatId word (fst (fst (word_check_derive w l cfg chatId word s0)))
                 (length (word_variations l cfg word))
                 (fst (snd (fst (word_check_derive w l cfg chatId word s0))))
                 (snd (word_check_derive w l cfg chatId word s0))))
         (handleWordCheck w l cfg chatId word s0)"
proof -
  let ?s2 = "snd (word_check_derive w l cfg chatId word s0)"
  let ?s3 = "snd (word_check_phase w l cfg chatId word (fst (fst (word_check_derive w l cfg chatId word s0)))
                 (length (word_variations l cfg word))
                 (fst (snd (fst (word_check_derive w l cfg chatId word s0)))) ?s2)"
  have p1: "prefix (trace s0) (trace ?s2)" by (rule word_check_derive_prefix)
  have p2: "prefix (trace ?s2) (trace ?s3)" by (rule word_check_phase_prefix)
  have p3: "prefix (trace ?s3) (trace (handleWordCheck w l cfg chatId word s0))"
    unfolding handleWordCheck_unfold by (rule word_check_report_prefix)
  have p12: "prefix (trace s0) (trace ?s3)" using p1 p2 by (rule prefix_order.trans)
  show ?thesis
    using news_trans [OF p12 p3] news_trans [OF p1 p2] by simp
qed


lemma hasAnyBalance_simps [simp]:
  "fst (hasAnyBalance w a p s) = any_replies w (awaits s)"
  "trace (snd (hasAnyBalance w a p s)) = trace s @ [AnyBalance a p]"
  "cache (snd (hasAnyBalance w a p s)) = cache s"
  "rejected (snd (hasAnyBalance w a p s)) = rejected s"
  "awaits (snd (hasAnyBalance w a p s)) = Suc (awaits s)"
  by (simp_all add: hasAnyBalance_def)

lemma cached_true_upsert:
  "cached_true l (s\<lparr>cache := upsert (normalizePhrase l p) \<lparr>hasBalance = hb, balanceTotal = bt, addressCount = n\<rparr> (cache s)\<rparr>) x
     = (if normalizePhrase l x = normalizePhrase l p then hb else cached_true l s x)"
  by (simp add: cached_true_def getCachedWordResult_def map_of_upsert)

lemma cached_true_cong: "cache s = cache s' \<Longrightarrow> cached_true l s x = cached_true l s' x"
  by (simp add: cached_true_def getCachedWordResult_def)

lemma dict_repeat_cache:
  "cache (dict_repeat w l cfg word s n) = cache s
   \<or> (\<exists>k. cache (dict_repeat w l cfg word s n)
          = upsert (normalizePhrase l word) \<lparr>hasBalance = True, balanceTotal = 0, addressCount = k\<rparr> (cache s))"
  by (auto simp: dict_repeat_def hasAnyBalance_def split_beta split: sum.splits)

lemma dict_repeat_cached_true:
  "cached_true l s x \<Longrightarrow> cached_true l (dict_repeat w l cfg word s n) x"
  using dict_repeat_cache [of w l cfg word s n]
  by (auto simp: cached_true_def getCachedWordResult_def map_of_upsert)

lemma dict_repeats_cached_true:
  "cached_true l s x \<Longrightarrow> cached_true l (foldl (dict_repeat w l cfg word) s ns) x"
  by (induction ns arbitrary: s) (simp_all add: dict_repeat_cached_true)

lemma dict_word_cached_true:
  assumes "cached_true l s x"
  shows "cached_true l (dict_word w l cfg chatId m n word i s) x"
proof -
  let ?s1 = "foldl (dict_repeat w l cfg word) s (repeats (chat_settings cfg))"
  have t1: "cached_true l ?s1 x" using assms by (rule dict_repeats_cached_true)
  have t2: "cached_true l (if getCachedWordResult l s word = None then cacheWordResult l word False 0 0 ?s1
                           else ?s1) x"
  proof (cases "getCachedWordResult l s word = None")
    case True
    with assms have "normalizePhrase l x \<noteq> normalizePhrase l word"
      by (auto simp: cached_true_def getCachedWordResult_def)
    with t1 True show ?thesis
      by (simp add: cached_true_def getCachedWordResult_def map_of_upsert)
  next
    case False
    with t1 show ?thesis by auto
  qed
  have t3: "cached_true l (editMessageText w chatId a b s') x = cached_true l s' x" for a b s'
    by (rule cached_true_cong) simp
  show ?thesis
    using t1 t2 unfolding dict_word_def Let_def by (simp add: t3)
qed

lemma dict_loop_cached_true:
  "cached_true l s x \<Longrightarrow> cached_true l (dict_loop w l cfg chatId m n ws i s) x"
proof (induction ws arbitrary: i s)
  case Nil
  then show ?case by simp
next
  case (Cons y ys)
  then show ?case
    by (simp add: Let_def dict_word_cached_true)
qed





lemma sendWebHint_simps [simp]:
  "cache (sendWebHint cfg c ws s) = cache s"
  "stopCurrentBatch (sendWebHint cfg c ws s) = stopCurrentBatch s"
  "awaits (sendWebHint cfg c ws s) = awaits s"
  "rejected (sendWebHint cfg c ws s) = rejected s"
  "admin_awaits (sendWebHint cfg c ws s) = admin_awaits s"
  by (simp_all add: sendWebHint_def)



lemma word_loop_news:
  "\<exists>k \<le> length ws.
     written_phrases (news s (snd (word_loop w l cfg chatId sty m ws i vs s))) = take k ws
     \<and> queried_sets (news s (snd (word_loop w l cfg chatId sty m ws i vs s))) = map (fullWordCheck l) (take k ws)
     \<and> tokens (news s (snd (word_loop w l cfg chatId sty m ws i vs s))) = replicate k FlagToken
     \<and> (no_stop w s \<longrightarrow> k = length ws)"
  using word_loop_events [of w l cfg chatId sty m ws i vs s] by (auto simp: news_def)


lemma word_check_phase_tokens:
  "NeverToken \<notin> set (tokens (news s (snd (word_check_phase w l cfg chatId word m nvar addrs s))))"
  unfolding word_check_phase_trace news_def by (simp add: telegram_only)

lemma handleWordCheck_tokens:
  "NeverToken \<notin> set (tokens (news s (handleWordCheck w l cfg chatId word s)))"
proof -
  let ?d = "fst (word_check_derive w l cfg chatId word s)"
  let ?s2 = "snd (word_check_derive w l cfg chatId word s)"
  let ?s3 = "snd (word_check_phase w l cfg chatId word (fst ?d) (length (word_variations l cfg word))
               (fst (snd ?d)) ?s2)"
  have n3: "tokens (news ?s3 (handleWordCheck w l cfg chatId word s)) = []"
    unfolding handleWordCheck_unfold word_check_report_trace news_def
    by (simp add: telegram_only)
  have n1: "tokens (news s ?s2) = []"
    by (simp add: telegram_only word_check_derive_news)
  show ?thesis
    using n1 n3 word_check_phase_tokens [of ?s2 w l cfg chatId word "fst ?d" "length (word_variations l cfg word)" "fst (snd ?d)"]
    by (simp add: handleWordCheck_news)
qed

lemma handleBrainWallet_tokens:
  "NeverToken \<notin> set (tokens (news s (handleBrainWallet w l cfg chatId phrase s)))"
  by (simp add: handleBrainWallet_def news_def Let_def split_beta sendMessage_def checkBalances_def
      telegram_only split: sum.splits)

lemma word_loop_tokens:
  "NeverToken \<notin> set (tokens (news s (snd (word_loop w l cfg chatId sty m ws i vs s))))"
  using word_loop_news [of ws s w l cfg chatId sty m i vs] by auto

lemma lucky_word_trace:
  "\<exists>es. trace (snd (lucky_word w l cfg chatId source m lws i word vs s)) = trace s @ es
        \<and> NeverToken \<notin> set (tokens es)"
  by (simp add: lucky_word_def Let_def split_beta checkBalances_def telegram_only split: sum.splits)

lemma lucky_loop_trace:
  "\<exists>es. trace (snd (lucky_loop w l cfg chatId source m lws ws i vs s)) = trace s @ es
        \<and> NeverToken \<notin> set (tokens es)"
proof (induction ws arbitrary: i vs s)
  case Nil
  then show ?case by simp
next
  case (Cons x xs)
  obtain vs' s' where lw: "lucky_word w l cfg chatId source m lws i x vs s = (vs', s')"
    by (cases "lucky_word w l cfg chatId source m lws i x vs s")
  from lucky_word_trace [of w l cfg chatId source m lws i x vs s] lw
  obtain e1 where e1: "trace s' = trace s @ e1" "NeverToken \<notin> set (tokens e1)" by auto
  from Cons.IH [of "Suc i" vs' s']
  obtain e2 where e2: "trace (snd (lucky_loop w l cfg chatId source m lws xs (Suc i) vs' s')) = trace s' @ e2"
    "NeverToken \<notin> set (tokens e2)" by auto
  show ?case
    using lw e1 e2 by simp
qed

lemma lucky_loop_tokens:
  "NeverToken \<notin> set (tokens (news s (snd (lucky_loop w l cfg chatId source m lws ws i vs s))))"
  using lucky_loop_trace [of w l cfg chatId source m lws ws i vs s] by (auto simp: news_def)

lemma word_loop_stopped:
  "stopCurrentBatch s \<Longrightarrow> word_loop w l cfg chatId sty m ws i vs s = (vs, s)"
  by (cases ws) simp_all

lemma word_loop_stop_prefix:
  "stopCurrentBatch (snd (word_loop w l cfg chatId sty m pre i vs s))
   \<Longrightarrow> word_loop w l cfg chatId sty m (pre @ post) i vs s = word_loop w l cfg chatId sty m pre i vs s"
proof (induction pre arbitrary: i vs s)
  case Nil
  then show ?case by (simp add: word_loop_stopped)
next
  case (Cons x xs)
  then show ?case by (simp add: split_beta split: if_splits)
qed

lemma lucky_loop_stopped:
  "stopCurrentBatch s \<Longrightarrow> lucky_loop w l cfg chatId source m lws ws i vs s = (vs, s)"
  by (cases ws) simp_all

lemma lucky_loop_stop_prefix:
  "stopCurrentBatch (snd (lucky_loop w l cfg chatId source m lws pre i vs s))
   \<Longrightarrow> lucky_loop w l cfg chatId source m lws (pre @ post) i vs s
       = lucky_loop w l cfg chatId source m lws pre i vs s"
proof (induction pre arbitrary: i vs s)
  case Nil
  then show ?case by (simp add: lucky_loop_stopped)
next
  case (Cons x xs)
  then show ?case by (simp add: split_beta split: if_splits)
qed

lemma dict_loop_stopped:
  "stopCurrentBatch s \<Longrightarrow> dict_loop w l cfg chatId m n ws i s = s"
  by (cases ws) simp_all

lemma dict_loop_stop_prefix:
  "stopCurrentBatch (dict_loop w l cfg chatId m n pre i s)
   \<Longrightarrow> dict_loop w l cfg chatId m n (pre @ post) i s = dict_loop w l cfg chatId m n pre i s"
proof (induction pre arbitrary: i s)
  case Nil
  then show ?case by (simp add: dict_loop_stopped)
next
  case (Cons x xs)
  then show ?case by (simp add: Let_def split: if_splits)
qed

lemma run_dispatch_inv:
  "longRunning b = (running b \<noteq> None)
   \<Longrightarrow> longRunning (run_dispatch d b) = (running (run_dispatch d b) \<noteq> None)"
  by (cases d) (simp_all add: run_dispatch_def runLongOp_def)

lemma pollUpdate_inv:
  "longRunning b = (running b \<noteq> None)
   \<Longrightarrow> longRunning (pollUpdate kt u b) = (running (pollUpdate kt u b) \<noteq> None)"
  by (cases u) (simp_all add: pollUpdate_def run_dispatch_inv split: option.splits)

lemma poll_step_inv:
  "longRunning b = (running b \<noteq> None)
   \<Longrightarrow> longRunning (poll_step kt b e) = (running (poll_step kt b e) \<noteq> None)"
  by (cases e) (simp_all add: poll_step_def pollUpdate_inv settled_def)

lemma run_bot_inv:
  "longRunning (run_bot kt es) = (running (run_bot kt es) \<noteq> None)"
proof (induction es rule: rev_induct)
  case Nil
  then show ?case by (simp add: run_bot_def initial_bot_def)
next
  case (snoc e es)
  then show ?case using poll_step_inv [of "run_bot kt es" kt e] by (simp add: run_bot_def)
qed

lemma pollUpdate_rejects:
  assumes "longRunning b" "\<not> is_stop u"
  shows "started (pollUpdate kt u b) = started b" "running (pollUpdate kt u b) = running b"
    "longRunning (pollUpdate kt u b)" "stop_flag (pollUpdate kt u b) = stop_flag b"
  using assms
  by (cases u; simp add: pollUpdate_def is_stop_def split: option.splits)+

lemma pollUpdate_busy:
  assumes "longRunning b"
  shows "started (pollUpdate kt u b) = started b" "running (pollUpdate kt u b) = running b"
    "longRunning (pollUpdate kt u b)"
  using assms
  by (cases u; simp add: pollUpdate_def split: option.splits)+

lemma updates_busy:
  "longRunning b \<Longrightarrow>
     started (foldl (poll_step kt) b (map Incoming us)) = started b
     \<and> running (foldl (poll_step kt) b (map Incoming us)) = running b
     \<and> longRunning (foldl (poll_step kt) b (map Incoming us))"
proof (induction us rule: rev_induct)
  case Nil
  then show ?case by simp
next
  case (snoc u us)
  then show ?case by (simp add: poll_step_def pollUpdate_busy)
qed

lemma pollUpdate_stop:
  "is_stop u \<Longrightarrow> stop_flag (pollUpdate kt u b)"
  by (cases u) (auto simp: pollUpdate_def is_stop_def trim_def lower_case_def)


lemma notify_events_hidden:
  "TELEGRAM_CHAT_ID cfg \<noteq> Some c \<Longrightarrow> view c (notify_events l cfg word br md) = []"
  by (simp add: notify_events_def split: option.splits sum.splits)














lemma low_equal_refl: "low_equal c s s"
  by (simp add: low_equal_def)

lemma await_user_same: "same_but_balances w w' \<Longrightarrow> await_user w s = await_user w' s"
  by (simp add: same_but_balances_def await_user_def)

lemma sendMessage_same: "same_but_balances w w' \<Longrightarrow> sendMessage w c t s = sendMessage w' c t s"
  by (simp add: sendMessage_def await_user_same) (simp add: same_but_balances_def)

lemma editMessageText_same:
  "same_but_balances w w' \<Longrightarrow> editMessageText w c m t s = editMessageText w' c m t s"
  by (simp add: editMessageText_def await_user_same)

lemma deleteMessage_same: "same_but_balances w w' \<Longrightarrow> deleteMessage w c m s = deleteMessage w' c m s"
  by (simp add: deleteMessage_def await_user_same)

lemma getTopicWords_same: "same_but_balances w w' \<Longrightarrow> getTopicWords w s = getTopicWords w' s"
  by (simp add: getTopicWords_def await_user_same) (simp add: same_but_balances_def)

lemma derive_loop_same:
  "same_but_balances w w' \<Longrightarrow>
     derive_loop w l cfg c word m nvar vs acc s = derive_loop w' l cfg c word m nvar vs acc s"
proof (induction vs arbitrary: acc s)
  case Nil
  then show ?case by simp
next
  case (Cons v vs)
  then show ?case by (simp add: Let_def editMessageText_same)
qed

lemma word_check_derive_same:
  "same_but_balances w w' \<Longrightarrow> word_check_derive w l cfg c word s = word_check_derive w' l cfg c word s"
  by (simp add: word_check_derive_def sendMessage_same derive_loop_same)

lemma test_events_hidden:
  "TELEGRAM_CHAT_ID cfg \<noteq> Some c \<Longrightarrow> view c (test_events l cfg word br u md) = []"
  by (simp add: test_events_def split: option.splits sum.splits)

lemma map_fst_upsert:
  "map fst (upsert k v c) = (if k \<in> set (map fst c) then map fst c else map fst c @ [k])"
  by (induction c) auto

lemma check_word_stop:
  "\<forall>n. \<not> admin_stop_req w n \<Longrightarrow>
     stopCurrentBatch (snd (check_word w l cfg c sty m i x vs s))
       = (stopCurrentBatch s \<or> (truthy_id m \<and> stop_req w (awaits s)) \<or> stop_req w (query_index m s))"
  by (auto simp: check_word_def checkBalances_def query_index_def Let_def split_beta notifyAdmin_stop
      notifyAdminTestMode_stop split: sum.splits)

lemma check_word_view:
  assumes "TELEGRAM_CHAT_ID cfg \<noteq> Some c"
  shows "view c (trace (snd (check_word w l cfg c sty m i x vs s)))
     = view c (trace s)
       @ (if truthy_id m
          then [Edit c (the m) (checking_line sty i (results vs) x (length (fullWordCheck l x)))] else [])
       @ map snd (snd (progress_run c m (progress_line sty i (results vs) x) (lastProgress vs)
                         (progress (check_replies w (query_index m s)))))"
  unfolding check_word_trace using assms
  by (simp add: progress_run_view notify_events_hidden test_events_hidden split: sum.splits)

lemma check_word_low:
  assumes sb: "same_but_balances w w'" and adm: "TELEGRAM_CHAT_ID cfg \<noteq> Some c"
    and nas: "no_admin_stop w" "no_admin_stop w'"
    and le: "low_equal c s s'" and vv: "results vs = results vs'" "lastProgress vs = lastProgress vs'"
  shows "low_equal c (snd (check_word w l cfg c sty m i x vs s)) (snd (check_word w' l cfg c sty m i x vs' s'))"
    and "results (fst (check_word w l cfg c sty m i x vs s)) = results (fst (check_word w' l cfg c sty m i x vs' s'))"
    and "lastProgress (fst (check_word w l cfg c sty m i x vs s))
           = lastProgress (fst (check_word w' l cfg c sty m i x vs' s'))"
proof -
  have q: "query_index m s = query_index m s'" using le by (simp add: low_equal_def query_index_def)
  have p: "progress (check_replies w (query_index m s)) = progress (check_replies w' (query_index m s'))"
    using sb q by (simp add: same_but_balances_def)
  have na: "\<forall>n. \<not> admin_stop_req w n" "\<forall>n. \<not> admin_stop_req w' n" "stop_req w = stop_req w'"
    using sb nas by (simp_all add: same_but_balances_def no_admin_stop_def)
  have st: "stopCurrentBatch (snd (check_word w l cfg c sty m i x vs s))
          = stopCurrentBatch (snd (check_word w' l cfg c sty m i x vs' s'))"
    using le q na(3) by (simp add: check_word_stop [OF na(1)] check_word_stop [OF na(2)] low_equal_def)
  have vw: "view c (trace (snd (check_word w l cfg c sty m i x vs s)))
          = view c (trace (snd (check_word w' l cfg c sty m i x vs' s')))"
    using le p vv by (simp add: check_word_view [OF adm] low_equal_def)
  have ca: "map fst (cache (snd (check_word w l cfg c sty m i x vs s)))
          = map fst (cache (snd (check_word w' l cfg c sty m i x vs' s')))"
    using le by (simp add: check_word_cache map_fst_upsert low_equal_def)
  show "low_equal c (snd (check_word w l cfg c sty m i x vs s)) (snd (check_word w' l cfg c sty m i x vs' s'))"
    using st vw ca le q by (simp add: low_equal_def check_word_frame)
  show "results (fst (check_word w l cfg c sty m i x vs s)) = results (fst (check_word w' l cfg c sty m i x vs' s'))"
    using vv by (simp add: check_word_vars)
  show "lastProgress (fst (check_word w l cfg c sty m i x vs s))
           = lastProgress (fst (check_word w' l cfg c sty m i x vs' s'))"
    using vv p by (simp add: check_word_vars)
qed

lemma word_loop_low:
  assumes sb: "same_but_balances w w'" and adm: "TELEGRAM_CHAT_ID cfg \<noteq> Some c"
    and nas: "no_admin_stop w" "no_admin_stop w'"
  shows "low_equal c s s' \<Longrightarrow> results vs = results vs' \<Longrightarrow> lastProgress vs = lastProgress vs' \<Longrightarrow>
     low_equal c (snd (word_loop w l cfg c sty m ws i vs s)) (snd (word_loop w' l cfg c sty m ws i vs' s'))
     \<and> results (fst (word_loop w l cfg c sty m ws i vs s)) = results (fst (word_loop w' l cfg c sty m ws i vs' s'))"
proof (induction ws arbitrary: i vs vs' s s')
  case Nil
  then show ?case by simp
next
  case (Cons x xs)
  have st: "stopCurrentBatch s = stopCurrentBatch s'" using Cons.prems(1) by (simp add: low_equal_def)
  show ?case
  proof (cases "stopCurrentBatch s")
    case True
    then show ?thesis using st Cons.prems by simp
  next
    case False
    note cw = check_word_low [OF sb adm nas Cons.prems(1) Cons.prems(2) Cons.prems(3), of l sty m i x]
    from Cons.IH [OF cw(1) cw(2) cw(3), of "Suc i"]
    show ?thesis using False st by (simp add: split_beta)
  qed
qed


lemma loop_tail_low:
  assumes "low_equal c a b"
  shows "view c (trace (snd (sendMessage w1 c t (if truthy_id m then deleteMessage w2 c (the m) a else a))))
       = view c (trace (snd (sendMessage w3 c t (if truthy_id m then deleteMessage w4 c (the m) b else b))))"
  using assms by (simp add: low_equal_def)

lemma low_equal_size: "low_equal c a b \<Longrightarrow> getWordCacheSize a = getWordCacheSize b"
proof -
  assume "low_equal c a b"
  then have "length (map fst (cache a)) = length (map fst (cache b))" by (simp add: low_equal_def)
  then show ?thesis by (simp add: getWordCacheSize_def)
qed

lemma batch_check_low:
  assumes sb: "same_but_balances w w'" and adm: "TELEGRAM_CHAT_ID cfg \<noteq> Some c"
    and nas: "no_admin_stop w" "no_admin_stop w'"
  shows "view c (trace (batch_check w l cfg c ws s)) = view c (trace (batch_check w' l cfg c ws s))"
proof -
  let ?t = "''[ud83d][udce6] <b>Batch checking '' @ digits (length ws) @ '' words</b>'' @ NL @ NL
              @ progressBar l 0 (length ws)"
  let ?m = "message_ids w' (awaits s)"
  let ?S = "sendWebHint cfg c ws (snd (sendMessage w' c ?t s))"
  let ?v0 = "\<lparr>results = [], lastProgress = 0, foundAny = False\<rparr>"
  let ?lp = "word_loop w l cfg c (batch_style l (length ws)) ?m ws 0 ?v0 ?S"
  let ?lp' = "word_loop w' l cfg c (batch_style l (length ws)) ?m ws 0 ?v0 ?S"
  have un: "batch_check w l cfg c ws s
              = snd (sendMessage w c (batch_summary l (results (fst ?lp)) (getWordCacheSize (snd ?lp)))
                       (if truthy_id ?m then deleteMessage w c (the ?m) (snd ?lp) else snd ?lp))"
    by (simp add: batch_check_def split_beta sendMessage_same [OF sb])
  have un': "batch_check w' l cfg c ws s
              = snd (sendMessage w' c (batch_summary l (results (fst ?lp')) (getWordCacheSize (snd ?lp')))
                       (if truthy_id ?m then deleteMessage w' c (the ?m) (snd ?lp') else snd ?lp'))"
    by (simp add: batch_check_def split_beta)
  from word_loop_low [where s = ?S and s' = ?S and vs = ?v0 and vs' = ?v0 and l = l
      and sty = "batch_style l (length ws)" and m = ?m and ws = ws and i = 0,
      OF sb adm nas low_equal_refl refl refl]
  have le: "low_equal c (snd ?lp) (snd ?lp')" and rs: "results (fst ?lp) = results (fst ?lp')"
    by simp_all
  show ?thesis
    unfolding un un' rs low_equal_size [OF le] by (rule loop_tail_low [OF le])
qed

lemma ai_topic_check_low:
  assumes sb: "same_but_balances w w'" and adm: "TELEGRAM_CHAT_ID cfg \<noteq> Some c"
    and nas: "no_admin_stop w" "no_admin_stop w'"
  shows "view c (trace (ai_topic_check w l cfg c ti r ws s)) = view c (trace (ai_topic_check w' l cfg c ti r ws s))"
proof -
  let ?t = "''[ud83e][udd16] <b>AI: '' @ digits (length ws) @ '' new '' @ label ti
              @ '' words</b>'' @ NL
              @ ''<i>'' @ provider r @ provider_note r @ ''</i>'' @ NL @ NL
              @ progressBar l 0 (length ws)"
  let ?m = "message_ids w' (awaits s)"
  let ?S = "sendWebHint cfg c ws (snd (sendMessage w' c ?t s))"
  let ?v0 = "\<lparr>results = [], lastProgress = 0, foundAny = False\<rparr>"
  let ?lp = "word_loop w l cfg c (ai_topic_style l (label ti) (length ws)) ?m ws 0 ?v0 ?S"
  let ?lp' = "word_loop w' l cfg c (ai_topic_style l (label ti) (length ws)) ?m ws 0 ?v0 ?S"
  have sm: "ai_topic_summary l (label ti) (fst ?lp) n = ai_topic_summary l (label ti) (fst ?lp') n'"
    if "results (fst ?lp) = results (fst ?lp')" "n = n'" for n n'
    using that by (simp add: ai_topic_summary_def)
  have un: "ai_topic_check w l cfg c ti r ws s
              = snd (sendMessage w c (ai_topic_summary l (label ti) (fst ?lp) (getWordCacheSize (snd ?lp)))
                       (if truthy_id ?m then deleteMessage w c (the ?m) (snd ?lp) else snd ?lp))"
    by (simp add: ai_topic_check_def split_beta sendMessage_same [OF sb])
  have un': "ai_topic_check w' l cfg c ti r ws s
              = snd (sendMessage w' c (ai_topic_summary l (label ti) (fst ?lp') (getWordCacheSize (snd ?lp')))
                       (if truthy_id ?m then deleteMessage w' c (the ?m) (snd ?lp') else snd ?lp'))"
    by (simp add: ai_topic_check_def split_beta)
  from word_loop_low [where s = ?S and s' = ?S and vs = ?v0 and vs' = ?v0 and l = l
      and sty = "ai_topic_style l (label ti) (length ws)" and m = ?m and ws = ws and i = 0,
      OF sb adm nas low_equal_refl refl refl]
  have le: "low_equal c (snd ?lp) (snd ?lp')" and rs: "results (fst ?lp) = results (fst ?lp')"
    by simp_all
  show ?thesis
    unfolding un un' sm [OF rs low_equal_size [OF le]] by (rule loop_tail_low [OF le])
qed

lemma ai_topic_answer_low:
  assumes sb: "same_but_balances w w'" and adm: "TELEGRAM_CHAT_ID cfg \<noteq> Some c"
    and nas: "no_admin_stop w" "no_admin_stop w'"
  shows "view c (trace (ai_topic_answer w l cfg c ti r s)) = view c (trace (ai_topic_answer w' l cfg c ti r s))"
  by (simp add: ai_topic_answer_def showAIError_def ai_topic_check_low [OF sb adm nas])

lemma handleAITopicExpand_low:
  assumes sb: "same_but_balances w w'" and adm: "TELEGRAM_CHAT_ID cfg \<noteq> Some c"
    and nas: "no_admin_stop w" "no_admin_stop w'"
  shows "view c (trace (handleAITopicExpand w l cfg c k s)) = view c (trace (handleAITopicExpand w' l cfg c k s))"
  by (simp add: handleAITopicExpand_def split_beta sendMessage_same [OF sb] getTopicWords_same [OF sb]
      deleteMessage_same [OF sb] ai_topic_answer_low [OF sb adm nas] split: option.splits)

lemma batch_words_low:
  assumes sb: "same_but_balances w w'" and adm: "TELEGRAM_CHAT_ID cfg \<noteq> Some c"
    and nas: "no_admin_stop w" "no_admin_stop w'"
  shows "view c (trace (batch_words w l cfg c ws s)) = view c (trace (batch_words w' l cfg c ws s))"
  by (simp add: batch_words_def handleAITopicExpand_low [OF sb adm nas] batch_check_low [OF sb adm nas])

lemma handleBatch_low:
  assumes sb: "same_but_balances w w'" and adm: "TELEGRAM_CHAT_ID cfg \<noteq> Some c"
    and nas: "no_admin_stop w" "no_admin_stop w'"
  shows "view c (trace (handleBatch w l cfg c args s)) = view c (trace (handleBatch w' l cfg c args s))"
  by (simp add: handleBatch_def sendMessage_same [OF sb] batch_words_low [OF sb adm nas])

lemma brain_lines: "map brain_balance_line rs
   = map (\<lambda>a. ''  [u26aa] '' @ take 8 a @ ''...'' @ slice_from_end 6 a @ '': 0 BTC'' @ NL) (map fst rs)"
  by (simp add: brain_balance_line_def)

lemma handleBrainWallet_low:
  assumes sb: "same_but_balances w w'" and adm: "TELEGRAM_CHAT_ID cfg \<noteq> Some c"
  shows "view c (trace (handleBrainWallet w l cfg c phrase s)) = view c (trace (handleBrainWallet w' l cfg c phrase s))"
proof -
  have m: "message_ids w = message_ids w'" using sb by (simp add: same_but_balances_def)
  have sa: "same_addresses (returned (check_replies w (Suc (awaits s)))) (returned (check_replies w' (Suc (awaits s))))"
    using sb by (simp add: same_but_balances_def)
  show ?thesis
  proof (cases "returned (check_replies w (Suc (awaits s)))")
    case (Inl e)
    then obtain e' where e': "returned (check_replies w' (Suc (awaits s))) = Inl e'" "e = e'"
      using sa by (cases "returned (check_replies w' (Suc (awaits s)))") simp_all
    show ?thesis
      using Inl e' m adm
      by (simp add: handleBrainWallet_def Let_def split_beta sendMessage_def checkBalances_def
          anyPositive_def split: sum.splits)
  next
    case (Inr rs)
    then obtain rs' where r': "returned (check_replies w' (Suc (awaits s))) = Inr rs'" "map fst rs = map fst rs'"
      using sa by (cases "returned (check_replies w' (Suc (awaits s)))") simp_all
    have bl: "map brain_balance_line rs = map brain_balance_line rs'"
      unfolding brain_lines r'(2) by simp
    show ?thesis
      using Inr r'(1) m adm bl
      by (simp add: handleBrainWallet_def Let_def split_beta sendMessage_def checkBalances_def
          notify_events_hidden split: sum.splits)
  qed
qed

lemma buildResultsMessage_ignores:
  "buildResultsMessage l word v n ds br fb = buildResultsMessage l word v n ds [] False"
  by (simp add: buildResultsMessage_def)

lemma handleWordCheck_view:
  assumes adm: "TELEGRAM_CHAT_ID cfg \<noteq> Some c"
  shows "view c (trace (handleWordCheck w l cfg c word s))
     = view c (trace (snd (word_check_derive w l cfg c word s)))
       @ (if stopCurrentBatch (snd (word_check_derive w l cfg c word s)) then []
          else (if truthy_id (fst (fst (word_check_derive w l cfg c word s)))
                then [Edit c (the (fst (fst (word_check_derive w l cfg c word s))))
                        (derived_text word (length (word_variations l cfg word))
                           (length (fst (snd (fst (word_check_derive w l cfg c word s))))))]
                else [])
               @ (if cache_skip l (snd (word_check_derive w l cfg c word s)) word then []
                  else map snd (snd (progress_run c (fst (fst (word_check_derive w l cfg c word s)))
                         (word_progress_text word (length (word_variations l cfg word))
                            (length (fst (snd (fst (word_check_derive w l cfg c word s)))))) 0
                         (progress (check_replies w
                            (query_index (fst (fst (word_check_derive w l cfg c word s)))
                               (snd (word_check_derive w l cfg c word s)))))))))
       @ (if truthy_id (fst (fst (word_check_derive w l cfg c word s)))
          then [Delete c (the (fst (fst (word_check_derive w l cfg c word s))))] else [])
       @ [Send c (buildResultsMessage l word (length (word_variations l cfg word))
                    (length (fst (snd (fst (word_check_derive w l cfg c word s)))))
                    (snd (snd (fst (word_check_derive w l cfg c word s)))) [] False
                  @ topic_text l cfg word)]"
  unfolding handleWordCheck_unfold word_check_report_trace word_check_phase_trace
  using adm
  by (simp add: progress_run_view notify_events_hidden test_events_hidden buildResultsMessage_def)

lemma handleWordCheck_low:
  assumes sb: "same_but_balances w w'" and adm: "TELEGRAM_CHAT_ID cfg \<noteq> Some c"
  shows "view c (trace (handleWordCheck w l cfg c word s)) = view c (trace (handleWordCheck w' l cfg c word s))"
proof -
  have p: "progress (check_replies w n) = progress (check_replies w' n)" for n
    using sb by (simp add: same_but_balances_def)
  show ?thesis
    unfolding handleWordCheck_view [OF adm] word_check_derive_same [OF sb] p by (rule refl)
qed



lemma getCached_upsert_other:
  "normalizePhrase l y \<noteq> normalizePhrase l x \<Longrightarrow>
     getCachedWordResult l (cacheWordResult l x hb bt n s) y = getCachedWordResult l s y"
  by (simp add: getCachedWordResult_def map_of_upsert)



section \<open>Throttling of progress edits\<close>

lemma progress_run_append:
  "progress_run c m t prev (xs @ ys) =
     (case progress_run c m t prev xs of (l1, e1) \<Rightarrow>
        (case progress_run c m t l1 ys of (l2, e2) \<Rightarrow> (l2, e1 @ e2)))"
  by (induction xs arbitrary: prev) (auto split: prod.splits)

lemma progress_run_bounds:
  "progress_run c m t prev calls = (prev', es) \<Longrightarrow>
     prev \<le> prev' \<and> (\<forall>e \<in> set es. prev + 2000 \<le> fst e \<and> fst e \<le> prev')"
proof (induction calls arbitrary: prev prev' es)
  case Nil
  then show ?case by simp
next
  case (Cons call calls)
  obtain l1 e1 where a: "onProgress c m t prev call = (l1, e1)"
    by (cases "onProgress c m t prev call")
  obtain l2 e2 where b: "progress_run c m t l1 calls = (l2, e2)"
    by (cases "progress_run c m t l1 calls")
  from Cons.prems a b have r: "prev' = l2" "es = e1 @ e2" by auto
  from a have s: "prev \<le> l1" "\<forall>e \<in> set e1. prev + 2000 \<le> fst e \<and> fst e \<le> l1"
    by (auto simp: onProgress_def split: prod.splits if_splits)
  from Cons.IH [OF b] have i: "l1 \<le> l2" "\<forall>e \<in> set e2. l1 + 2000 \<le> fst e \<and> fst e \<le> l2"
    by auto
  from r s i show ?case by fastforce
qed

lemma progress_run_sorted:
  "sorted_wrt (\<lambda>a b. 2000 \<le> fst b - fst a) (snd (progress_run c m t prev calls))"
proof (induction calls arbitrary: prev)
  case Nil
  then show ?case by simp
next
  case (Cons call calls)
  obtain l1 e1 where a: "onProgress c m t prev call = (l1, e1)"
    by (cases "onProgress c m t prev call")
  obtain l2 e2 where b: "progress_run c m t l1 calls = (l2, e2)"
    by (cases "progress_run c m t l1 calls")
  have e1: "e1 = [] \<or> (\<exists>ev. e1 = [(l1, ev)])"
    using a by (auto simp: onProgress_def split: prod.splits if_splits)
  have later: "\<forall>e \<in> set e2. l1 + 2000 \<le> fst e"
    using progress_run_bounds [OF b] by auto
  have srt: "sorted_wrt (\<lambda>a b. 2000 \<le> fst b - fst a) e2"
    using Cons.IH [of l1] b by simp
  from e1 later srt show ?case
    using a b by (auto simp: sorted_wrt_append)
qed

text \<open>
  C10. The edits performed by an onProgress callback are at least 2000 ms apart by
  Date.now(): in the edits of one call of checkBalances every later edit is at least 2000 ms
  after every earlier one, every edit is at least 2000 ms after the value the captured
  variable had before the call (the time of the previous edit, when there was one), the
  variable carried to the next call (handleBatch and the topic handlers keep it across words)
  continues the same sequence, and an invocation less than 2000 ms after the previous edit
  performs no edit and leaves the variable as it is.
\<close>

theorem progress_edits_throttled:
  "sorted_wrt (\<lambda>a b. 2000 \<le> fst b - fst a) (snd (progress_run c m t prev calls))
   \<and> (\<forall>e \<in> set (snd (progress_run c m t prev calls)). 2000 \<le> fst e - prev)
   \<and> progress_run c m t (fst (progress_run c m t prev calls)) calls'
       = (fst (progress_run c m t prev (calls @ calls')),
          drop (length (snd (progress_run c m t prev calls))) (snd (progress_run c m t prev (calls @ calls'))))
   \<and> (now - prev < 2000 \<longrightarrow> onProgress c m t prev (checked, ntotal, now) = (prev, []))"
proof -
  obtain l es where r: "progress_run c m t prev calls = (l, es)"
    by (cases "progress_run c m t prev calls")
  have "\<forall>e \<in> set es. 2000 \<le> fst e - prev"
    using progress_run_bounds [OF r] by auto
  moreover have "progress_run c m t l calls'
       = (fst (progress_run c m t prev (calls @ calls')),
          drop (length es) (snd (progress_run c m t prev (calls @ calls'))))"
    by (simp add: progress_run_append r split: prod.splits)
  moreover have "now - prev < 2000 \<longrightarrow> onProgress c m t prev (checked, ntotal, now) = (prev, [])"
    by (simp add: onProgress_def)
  ultimately show ?thesis
    using progress_run_sorted [of c m t prev calls] r by simp
qed

theorem progress_edits_throttled_witness:
  "snd (progress_run ''7'' (Some 3) (\<lambda>c t. digits c) 0 [(1, 9, 5000), (2, 9, 6000), (3, 9, 7100)])
     = [(5000, Edit ''7'' 3 ''1''), (7100, Edit ''7'' 3 ''3'')]
   \<and> sorted_wrt (\<lambda>a b. 2000 \<le> fst b - fst a)
       (snd (progress_run ''7'' (Some 3) (\<lambda>c t. digits c) 0 [(1, 9, 5000), (2, 9, 6000), (3, 9, 7100)]))
   \<and> onProgress ''7'' (Some 3) (\<lambda>c t. digits c) 5000 (2, 9, 6000) = (5000, [])"
proof -
  have a: "snd (progress_run ''7'' (Some 3) (\<lambda>c t. digits c) 0 [(1, 9, 5000), (2, 9, 6000), (3, 9, 7100)])
     = [(5000, Edit ''7'' 3 ''1''), (7100, Edit ''7'' 3 ''3'')]"
    by (simp add: onProgress_def truthy_id_def digits.simps)
  have b: "(6000::int) - 5000 < 2000" by simp
  note t1 = progress_edits_throttled
    [of "''7''" "Some 3" "\<lambda>c t. digits c" 0 "[(1, 9, 5000), (2, 9, 6000), (3, 9, 7100)]" "[]" 6000 2 9]
  note t2 = progress_edits_throttled
    [of "''7''" "Some 3" "\<lambda>c t. digits c" 5000 "[]" "[]" 6000 2 9]
  from t1 t2 show ?thesis using a b
    by simp
qed

section \<open>What is written to the cache\<close>

text \<open>
  C5. The cache entry of a phrase is written after its balance query has ended, whether the
  query returned or threw: cacheWordResult stands after the try block. When the query of
  handleWordCheck throws, the entry written has hasBalance false, balanceTotal 0 and the
  number of derived addresses, and the call of cacheWordResult is the last event of the
  balance phase; the same holds for a word of the loop of handleBatch and of the topic
  handlers. No entry is written when the stop flag is set before the balance phase or when
  the cache policy skips the phrase, and the loop over the words does nothing once the flag
  is set.
\<close>

theorem failed_query_is_cached:
  "(returned (check_replies w (awaits s)) = Inl e \<longrightarrow>
      getCachedWordResult l (snd (word_check_balances w l cfg chatId word msgId nvar addrs s)) word
        = Some \<lparr>hasBalance = False, balanceTotal = 0, addressCount = length addrs\<rparr>
      \<and> last (trace (snd (word_check_balances w l cfg chatId word msgId nvar addrs s)))
        = CacheWrite word False 0 (length addrs))
   \<and> (returned (check_replies w (query_index msgId s)) = Inl e \<longrightarrow>
      getCachedWordResult l (snd (check_word w l cfg chatId sty msgId i word vs s)) word
        = Some \<lparr>hasBalance = False, balanceTotal = 0, addressCount = length (fullWordCheck l word)\<rparr>
      \<and> last (trace (snd (check_word w l cfg chatId sty msgId i word vs s)))
        = CacheWrite word False 0 (length (fullWordCheck l word)))
   \<and> (stopCurrentBatch s \<or> cache_skip l s word \<longrightarrow>
      cache (snd (word_check_phase w l cfg chatId word msgId nvar addrs s)) = cache s
      \<and> filter is_cache_write (trace (snd (word_check_phase w l cfg chatId word msgId nvar addrs s)))
        = filter is_cache_write (trace s))
   \<and> (stopCurrentBatch s \<longrightarrow> word_loop w l cfg chatId sty msgId ws i vs s = (vs, s))"
proof -
  have a: "returned (check_replies w (awaits s)) = Inl e \<longrightarrow>
      getCachedWordResult l (snd (word_check_balances w l cfg chatId word msgId nvar addrs s)) word
        = Some \<lparr>hasBalance = False, balanceTotal = 0, addressCount = length addrs\<rparr>
      \<and> last (trace (snd (word_check_balances w l cfg chatId word msgId nvar addrs s)))
        = CacheWrite word False 0 (length addrs)"
    by (simp add: word_check_balances_throw getCachedWordResult_def map_of_upsert)
  have b: "returned (check_replies w (query_index msgId s)) = Inl e \<longrightarrow>
      getCachedWordResult l (snd (check_word w l cfg chatId sty msgId i word vs s)) word
        = Some \<lparr>hasBalance = False, balanceTotal = 0, addressCount = length (fullWordCheck l word)\<rparr>
      \<and> last (trace (snd (check_word w l cfg chatId sty msgId i word vs s)))
        = CacheWrite word False 0 (length (fullWordCheck l word))"
    by (simp add: check_word_trace check_word_cache getCachedWordResult_def map_of_upsert)
  have c: "stopCurrentBatch s \<or> cache_skip l s word \<longrightarrow>
      cache (snd (word_check_phase w l cfg chatId word msgId nvar addrs s)) = cache s
      \<and> filter is_cache_write (trace (snd (word_check_phase w l cfg chatId word msgId nvar addrs s)))
        = filter is_cache_write (trace s)"
    by (auto simp: word_check_phase_def Let_def cache_skip_def getCachedWordResult_def)
  have d: "stopCurrentBatch s \<longrightarrow> word_loop w l cfg chatId sty msgId ws i vs s = (vs, s)"
    by (cases ws) simp_all
  from a b c d show ?thesis by blast
qed

theorem failed_query_is_cached_witness:
  "getCachedWordResult demo_lib
     (snd (word_check_balances (demo_world \<lparr>progress = [], returned = Inl ''timeout''\<rparr>) demo_lib demo_cfg
            ''42'' ''satoshi'' (Some 5) 1 [''1c-satoshi'', ''1u-satoshi''] init_state)) ''satoshi''
     = Some \<lparr>hasBalance = False, balanceTotal = 0, addressCount = 2\<rparr>
   \<and> getCachedWordResult demo_lib init_state ''satoshi'' = None"
  using failed_query_is_cached
    [of "demo_world \<lparr>progress = [], returned = Inl ''timeout''\<rparr>" init_state "''timeout''" demo_lib demo_cfg
        "''42''" "''satoshi''" "Some 5" 1 "[''1c-satoshi'', ''1u-satoshi'']"]
  by (simp add: demo_world_def init_state_def getCachedWordResult_def)

text \<open>
  The claim as stated fails: a single word check whose balance query throws leaves a cache
  entry for the phrase, where there was none.
\<close>

theorem failed_query_counterexample:
  "getCachedWordResult demo_lib init_state ''satoshi'' = None
   \<and> getCachedWordResult demo_lib
       (handleWordCheck (demo_world \<lparr>progress = [], returned = Inl ''timeout''\<rparr>) demo_lib demo_cfg
          ''42'' ''satoshi'' init_state) ''satoshi''
     = Some \<lparr>hasBalance = False, balanceTotal = 0, addressCount = 2\<rparr>"
  by code_simp

text \<open>
  C6. handleWordCheck passes to cacheWordResult the sum of the balances of the returned Map
  (a Map has no address twice) and whether one of them is positive; handleTopicExplore,
  handleAITopicExpand and handleBatch pass the literal 0 as balanceTotal, whatever the query
  returned.
\<close>

theorem balance_total_written:
  "(returned (check_replies w (awaits s)) = Inr rs \<and> distinct (map fst rs) \<longrightarrow>
      last (trace (snd (word_check_balances w l cfg chatId word msgId nvar addrs s)))
        = CacheWrite word (anyPositive rs) (sum_list (map (\<lambda>r. balance (snd r)) rs)) (length addrs))
   \<and> last (trace (snd (check_word w l cfg chatId sty msgId i word vs s)))
        = CacheWrite word
            (case returned (check_replies w (query_index msgId s)) of Inl e \<Rightarrow> False | Inr rs \<Rightarrow> anyPositive rs)
            0 (length (fullWordCheck l word))"
  by (simp add: word_check_balances_return check_word_trace)

theorem balance_total_written_witness:
  "last (trace (snd (word_check_balances
       (demo_world \<lparr>progress = [], returned = Inr [(''1c-satoshi'', \<lparr>balance = 5, api = ''x''\<rparr>),
                                                     (''1u-satoshi'', \<lparr>balance = 2, api = ''x''\<rparr>)]\<rparr>)
       demo_lib demo_cfg ''42'' ''satoshi'' (Some 5) 1 [''1c-satoshi'', ''1u-satoshi''] init_state)))
     = CacheWrite ''satoshi'' True 7 2"
  using balance_total_written
    [of "demo_world \<lparr>progress = [], returned = Inr [(''1c-satoshi'', \<lparr>balance = 5, api = ''x''\<rparr>),
                                                     (''1u-satoshi'', \<lparr>balance = 2, api = ''x''\<rparr>)]\<rparr>"
        init_state "[(''1c-satoshi'', \<lparr>balance = 5, api = ''x''\<rparr>), (''1u-satoshi'', \<lparr>balance = 2, api = ''x''\<rparr>)]"
        demo_lib demo_cfg "''42''" "''satoshi''" "Some 5" 1 "[''1c-satoshi'', ''1u-satoshi'']"]
  by (simp add: demo_world_def init_state_def anyPositive_def)

text \<open>
  The claim as stated fails: a batch check of a word whose query returns 5 on one address
  writes balanceTotal 0.
\<close>

theorem balance_total_counterexample:
  "filter is_cache_write
     (trace (handleBatch
        (demo_world \<lparr>progress = [], returned = Inr [(''1c-satoshi'', \<lparr>balance = 5, api = ''x''\<rparr>)]\<rparr>)
        demo_lib demo_cfg ''42'' ''satoshi'' init_state))
     = [CacheWrite ''satoshi'' True 0 2]
   \<and> sum_list (map (\<lambda>r. balance (snd r)) [(''1c-satoshi'', \<lparr>balance = 5, api = ''x''\<rparr>)]) = 5"
  by code_simp

section \<open>The cache policy\<close>




section \<open>The hasBalance field\<close>

text \<open>
  C4. A check that observes a positive balance writes hasBalance true: after the balance
  phase of handleWordCheck and after a word of the loop of handleBatch and the topic handlers
  whose query returned a positive balance, the record of the word has hasBalance true. The
  record holds the outcome of the latest check: a balance phase whose query returns no
  positive balance leaves hasBalance false, whatever the record held before. The dictionary
  scan keeps hasBalance true in every record that has it when the scan starts.
\<close>

theorem positive_balance_recorded:
  "(returned (check_replies w (awaits s)) = Inr rs \<longrightarrow>
      last (trace (snd (word_check_balances w l cfg chatId word m nvar addrs s)))
        = CacheWrite word (anyPositive rs) (sum_list (map (\<lambda>r. balance (snd r)) (map_set_all rs))) (length addrs)
      \<and> cached_true l (snd (word_check_balances w l cfg chatId word m nvar addrs s)) word = anyPositive rs)
   \<and> (returned (check_replies w (query_index m s)) = Inr rs \<longrightarrow>
      last (trace (snd (check_word w l cfg chatId sty m i word vs s)))
        = CacheWrite word (anyPositive rs) 0 (length (fullWordCheck l word))
      \<and> cached_true l (snd (check_word w l cfg chatId sty m i word vs s)) word = anyPositive rs)
   \<and> (cached_true l s x \<longrightarrow> cached_true l (dict_loop w l cfg chatId m n ws i s) x)"
proof -
  have a: "returned (check_replies w (awaits s)) = Inr rs \<longrightarrow>
      last (trace (snd (word_check_balances w l cfg chatId word m nvar addrs s)))
        = CacheWrite word (anyPositive rs) (sum_list (map (\<lambda>r. balance (snd r)) (map_set_all rs))) (length addrs)
      \<and> cached_true l (snd (word_check_balances w l cfg chatId word m nvar addrs s)) word = anyPositive rs"
    by (simp add: word_check_balances_def checkBalances_def Let_def cached_true_def
        getCachedWordResult_def map_of_upsert)
  have b: "returned (check_replies w (query_index m s)) = Inr rs \<longrightarrow>
      last (trace (snd (check_word w l cfg chatId sty m i word vs s)))
        = CacheWrite word (anyPositive rs) 0 (length (fullWordCheck l word))
      \<and> cached_true l (snd (check_word w l cfg chatId sty m i word vs s)) word = anyPositive rs"
    by (simp add: check_word_trace check_word_cache cached_true_def getCachedWordResult_def map_of_upsert)
  have c: "cached_true l s x \<longrightarrow> cached_true l (dict_loop w l cfg chatId m n ws i s) x"
    using dict_loop_cached_true by blast
  from a b c show ?thesis by blast
qed

theorem positive_balance_recorded_witness:
  "anyPositive [(''1c-satoshi'', \<lparr>balance = 5, api = ''x''\<rparr>)]
   \<and> cached_true demo_lib
       (snd (word_check_balances
          (demo_world \<lparr>progress = [], returned = Inr [(''1c-satoshi'', \<lparr>balance = 5, api = ''x''\<rparr>)]\<rparr>)
          demo_lib demo_cfg ''42'' ''satoshi'' (Some 5) 1 [''1c-satoshi'', ''1u-satoshi''] init_state))
       ''satoshi''"
  using positive_balance_recorded
    [of "demo_world \<lparr>progress = [], returned = Inr [(''1c-satoshi'', \<lparr>balance = 5, api = ''x''\<rparr>)]\<rparr>"
        init_state "[(''1c-satoshi'', \<lparr>balance = 5, api = ''x''\<rparr>)]" demo_lib demo_cfg "''42''" "''satoshi''"
        "Some 5" 1 "[''1c-satoshi'', ''1u-satoshi'']"]
  by (simp add: demo_world_def init_state_def anyPositive_def)

text \<open>
  The claim as stated fails: a second check of a word, whose query returns no balance,
  leaves hasBalance false although the first check observed a positive balance.
\<close>

theorem positive_balance_counterexample:
  "filter is_cache_write
     (trace (handleWordCheck
        (demo_world \<lparr>progress = [], returned = Inr [(''1c-satoshi'', \<lparr>balance = 0, api = ''x''\<rparr>)]\<rparr>)
        demo_lib demo_cfg ''42'' ''satoshi''
        (handleWordCheck
           (demo_world \<lparr>progress = [], returned = Inr [(''1c-satoshi'', \<lparr>balance = 5, api = ''x''\<rparr>)]\<rparr>)
           demo_lib demo_cfg ''42'' ''satoshi'' init_state)))
     = [CacheWrite ''satoshi'' True 5 2, CacheWrite ''satoshi'' False 0 2]
   \<and> cached_true demo_lib
     (handleWordCheck
        (demo_world \<lparr>progress = [], returned = Inr [(''1c-satoshi'', \<lparr>balance = 5, api = ''x''\<rparr>)]\<rparr>)
        demo_lib demo_cfg ''42'' ''satoshi'' init_state) ''satoshi''
   \<and> \<not> cached_true demo_lib
       (handleWordCheck
          (demo_world \<lparr>progress = [], returned = Inr [(''1c-satoshi'', \<lparr>balance = 0, api = ''x''\<rparr>)]\<rparr>)
          demo_lib demo_cfg ''42'' ''satoshi''
          (handleWordCheck
             (demo_world \<lparr>progress = [], returned = Inr [(''1c-satoshi'', \<lparr>balance = 5, api = ''x''\<rparr>)]\<rparr>)
             demo_lib demo_cfg ''42'' ''satoshi'' init_state)) ''satoshi''"
  by code_simp

text \<open>
  In the dictionary scan the record read before the queries decides the last write: a word
  that had no record ends with hasBalance false, also when a query reported a balance and
  cacheWordResult(word, true, 0, n) was called for it.
\<close>

lemma dict_word_uncached:
  assumes "getCachedWordResult l s word = None" "rejected (dict_word w l cfg chatId m n word i s) = None"
  shows "\<not> cached_true l (dict_word w l cfg chatId m n word i s) word"
  using assms
  by (auto simp: dict_word_def Let_def cached_true_def getCachedWordResult_def map_of_upsert
      split: if_splits)

theorem dictionary_overwrites_hit:
  "filter is_cache_write
     (trace (handleDictionary
        ((demo_world \<lparr>progress = [], returned = Inr []\<rparr>)\<lparr>any_replies := (\<lambda>n. Inr True)\<rparr>)
        (demo_lib\<lparr>getBIP39Wordlist := [''abandon'']\<rparr>) demo_cfg ''42'' init_state))
     = [CacheWrite ''abandon'' True 0 2, CacheWrite ''abandon'' False 0 0]
   \<and> \<not> cached_true demo_lib
       (handleDictionary
          ((demo_world \<lparr>progress = [], returned = Inr []\<rparr>)\<lparr>any_replies := (\<lambda>n. Inr True)\<rparr>)
          (demo_lib\<lparr>getBIP39Wordlist := [''abandon'']\<rparr>) demo_cfg ''42'' init_state) ''abandon''"
  by code_simp

section \<open>The stop flag\<close>

text \<open>
  C7. The token \<open>() => stopCurrentBatch\<close> returns the current value of the stop flag,
  and it is the token of every balance query of handleWordCheck, of handleBrainWallet, of
  the loop of handleBatch and the topic handlers, and of the loop of handleFeelingLucky. Each
  of these loops and the loop of the dictionary scan reads the flag before every word: once
  the flag is set after some words of the list, no later word is started. handleWordCheck
  makes no query when the flag is set before its balance phase.
\<close>

theorem stop_token_passed:
  "shouldStop FlagToken s' = stopCurrentBatch s'
   \<and> NeverToken \<notin> set (tokens (news s (handleWordCheck w l cfg chatId word s)))
   \<and> NeverToken \<notin> set (tokens (news s (handleBrainWallet w l cfg chatId word s)))
   \<and> NeverToken \<notin> set (tokens (news s (snd (word_loop w l cfg chatId sty m ws i vs s))))
   \<and> NeverToken \<notin> set (tokens (news s (snd (lucky_loop w l cfg chatId source m lws ws i lvs s))))
   \<and> (stopCurrentBatch (snd (word_loop w l cfg chatId sty m pre i vs s)) \<longrightarrow>
        word_loop w l cfg chatId sty m (pre @ post) i vs s = word_loop w l cfg chatId sty m pre i vs s)
   \<and> (stopCurrentBatch (snd (lucky_loop w l cfg chatId source m lws pre i lvs s)) \<longrightarrow>
        lucky_loop w l cfg chatId source m lws (pre @ post) i lvs s
          = lucky_loop w l cfg chatId source m lws pre i lvs s)
   \<and> (stopCurrentBatch (dict_loop w l cfg chatId m n pre i s) \<longrightarrow>
        dict_loop w l cfg chatId m n (pre @ post) i s = dict_loop w l cfg chatId m n pre i s)
   \<and> (stopCurrentBatch s \<longrightarrow>
        word_check_phase w l cfg chatId word m nvar addrs s = (([], False), s))"
proof -
  have a: "shouldStop FlagToken s' = stopCurrentBatch s'"
    by (simp add: shouldStop_def)
  have b: "stopCurrentBatch (snd (word_loop w l cfg chatId sty m pre i vs s)) \<longrightarrow>
        word_loop w l cfg chatId sty m (pre @ post) i vs s = word_loop w l cfg chatId sty m pre i vs s"
    using word_loop_stop_prefix by blast
  have c: "stopCurrentBatch (snd (lucky_loop w l cfg chatId source m lws pre i lvs s)) \<longrightarrow>
        lucky_loop w l cfg chatId source m lws (pre @ post) i lvs s
          = lucky_loop w l cfg chatId source m lws pre i lvs s"
    using lucky_loop_stop_prefix by blast
  have d: "stopCurrentBatch (dict_loop w l cfg chatId m n pre i s) \<longrightarrow>
        dict_loop w l cfg chatId m n (pre @ post) i s = dict_loop w l cfg chatId m n pre i s"
    using dict_loop_stop_prefix by blast
  have e: "stopCurrentBatch s \<longrightarrow>
        word_check_phase w l cfg chatId word m nvar addrs s = (([], False), s)"
    using word_check_phase_stopped by blast
  show ?thesis
    apply (intro conjI)
            apply (rule a)
           apply (rule handleWordCheck_tokens)
          apply (rule handleBrainWallet_tokens)
         apply (rule word_loop_tokens)
        apply (rule lucky_loop_tokens)
       apply (rule b)
      apply (rule c)
     apply (rule d)
    apply (rule e)
    done
qed

theorem stop_token_passed_witness:
  "stopCurrentBatch
     (snd (word_loop (stopping_world \<lparr>progress = [], returned = Inr []\<rparr>) demo_lib demo_cfg ''42''
             (batch_style demo_lib 2) (Some 5) [''a''] 0
             \<lparr>results = [], lastProgress = 0, foundAny = False\<rparr> init_state))
   \<and> word_loop (stopping_world \<lparr>progress = [], returned = Inr []\<rparr>) demo_lib demo_cfg ''42''
        (batch_style demo_lib 2) (Some 5) ([''a''] @ [''b'']) 0
        \<lparr>results = [], lastProgress = 0, foundAny = False\<rparr> init_state
     = word_loop (stopping_world \<lparr>progress = [], returned = Inr []\<rparr>) demo_lib demo_cfg ''42''
        (batch_style demo_lib 2) (Some 5) [''a''] 0
        \<lparr>results = [], lastProgress = 0, foundAny = False\<rparr> init_state"
proof -
  have h: "stopCurrentBatch
     (snd (word_loop (stopping_world \<lparr>progress = [], returned = Inr []\<rparr>) demo_lib demo_cfg ''42''
             (batch_style demo_lib 2) (Some 5) [''a''] 0
             \<lparr>results = [], lastProgress = 0, foundAny = False\<rparr> init_state))"
    by code_simp
  from stop_token_passed
    [where w = "stopping_world \<lparr>progress = [], returned = Inr []\<rparr>" and l = demo_lib and cfg = demo_cfg
       and chatId = "''42''" and sty = "batch_style demo_lib 2" and m = "Some 5" and pre = "[''a'']"
       and post = "[''b'']" and i = 0 and vs = "\<lparr>results = [], lastProgress = 0, foundAny = False\<rparr>"
       and s = init_state] h
  show ?thesis by blast
qed

text \<open>
  The claim as stated fails: handleRandomKeyHunt passes \<open>() => false\<close>. With a Stop that
  arrives while its first message is sent, the query is still made, and its token answers
  false while the flag is set.
\<close>

theorem stop_token_counterexample:
  "filter is_query
     (trace (handleRandomKeyHunt (stopping_world \<lparr>progress = [], returned = Inr []\<rparr>) demo_lib demo_cfg
               ''42'' 1 [demo_brain ''k''] 0 ''f'' init_state))
     = [Check [''1c-k'', ''bc1-k''] ''auto'' 500 NeverToken]
   \<and> stopCurrentBatch
       (handleRandomKeyHunt (stopping_world \<lparr>progress = [], returned = Inr []\<rparr>) demo_lib demo_cfg
          ''42'' 1 [demo_brain ''k''] 0 ''f'' init_state)
   \<and> \<not> shouldStop NeverToken
       (handleRandomKeyHunt (stopping_world \<lparr>progress = [], returned = Inr []\<rparr>) demo_lib demo_cfg
          ''42'' 1 [demo_brain ''k''] 0 ''f'' init_state)"
  by code_simp

section \<open>One long operation at a time\<close>

text \<open>
  C8. At most one operation runs at a time: longRunning is true exactly while an operation
  started by runLongOp has not settled, and while one runs no event of the polling loop
  starts a handler. While longRunning is true, an update other than Stop is rejected: no
  handler is started, the running operation and the stop flag stay as they are. runLongOp
  sets the flag, and it stays set, with the same operation running and whatever updates
  arrive, until the promise of the operation settles, which clears it. A Stop sets the stop
  flag in every state.
\<close>

theorem one_long_operation:
  "longRunning (run_bot kt es) = (running (run_bot kt es) \<noteq> None)
   \<and> (longRunning b \<and> \<not> is_stop u \<longrightarrow>
        started (pollUpdate kt u b) = started b \<and> running (pollUpdate kt u b) = running b
        \<and> longRunning (pollUpdate kt u b) \<and> stop_flag (pollUpdate kt u b) = stop_flag b)
   \<and> longRunning (runLongOp h b) \<and> running (runLongOp h b) = Some h
   \<and> started (foldl (poll_step kt) (runLongOp h b) (map Incoming us)) = started b @ [(h, True)]
   \<and> running (foldl (poll_step kt) (runLongOp h b) (map Incoming us)) = Some h
   \<and> longRunning (foldl (poll_step kt) (runLongOp h b) (map Incoming us))
   \<and> \<not> longRunning (poll_step kt (foldl (poll_step kt) (runLongOp h b) (map Incoming us)) Settles)
   \<and> (is_stop u \<longrightarrow> stop_flag (pollUpdate kt u b))
   \<and> (running (run_bot kt es) \<noteq> None \<longrightarrow>
        started (poll_step kt (run_bot kt es) e) = started (run_bot kt es))"
proof -
  have r: "longRunning (runLongOp h b)" "running (runLongOp h b) = Some h"
    "started (runLongOp h b) = started b @ [(h, True)]"
    by (simp_all add: runLongOp_def)
  note u = updates_busy [OF r(1), of kt us]
  have a: "longRunning b \<and> \<not> is_stop u \<longrightarrow>
        started (pollUpdate kt u b) = started b \<and> running (pollUpdate kt u b) = running b
        \<and> longRunning (pollUpdate kt u b) \<and> stop_flag (pollUpdate kt u b) = stop_flag b"
    using pollUpdate_rejects by blast
  have s: "\<not> longRunning (poll_step kt (foldl (poll_step kt) (runLongOp h b) (map Incoming us)) Settles)"
    using u r by (simp add: poll_step_def settled_def)
  have t: "is_stop u \<longrightarrow> stop_flag (pollUpdate kt u b)"
    using pollUpdate_stop by blast
  have o: "running (run_bot kt es) \<noteq> None \<longrightarrow>
        started (poll_step kt (run_bot kt es) e) = started (run_bot kt es)"
  proof
    assume "running (run_bot kt es) \<noteq> None"
    then have lr: "longRunning (run_bot kt es)" using run_bot_inv [of kt es] by simp
    show "started (poll_step kt (run_bot kt es) e) = started (run_bot kt es)"
      by (cases e) (simp_all add: poll_step_def pollUpdate_busy [OF lr] settled_def)
  qed
  show ?thesis
    using run_bot_inv [of kt es] a r u s t o by simp
qed

theorem one_long_operation_witness:
  "longRunning (runLongOp ''handleBatch'' initial_bot)
   \<and> \<not> is_stop (TextMessage ''42'' ''satoshi'' OtherState)
   \<and> started (pollUpdate (\<lambda>d. False) (TextMessage ''42'' ''satoshi'' OtherState)
                (runLongOp ''handleBatch'' initial_bot))
     = [(''handleBatch'', True)]
   \<and> is_stop (TextMessage ''42'' ''/Stop '' OtherState)
   \<and> stop_flag (pollUpdate (\<lambda>d. False) (TextMessage ''42'' ''/Stop '' OtherState)
                  (runLongOp ''handleBatch'' initial_bot))
   \<and> is_stop (TextMessage ''42'' (''/STOP'' @ [CHR 0xA0]) OtherState)
   \<and> stop_flag (pollUpdate (\<lambda>d. False) (TextMessage ''42'' (''/STOP'' @ [CHR 0xA0]) OtherState)
                  (runLongOp ''handleBatch'' initial_bot))"
proof -
  have h1: "longRunning (runLongOp ''handleBatch'' initial_bot)"
    by (simp add: runLongOp_def)
  have h2: "\<not> is_stop (TextMessage ''42'' ''satoshi'' OtherState)"
    by code_simp
  have h3: "is_stop (TextMessage ''42'' ''/Stop '' OtherState)"
    by code_simp
  have h4: "started (runLongOp ''handleBatch'' initial_bot) = [(''handleBatch'', True)]"
    by (simp add: runLongOp_def initial_bot_def)
  note a = one_long_operation [where b = "runLongOp ''handleBatch'' initial_bot"
      and u = "TextMessage ''42'' ''satoshi'' OtherState" and kt = "\<lambda>d. False"]
  note b = one_long_operation [where b = "runLongOp ''handleBatch'' initial_bot"
      and u = "TextMessage ''42'' ''/Stop '' OtherState" and kt = "\<lambda>d. False"]
  have h5: "is_stop (TextMessage ''42'' (''/STOP'' @ [CHR 0xA0]) OtherState)"
    by code_simp
  note c = one_long_operation [where b = "runLongOp ''handleBatch'' initial_bot"
      and u = "TextMessage ''42'' (''/STOP'' @ [CHR 0xA0]) OtherState" and kt = "\<lambda>d. False"]
  from a b c h1 h2 h3 h4 h5 show ?thesis by simp
qed

text \<open>
  The last part of the claim does not hold of the code: the callback \<open>dictionary\<close> (line
  611) awaits handleDictionary in the polling loop, while the command \<open>/dictionary\<close>
  (403) and the callback \<open>check_word:dictionary\<close> (597) start the same handler through
  runLongOp. The scan then runs with longRunning false, and the loop, which is inside the
  awaited call, takes no update, Stop included, before the scan returns. The command
  \<open>/brain\<close> awaits handleBrainWallet in the same way.
\<close>

theorem one_long_operation_counterexample:
  "handleCallback (\<lambda>d. False) ''dictionary'' = Awaited ''handleDictionary''
   \<and> handleCallback (\<lambda>d. False) ''check_word:dictionary'' = ViaRunLongOp ''handleDictionary''
   \<and> handleMessage OtherState ''/dictionary'' = ViaRunLongOp ''handleDictionary''
   \<and> checks_balances ''handleDictionary''
   \<and> started (run_bot (\<lambda>d. False) [Incoming (CallbackQuery (Some ''42'') ''dictionary'')])
     = [(''handleDictionary'', False)]
   \<and> \<not> longRunning (run_bot (\<lambda>d. False) [Incoming (CallbackQuery (Some ''42'') ''dictionary'')])
   \<and> started (run_bot (\<lambda>d. False) [Incoming (TextMessage ''42'' ''/brain hunter2'' OtherState)])
     = [(''handleBrainWallet'', False)]
   \<and> checks_balances ''handleBrainWallet''"
  by code_simp

section \<open>The notification of the admin\<close>




section \<open>What the requesting chat sees\<close>

text \<open>
  C1. Take two runs from the same state that differ only in the balances checkBalances
  returns: the same Stop requests arrive at the same awaited calls, the message ids, the AI
  replies and the progress callbacks are the same, and every query throws the same error or
  returns the same addresses in both. For a requesting chat that is not the admin chat, what
  the chat sees of handleWordCheck and of handleBrainWallet (messages sent, edited and
  deleted, in order) is the same in both runs. The same holds for handleBatch and
  handleAITopicExpand when, in both runs, no Stop request arrives while a notification of the
  admin is awaited. buildResultsMessage does not depend on the balance results it is given.
\<close>

theorem result_text_independent:
  assumes "same_but_balances w w'" "TELEGRAM_CHAT_ID cfg \<noteq> Some chatId"
  shows "view chatId (trace (handleWordCheck w l cfg chatId word s))
       = view chatId (trace (handleWordCheck w' l cfg chatId word s))
     \<and> view chatId (trace (handleBrainWallet w l cfg chatId word s))
       = view chatId (trace (handleBrainWallet w' l cfg chatId word s))
     \<and> (no_admin_stop w \<and> no_admin_stop w' \<longrightarrow>
          view chatId (trace (handleBatch w l cfg chatId args s))
            = view chatId (trace (handleBatch w' l cfg chatId args s))
          \<and> view chatId (trace (handleAITopicExpand w l cfg chatId topicKey s))
            = view chatId (trace (handleAITopicExpand w' l cfg chatId topicKey s)))
     \<and> buildResultsMessage l word v n ds br fb = buildResultsMessage l word v n ds [] False"
proof -
  have b: "no_admin_stop w \<and> no_admin_stop w' \<longrightarrow>
          view chatId (trace (handleBatch w l cfg chatId args s))
            = view chatId (trace (handleBatch w' l cfg chatId args s))
          \<and> view chatId (trace (handleAITopicExpand w l cfg chatId topicKey s))
            = view chatId (trace (handleAITopicExpand w' l cfg chatId topicKey s))"
    using handleBatch_low [OF assms] handleAITopicExpand_low [OF assms] by blast
  show ?thesis
    apply (intro conjI)
       apply (rule handleWordCheck_low [OF assms])
      apply (rule handleBrainWallet_low [OF assms])
     apply (rule b)
    apply (rule buildResultsMessage_ignores)
    done
qed

theorem result_text_independent_witness:
  "same_but_balances
     (demo_world \<lparr>progress = [], returned = Inr [(''1c-satoshi'', \<lparr>balance = 5, api = ''x''\<rparr>)]\<rparr>)
     (demo_world \<lparr>progress = [], returned = Inr [(''1c-satoshi'', \<lparr>balance = 0, api = ''x''\<rparr>)]\<rparr>)
   \<and> TELEGRAM_CHAT_ID demo_cfg \<noteq> Some ''42''
   \<and> no_admin_stop (demo_world \<lparr>progress = [], returned = Inr [(''1c-satoshi'', \<lparr>balance = 5, api = ''x''\<rparr>)]\<rparr>)
   \<and> no_admin_stop (demo_world \<lparr>progress = [], returned = Inr [(''1c-satoshi'', \<lparr>balance = 0, api = ''x''\<rparr>)]\<rparr>)
   \<and> view ''42'' (trace (handleWordCheck
        (demo_world \<lparr>progress = [], returned = Inr [(''1c-satoshi'', \<lparr>balance = 5, api = ''x''\<rparr>)]\<rparr>)
        demo_lib demo_cfg ''42'' ''satoshi'' init_state))
     = view ''42'' (trace (handleWordCheck
        (demo_world \<lparr>progress = [], returned = Inr [(''1c-satoshi'', \<lparr>balance = 0, api = ''x''\<rparr>)]\<rparr>)
        demo_lib demo_cfg ''42'' ''satoshi'' init_state))
   \<and> view ''42'' (trace (handleBatch
        (demo_world \<lparr>progress = [], returned = Inr [(''1c-satoshi'', \<lparr>balance = 5, api = ''x''\<rparr>)]\<rparr>)
        demo_lib demo_cfg ''42'' ''satoshi nakamoto'' init_state))
     = view ''42'' (trace (handleBatch
        (demo_world \<lparr>progress = [], returned = Inr [(''1c-satoshi'', \<lparr>balance = 0, api = ''x''\<rparr>)]\<rparr>)
        demo_lib demo_cfg ''42'' ''satoshi nakamoto'' init_state))"
proof -
  have h1: "same_but_balances
     (demo_world \<lparr>progress = [], returned = Inr [(''1c-satoshi'', \<lparr>balance = 5, api = ''x''\<rparr>)]\<rparr>)
     (demo_world \<lparr>progress = [], returned = Inr [(''1c-satoshi'', \<lparr>balance = 0, api = ''x''\<rparr>)]\<rparr>)"
    by (simp add: same_but_balances_def demo_world_def)
  have h2: "TELEGRAM_CHAT_ID demo_cfg \<noteq> Some ''42''"
    by (simp add: demo_cfg_def)
  have h3: "no_admin_stop (demo_world \<lparr>progress = [], returned = Inr [(''1c-satoshi'', \<lparr>balance = 5, api = ''x''\<rparr>)]\<rparr>)"
    "no_admin_stop (demo_world \<lparr>progress = [], returned = Inr [(''1c-satoshi'', \<lparr>balance = 0, api = ''x''\<rparr>)]\<rparr>)"
    by (simp_all add: no_admin_stop_def demo_world_def)
  from result_text_independent [OF h1 h2, where s = init_state and l = demo_lib and word = "''satoshi''"
      and args = "''satoshi nakamoto''"] h1 h2 h3
  show ?thesis by simp
qed

text \<open>
  The claim as stated fails: handleFeelingLucky tells the requesting chat of a balance. Its
  last message differs between two runs that differ only in the balance returned.
\<close>

theorem result_text_counterexample:
  "same_but_balances
     (demo_world \<lparr>progress = [], returned = Inr [(''1c-a'', \<lparr>balance = 5, api = ''x''\<rparr>)]\<rparr>)
     (demo_world \<lparr>progress = [], returned = Inr [(''1c-a'', \<lparr>balance = 0, api = ''x''\<rparr>)]\<rparr>)
   \<and> TELEGRAM_CHAT_ID demo_cfg \<noteq> Some ''42''
   \<and> no_admin_stop (demo_world \<lparr>progress = [], returned = Inr [(''1c-a'', \<lparr>balance = 5, api = ''x''\<rparr>)]\<rparr>)
   \<and> no_admin_stop (demo_world \<lparr>progress = [], returned = Inr [(''1c-a'', \<lparr>balance = 0, api = ''x''\<rparr>)]\<rparr>)
   \<and> last (view ''42'' (trace (feelingLucky_check
        (demo_world \<lparr>progress = [], returned = Inr [(''1c-a'', \<lparr>balance = 5, api = ''x''\<rparr>)]\<rparr>)
        demo_lib demo_cfg ''42'' [''a''] ''src'' 0 init_state)))
     = Send ''42'' (''[ud83c][udf89] Found balance on '' @ [CHR 0x22] @ ''<b>a</b>'' @ [CHR 0x22] @ ''!'')
   \<and> last (view ''42'' (trace (feelingLucky_check
        (demo_world \<lparr>progress = [], returned = Inr [(''1c-a'', \<lparr>balance = 0, api = ''x''\<rparr>)]\<rparr>)
        demo_lib demo_cfg ''42'' [''a''] ''src'' 0 init_state)))
     = Send ''42'' ''[ud83c][udf40] Checked 1 picks. Spin again or try another approach!''"
proof -
  have h1: "same_but_balances
     (demo_world \<lparr>progress = [], returned = Inr [(''1c-a'', \<lparr>balance = 5, api = ''x''\<rparr>)]\<rparr>)
     (demo_world \<lparr>progress = [], returned = Inr [(''1c-a'', \<lparr>balance = 0, api = ''x''\<rparr>)]\<rparr>)"
    by (simp add: same_but_balances_def demo_world_def)
  have h2: "TELEGRAM_CHAT_ID demo_cfg \<noteq> Some ''42''"
    by (simp add: demo_cfg_def)
  have h5: "no_admin_stop (demo_world \<lparr>progress = [], returned = Inr [(''1c-a'', \<lparr>balance = 5, api = ''x''\<rparr>)]\<rparr>)"
    "no_admin_stop (demo_world \<lparr>progress = [], returned = Inr [(''1c-a'', \<lparr>balance = 0, api = ''x''\<rparr>)]\<rparr>)"
    by (simp_all add: no_admin_stop_def demo_world_def)
  have h3: "last (view ''42'' (trace (feelingLucky_check
        (demo_world \<lparr>progress = [], returned = Inr [(''1c-a'', \<lparr>balance = 5, api = ''x''\<rparr>)]\<rparr>)
        demo_lib demo_cfg ''42'' [''a''] ''src'' 0 init_state)))
     = Send ''42'' (''[ud83c][udf89] Found balance on '' @ [CHR 0x22] @ ''<b>a</b>'' @ [CHR 0x22] @ ''!'')"
    by code_simp
  have h4: "last (view ''42'' (trace (feelingLucky_check
        (demo_world \<lparr>progress = [], returned = Inr [(''1c-a'', \<lparr>balance = 0, api = ''x''\<rparr>)]\<rparr>)
        demo_lib demo_cfg ''42'' [''a''] ''src'' 0 init_state)))
     = Send ''42'' ''[ud83c][udf40] Checked 1 picks. Spin again or try another approach!''"
    by code_simp
  from h1 h2 h5 h3 h4 show ?thesis by (intro conjI)
qed

text \<open>
  Why handleBatch needs the condition on the notification of the admin:
  \<open>await notifyAdmin\<close> is a suspension point that only the run with a balance has. With a
  Stop request that arrives there, the loop ends after the first word, and the summary
  counts one word; the run without a balance checks both words.
\<close>

theorem stop_during_notification_shows:
  "same_but_balances
     ((demo_world \<lparr>progress = [], returned = Inr [(''1c-a'', \<lparr>balance = 5, api = ''x''\<rparr>)]\<rparr>)
        \<lparr>admin_stop_req := (\<lambda>n. True)\<rparr>)
     ((demo_world \<lparr>progress = [], returned = Inr [(''1c-a'', \<lparr>balance = 0, api = ''x''\<rparr>)]\<rparr>)
        \<lparr>admin_stop_req := (\<lambda>n. True)\<rparr>)
   \<and> length (filter is_query (trace (handleBatch
        ((demo_world \<lparr>progress = [], returned = Inr [(''1c-a'', \<lparr>balance = 5, api = ''x''\<rparr>)]\<rparr>)
           \<lparr>admin_stop_req := (\<lambda>n. True)\<rparr>)
        demo_lib demo_cfg ''42'' ''a b'' init_state))) = 1
   \<and> length (filter is_query (trace (handleBatch
        ((demo_world \<lparr>progress = [], returned = Inr [(''1c-a'', \<lparr>balance = 0, api = ''x''\<rparr>)]\<rparr>)
           \<lparr>admin_stop_req := (\<lambda>n. True)\<rparr>)
        demo_lib demo_cfg ''42'' ''a b'' init_state))) = 2
   \<and> view ''42'' (trace (handleBatch
        ((demo_world \<lparr>progress = [], returned = Inr [(''1c-a'', \<lparr>balance = 5, api = ''x''\<rparr>)]\<rparr>)
           \<lparr>admin_stop_req := (\<lambda>n. True)\<rparr>)
        demo_lib demo_cfg ''42'' ''a b'' init_state))
     \<noteq> view ''42'' (trace (handleBatch
        ((demo_world \<lparr>progress = [], returned = Inr [(''1c-a'', \<lparr>balance = 0, api = ''x''\<rparr>)]\<rparr>)
           \<lparr>admin_stop_req := (\<lambda>n. True)\<rparr>)
        demo_lib demo_cfg ''42'' ''a b'' init_state))"
proof -
  have h1: "same_but_balances
     ((demo_world \<lparr>progress = [], returned = Inr [(''1c-a'', \<lparr>balance = 5, api = ''x''\<rparr>)]\<rparr>)
        \<lparr>admin_stop_req := (\<lambda>n. True)\<rparr>)
     ((demo_world \<lparr>progress = [], returned = Inr [(''1c-a'', \<lparr>balance = 0, api = ''x''\<rparr>)]\<rparr>)
        \<lparr>admin_stop_req := (\<lambda>n. True)\<rparr>)"
    by (simp add: same_but_balances_def demo_world_def)
  have h2: "length (filter is_query (trace (handleBatch
        ((demo_world \<lparr>progress = [], returned = Inr [(''1c-a'', \<lparr>balance = 5, api = ''x''\<rparr>)]\<rparr>)
           \<lparr>admin_stop_req := (\<lambda>n. True)\<rparr>)
        demo_lib demo_cfg ''42'' ''a b'' init_state))) = 1"
    by code_simp
  have h3: "length (filter is_query (trace (handleBatch
        ((demo_world \<lparr>progress = [], returned = Inr [(''1c-a'', \<lparr>balance = 0, api = ''x''\<rparr>)]\<rparr>)
           \<lparr>admin_stop_req := (\<lambda>n. True)\<rparr>)
        demo_lib demo_cfg ''42'' ''a b'' init_state))) = 2"
    by code_simp
  have h4: "view ''42'' (trace (handleBatch
        ((demo_world \<lparr>progress = [], returned = Inr [(''1c-a'', \<lparr>balance = 5, api = ''x''\<rparr>)]\<rparr>)
           \<lparr>admin_stop_req := (\<lambda>n. True)\<rparr>)
        demo_lib demo_cfg ''42'' ''a b'' init_state))
     \<noteq> view ''42'' (trace (handleBatch
        ((demo_world \<lparr>progress = [], returned = Inr [(''1c-a'', \<lparr>balance = 0, api = ''x''\<rparr>)]\<rparr>)
           \<lparr>admin_stop_req := (\<lambda>n. True)\<rparr>)
        demo_lib demo_cfg ''42'' ''a b'' init_state))"
    by code_simp
  from h1 h2 h3 h4 show ?thesis by (intro conjI)
qed

text \<open>
  The summary of handleTopicExplore leaves out its last line when a balance was found:
  \<open>foundAny\<close> is read at lines 1180 to 1184.
\<close>

theorem topic_summary_shows_hit:
  "topic_summary demo_lib demo_cfg ''Games'' \<lparr>results = [], lastProgress = 0, foundAny = False\<rparr> 1
     = topic_summary demo_lib demo_cfg ''Games'' \<lparr>results = [], lastProgress = 0, foundAny = True\<rparr> 1
       @ NL @ ''[u274c] No balances found.''"
  by (simp add: topic_summary_def demo_cfg_def)

end
